(* ===== verification/Shepoo_Prelude.thy ===== *)
theory Shepoo_Prelude
  imports Main "HOL-Library.Word"
begin

text \<open>
  Shared vocabulary of the development: machine integers, the outcome of a piece of C++
  code, the state-passing programs every stateful operation of the server is translated to,
  and the notions of inductive invariant and fixed-width codec that several components use.
\<close>

type_synonym u8 = "8 word"
type_synonym u16 = "16 word"
type_synonym u32 = "32 word"
type_synonym u64 = "64 word"

section \<open>Outcomes of C++ code\<close>

text \<open>
  A call of the server's code either returns a value, ends the process with \<open>exit\<close>,
  throws an exception nobody catches (\<open>std::bad_alloc\<close>, \<open>std::out_of_range\<close>: the
  runtime then aborts the process), or reaches a state for which the C++ standard defines
  no behaviour. The last case is a value of the model as well, so that theorems can say
  that it is never reached, or exactly when it is.
\<close>

datatype undefined_behaviour =
    Null_pointer        \<comment> \<open>bytes are read through a null pointer\<close>
  | Out_of_bounds       \<comment> \<open>an array or buffer is accessed outside its bounds\<close>
  | Dangling_pointer    \<comment> \<open>an object is used before or after its lifetime\<close>
  | Mutex_misuse        \<comment> \<open>a mutex is set up twice, or used or deleted in a state that forbids it\<close>

datatype 'a outcome =
    Ret 'a
  | Exit int
  | Uncaught
  | Undefined undefined_behaviour

text \<open>
  A program takes a state to an outcome and the state it leaves behind; \<open>None\<close> is a
  run that never comes back, such as a thread that waits for a mutex it holds itself. Beside
  \<open>Undefined\<close> stands the state in which the undefined access is made: it says what has happened up to
  there, and nothing of what happens afterwards.
\<close>

type_synonym ('a, 's) prog = "'s \<Rightarrow> ('a outcome \<times> 's) option"

named_theorems prog_simps "equations that run a program on a state"

definition returnp :: "'a \<Rightarrow> ('a, 's) prog" where
  "returnp x = (\<lambda>s. Some (Ret x, s))"

definition exitp :: "int \<Rightarrow> ('a, 's) prog" where
  "exitp n = (\<lambda>s. Some (Exit n, s))"

definition throwp :: "('a, 's) prog" where
  "throwp = (\<lambda>s. Some (Uncaught, s))"

definition undefp :: "undefined_behaviour \<Rightarrow> ('a, 's) prog" where
  "undefp u = (\<lambda>s. Some (Undefined u, s))"

definition getp :: "('s \<Rightarrow> 'a) \<Rightarrow> ('a, 's) prog" where
  "getp f = (\<lambda>s. Some (Ret (f s), s))"

definition modifyp :: "('s \<Rightarrow> 's) \<Rightarrow> (unit, 's) prog" where
  "modifyp f = (\<lambda>s. Some (Ret (), f s))"

text \<open>Sequencing: only a return goes on, every other outcome ends the whole program.\<close>

definition bindp :: "('a, 's) prog \<Rightarrow> ('a \<Rightarrow> ('b, 's) prog) \<Rightarrow> ('b, 's) prog" where
  "bindp m f = (\<lambda>s. case m s of
       None \<Rightarrow> None
     | Some (Ret x, s') \<Rightarrow> f x s'
     | Some (Exit n, s') \<Rightarrow> Some (Exit n, s')
     | Some (Uncaught, s') \<Rightarrow> Some (Uncaught, s')
     | Some (Undefined u, s') \<Rightarrow> Some (Undefined u, s'))"

definition seqp :: "('a, 's) prog \<Rightarrow> ('b, 's) prog \<Rightarrow> ('b, 's) prog" where
  "seqp m k = bindp m (\<lambda>_. k)"

lemma returnp_run [simp, prog_simps]: "returnp x s = Some (Ret x, s)"
  by (simp add: returnp_def)

lemma exitp_run [simp, prog_simps]: "exitp n s = Some (Exit n, s)"
  by (simp add: exitp_def)

lemma throwp_run [simp, prog_simps]: "throwp s = Some (Uncaught, s)"
  by (simp add: throwp_def)

lemma undefp_run [simp, prog_simps]: "undefp u s = Some (Undefined u, s)"
  by (simp add: undefp_def)

lemma getp_run [simp, prog_simps]: "getp f s = Some (Ret (f s), s)"
  by (simp add: getp_def)

lemma modifyp_run [simp, prog_simps]: "modifyp f s = Some (Ret (), f s)"
  by (simp add: modifyp_def)

lemma bindp_run [prog_simps]:
  "m s = Some (Ret x, s') \<Longrightarrow> bindp m f s = f x s'"
  "m s = Some (Exit n, s') \<Longrightarrow> bindp m f s = Some (Exit n, s')"
  "m s = Some (Uncaught, s') \<Longrightarrow> bindp m f s = Some (Uncaught, s')"
  "m s = Some (Undefined u, s') \<Longrightarrow> bindp m f s = Some (Undefined u, s')"
  "m s = None \<Longrightarrow> bindp m f s = None"
  by (simp_all add: bindp_def)

lemma seqp_run [prog_simps]:
  "m s = Some (Ret x, s') \<Longrightarrow> seqp m k s = k s'"
  "m s = Some (Exit n, s') \<Longrightarrow> seqp m k s = Some (Exit n, s')"
  "m s = Some (Uncaught, s') \<Longrightarrow> seqp m k s = Some (Uncaught, s')"
  "m s = Some (Undefined u, s') \<Longrightarrow> seqp m k s = Some (Undefined u, s')"
  "m s = None \<Longrightarrow> seqp m k s = None"
  by (simp_all add: seqp_def bindp_def)

text \<open>The same as rules, to run a program one call at a time.\<close>

lemma bindp_step: "m s = Some (Ret x, s') \<Longrightarrow> f x s' = r \<Longrightarrow> bindp m f s = r"
  by (simp add: bindp_run)

lemma seqp_step: "m s = Some (Ret x, s') \<Longrightarrow> k s' = r \<Longrightarrow> seqp m k s = r"
  by (simp add: seqp_run)

lemma bindp_returnp [simp]: "bindp (returnp x) f = f x"
  by (simp add: fun_eq_iff bindp_run)

lemma bindp_undefp [simp]: "bindp (undefp u) f = undefp u"
  by (simp add: fun_eq_iff bindp_run)

lemma seqp_returnp [simp]: "seqp (returnp x) k = k"
  by (simp add: fun_eq_iff seqp_run)

lemma bindp_assoc: "bindp (bindp m f) g = bindp m (\<lambda>x. bindp (f x) g)"
  by (simp add: fun_eq_iff bindp_def split: option.split prod.split outcome.split)

lemma seqp_assoc: "seqp (seqp m k) l = seqp m (seqp k l)"
  by (simp add: seqp_def bindp_assoc)

text \<open>Inversion: what a sequence that returned must have done.\<close>

lemma bindp_RetE:
  assumes "bindp m f s = Some (Ret y, t)"
  obtains x s' where "m s = Some (Ret x, s')" and "f x s' = Some (Ret y, t)"
  using assms by (auto simp: bindp_def split: option.splits prod.splits outcome.splits)

lemma seqp_RetE:
  assumes "seqp m k s = Some (Ret y, t)"
  obtains x s' where "m s = Some (Ret x, s')" and "k s' = Some (Ret y, t)"
  using assms by (auto simp: seqp_def elim: bindp_RetE)

lemma seqp_unit: "seqp m (returnp ()) = m"
proof
  fix s
  show "seqp m (returnp ()) s = m s"
    by (auto simp: seqp_def bindp_def split: option.split prod.split outcome.split)
qed

section \<open>What a program leaves alone\<close>

text \<open>
  \<open>within R m\<close>: whatever way \<open>m\<close> ends, it has gone from a state to one that \<open>R\<close> relates to it.
  When \<open>R\<close> is reflexive and transitive the rules follow the structure of programs, so a goal
  about a whole handler reduces to goals about the primitive operations it uses.
\<close>

definition within :: "('s \<Rightarrow> 's \<Rightarrow> bool) \<Rightarrow> ('a, 's) prog \<Rightarrow> bool" where
  "within R m \<longleftrightarrow> (\<forall>s r s'. m s = Some (r, s') \<longrightarrow> R s s')"

lemma withinI: "(\<And>s r s'. m s = Some (r, s') \<Longrightarrow> R s s') \<Longrightarrow> within R m"
  by (simp add: within_def)

lemma withinD: "within R m \<Longrightarrow> m s = Some (r, s') \<Longrightarrow> R s s'"
  by (simp add: within_def)

lemma within_if: "(b \<Longrightarrow> within R m) \<Longrightarrow> (\<not> b \<Longrightarrow> within R k) \<Longrightarrow> within R (if b then m else k)"
  by simp

lemma within_case_option:
  "within R m \<Longrightarrow> (\<And>x. within R (k x)) \<Longrightarrow> within R (case y of None \<Rightarrow> m | Some x \<Rightarrow> k x)"
  by (simp split: option.split)

lemma within_case_prod: "(\<And>a b. within R (k a b)) \<Longrightarrow> within R (case y of (a, b) \<Rightarrow> k a b)"
  by (simp split: prod.split)

lemma within_Let: "(\<And>x. within R (k x)) \<Longrightarrow> within R (let x = y in k x)"
  by simp

lemma within_modifyp: "(\<And>s. R s (g s)) \<Longrightarrow> within R (modifyp g)"
  by (auto simp: within_def)

locale frame =
  fixes R :: "'s \<Rightarrow> 's \<Rightarrow> bool"
  assumes frame_refl: "R s s" and frame_trans: "R s t \<Longrightarrow> R t u \<Longrightarrow> R s u"
begin

lemma within_basic:
  "within R (returnp x)" "within R (exitp n)" "within R throwp" "within R (undefp u)" "within R (getp g)"
  by (auto simp: within_def frame_refl)

lemma within_bindp:
  assumes "within R m" and "\<And>x. within R (k x)"
  shows "within R (bindp m k)"
proof (rule withinI)
  fix s r s' assume "bindp m k s = Some (r, s')"
  then obtain o' t where m: "m s = Some (o', t)"
    and rest: "(\<exists>x. o' = Ret x \<and> k x t = Some (r, s')) \<or> s' = t"
    by (auto simp: bindp_def split: option.splits prod.splits outcome.splits)
  from withinD [OF assms(1) m] rest show "R s s'"
    by (auto dest: withinD [OF assms(2)] intro: frame_trans)
qed

lemma within_seqp: "within R m \<Longrightarrow> within R k \<Longrightarrow> within R (seqp m k)"
  by (simp add: seqp_def within_bindp)

lemmas within_intros = within_if within_case_option within_case_prod within_Let
  within_basic within_bindp within_seqp

end

text \<open>\<open>preserves f m\<close>: the part \<open>f\<close> of the state is what it was.\<close>

definition preserves :: "('s \<Rightarrow> 'x) \<Rightarrow> ('a, 's) prog \<Rightarrow> bool" where
  "preserves f m \<longleftrightarrow> (\<forall>s r s'. m s = Some (r, s') \<longrightarrow> f s' = f s)"

named_theorems preserves_intros "rules for preserves"

interpretation same: frame "\<lambda>s t. f t = f s" for f
  by unfold_locales simp_all

lemma preserves_within: "preserves f m \<longleftrightarrow> within (\<lambda>s t. f t = f s) m"
  by (simp add: preserves_def within_def)

lemma preservesI: "(\<And>s r s'. m s = Some (r, s') \<Longrightarrow> f s' = f s) \<Longrightarrow> preserves f m"
  by (simp add: preserves_def)

lemma preservesD: "preserves f m \<Longrightarrow> m s = Some (r, s') \<Longrightarrow> f s' = f s"
  by (simp add: preserves_def)

lemma preserves_basic [preserves_intros]:
  "preserves f (returnp x)" "preserves f (exitp n)" "preserves f throwp"
  "preserves f (undefp u)" "preserves f (getp g)"
  unfolding preserves_within by (rule same.within_basic)+

lemma preserves_modifyp [preserves_intros]:
  "(\<And>s. f (g s) = f s) \<Longrightarrow> preserves f (modifyp g)"
  unfolding preserves_within by (rule within_modifyp)

lemma preserves_bindp [preserves_intros]:
  "preserves f m \<Longrightarrow> (\<And>x. preserves f (k x)) \<Longrightarrow> preserves f (bindp m k)"
  unfolding preserves_within by (rule same.within_bindp)

lemma preserves_seqp [preserves_intros]:
  "preserves f m \<Longrightarrow> preserves f k \<Longrightarrow> preserves f (seqp m k)"
  unfolding preserves_within by (rule same.within_seqp)

lemma preserves_if [preserves_intros]:
  "(b \<Longrightarrow> preserves f m) \<Longrightarrow> (\<not> b \<Longrightarrow> preserves f k) \<Longrightarrow> preserves f (if b then m else k)"
  by simp

lemma preserves_case_option [preserves_intros]:
  "preserves f m \<Longrightarrow> (\<And>x. preserves f (k x)) \<Longrightarrow>
     preserves f (case y of None \<Rightarrow> m | Some x \<Rightarrow> k x)"
  by (simp split: option.split)

lemma preserves_case_prod [preserves_intros]:
  "(\<And>a b. preserves f (k a b)) \<Longrightarrow> preserves f (case y of (a, b) \<Rightarrow> k a b)"
  by (simp split: prod.split)

lemma preserves_Let [preserves_intros]:
  "(\<And>x. preserves f (k x)) \<Longrightarrow> preserves f (let x = y in k x)"
  by simp

lemma list_all2_member: "list_all2 R xs ys \<Longrightarrow> x \<in> set xs \<Longrightarrow> \<exists>y\<in>set ys. R x y"
  by (induction rule: list_all2_induct) auto

section \<open>Invariants of step relations\<close>

text \<open>
  A component with a step relation keeps a property in every state it can reach when its
  starting states have the property and each step keeps it.
\<close>

locale invariant_system =
  fixes start :: "'s \<Rightarrow> bool" and step :: "'s \<Rightarrow> 's \<Rightarrow> bool" and inv :: "'s \<Rightarrow> bool"
  assumes inv_start: "start s \<Longrightarrow> inv s"
    and inv_step: "inv s \<Longrightarrow> step s t \<Longrightarrow> inv t"
begin

lemma inv_steps: "step\<^sup>*\<^sup>* s t \<Longrightarrow> inv s \<Longrightarrow> inv t"
  by (induction rule: rtranclp_induct) (auto intro: inv_step)

lemma inv_reachable: "start s \<Longrightarrow> step\<^sup>*\<^sup>* s t \<Longrightarrow> inv t"
  by (blast intro: inv_start inv_steps)

end

section \<open>Bytes in memory\<close>

text \<open>
  The server runs on a little-endian machine: it reads and writes structs through
  \<open>memcpy\<close>-like casts, so a number in memory is the list of its bytes, lowest first.
\<close>

fun le_bytes :: "nat \<Rightarrow> nat \<Rightarrow> u8 list" where
  "le_bytes 0 x = []"
| "le_bytes (Suc n) x = of_nat x # le_bytes n (x div 256)"

fun le_value :: "u8 list \<Rightarrow> nat" where
  "le_value [] = 0"
| "le_value (b # bs) = unat b + 256 * le_value bs"

lemma length_le_bytes [simp]: "length (le_bytes n x) = n"
  by (induction n arbitrary: x) auto

lemma unat_bound: "unat (w :: 'w::len word) < 2 ^ LENGTH('w)"
  by (rule unsigned_less)

lemma unat_u8_bound [simp]: "unat (b :: u8) < 256"
  using unat_bound [of b] by simp

lemma unat_of_nat_u8: "unat (of_nat x :: u8) = x mod 256"
  by (simp add: unat_of_nat)

lemma le_value_le_bytes [simp]: "le_value (le_bytes n x) = x mod 256 ^ n"
proof (induction n arbitrary: x)
  case 0
  then show ?case by simp
next
  case (Suc n)
  have "x mod (256 * 256 ^ n) = x mod 256 + 256 * (x div 256 mod 256 ^ n)"
    by (simp add: mod_mult2_eq)
  with Suc show ?case by (simp add: unat_of_nat_u8)
qed

lemma le_bytes_le_value: "length bs = n \<Longrightarrow> le_bytes n (le_value bs) = bs"
proof (induction bs arbitrary: n)
  case Nil
  then show ?case by simp
next
  case (Cons b bs)
  have "(of_nat (unat b + 256 * le_value bs) :: u8) = b"
    unfolding word_unat_eq_iff unat_of_nat by simp
  moreover have "(unat b + 256 * le_value bs) div 256 = le_value bs"
    by (simp add: div_add1_eq)
  ultimately show ?case using Cons by (cases n) auto
qed

lemma le_value_bound: "le_value bs < 256 ^ length bs"
proof (induction bs)
  case Nil
  then show ?case by simp
next
  case (Cons b bs)
  have "unat b < 256" by simp
  moreover have "256 * (le_value bs + 1) \<le> 256 * 256 ^ length bs"
    using Cons by (intro mult_le_mono2) simp
  ultimately show ?case by (simp del: unat_u8_bound)
qed

text \<open>
  Types stored in a fixed number of bytes share one interface: an encoding of constant
  width and a decoding that are inverse to each other in both directions.
\<close>

locale fixed_codec =
  fixes enc :: "'a \<Rightarrow> u8 list" and dec :: "u8 list \<Rightarrow> 'a" and width :: nat
  assumes length_enc: "length (enc x) = width"
    and dec_enc: "dec (enc x) = x"
    and enc_dec: "length bs = width \<Longrightarrow> enc (dec bs) = bs"
begin

lemma enc_inject: "enc x = enc y \<longleftrightarrow> x = y"
  by (metis dec_enc)

lemma dec_inject: "length bs = width \<Longrightarrow> length cs = width \<Longrightarrow> dec bs = dec cs \<longleftrightarrow> bs = cs"
  by (metis enc_dec)

lemma take_enc [simp]: "take width (enc x @ rest) = enc x"
  by (simp add: length_enc)

lemma drop_enc [simp]: "drop width (enc x @ rest) = rest"
  by (simp add: length_enc)

lemma dec_prefix: "dec (take width (enc x @ rest)) = x"
  by (simp only: take_enc dec_enc)

end

definition le_of_word :: "'w::len word \<Rightarrow> u8 list" where
  "le_of_word w = le_bytes (LENGTH('w) div 8) (unat w)"

definition word_of_le :: "u8 list \<Rightarrow> 'w::len word" where
  "word_of_le bs = of_nat (le_value bs)"

interpretation le16: fixed_codec "le_of_word :: u16 \<Rightarrow> u8 list" word_of_le 2
proof
  fix w :: u16
  show "length (le_of_word w) = 2" by (simp add: le_of_word_def)
  show "word_of_le (le_of_word w) = w"
    using unat_bound [of w] by (simp add: le_of_word_def word_of_le_def)
next
  fix bs :: "u8 list"
  assume "length bs = 2"
  then show "le_of_word (word_of_le bs :: u16) = bs"
    using le_value_bound[of bs]
    by (simp add: le_of_word_def word_of_le_def unat_of_nat le_bytes_le_value)
qed

interpretation le32: fixed_codec "le_of_word :: u32 \<Rightarrow> u8 list" word_of_le 4
proof
  fix w :: u32
  show "length (le_of_word w) = 4" by (simp add: le_of_word_def)
  show "word_of_le (le_of_word w) = w"
    using unat_bound [of w] by (simp add: le_of_word_def word_of_le_def)
next
  fix bs :: "u8 list"
  assume "length bs = 4"
  then show "le_of_word (word_of_le bs :: u32) = bs"
    using le_value_bound[of bs]
    by (simp add: le_of_word_def word_of_le_def unat_of_nat le_bytes_le_value)
qed

interpretation le64: fixed_codec "le_of_word :: u64 \<Rightarrow> u8 list" word_of_le 8
proof
  fix w :: u64
  show "length (le_of_word w) = 8" by (simp add: le_of_word_def)
  show "word_of_le (le_of_word w) = w"
    using unat_bound [of w] by (simp add: le_of_word_def word_of_le_def)
next
  fix bs :: "u8 list"
  assume "length bs = 8"
  then show "le_of_word (word_of_le bs :: u64) = bs"
    using le_value_bound[of bs]
    by (simp add: le_of_word_def word_of_le_def unat_of_nat le_bytes_le_value)
qed

text \<open>Characters of a C string and the bytes that carry them.\<close>

definition byte_char :: "u8 \<Rightarrow> char" where
  "byte_char b = char_of (unat b)"

definition char_byte :: "char \<Rightarrow> u8" where
  "char_byte c = of_nat (of_char c)"

lemma byte_char_char_byte [simp]: "byte_char (char_byte c) = c"
proof -
  have "(of_char c :: nat) < 256" by simp
  then show ?thesis by (simp add: byte_char_def char_byte_def unat_of_nat)
qed

lemma char_byte_byte_char [simp]: "char_byte (byte_char b) = b"
proof -
  have "unat b < 256" by simp
  then show ?thesis by (simp add: byte_char_def char_byte_def)
qed

text \<open>A read into a buffer replaces the buffer's first bytes by those that arrived.\<close>

definition overwrite :: "u8 list \<Rightarrow> u8 list \<Rightarrow> u8 list" where
  "overwrite buf bs = bs @ drop (length bs) buf"

lemma overwrite_full: "length bs = length buf \<Longrightarrow> overwrite buf bs = bs"
  by (simp add: overwrite_def)

lemma overwrite_Nil [simp]: "overwrite buf [] = buf"
  by (simp add: overwrite_def)

lemma length_overwrite [simp]: "length bs \<le> length buf \<Longrightarrow> length (overwrite buf bs) = length buf"
  by (simp add: overwrite_def)

end
