(* ===== verification/Machine.thy ===== *)
theory Machine
  imports Shepoo_Prelude
begin

text \<open>
  The part of the C++ runtime and of POSIX a server process uses: memory that is allocated
  and not initialised, and files behind file descriptors. The functions follow the manual
  pages of the calls the source makes (\<open>open\<close>, \<open>lseek64\<close>, \<open>lockf\<close>, \<open>read\<close>, \<open>close\<close>,
  \<open>stat\<close>) as far as the source uses them: plain files, no signals, no other process that
  writes the file at the same time.
\<close>

record descriptor =
  d_path :: string
  d_pos :: nat
  d_writable :: bool

text \<open>
  \<open>indet k i\<close> is byte number \<open>i\<close> of the \<open>k\<close>-th block of memory the process obtains:
  what an uninitialised object holds is fixed by the environment, not by the program.
  \<open>can_alloc\<close> says which sizes operator \<open>new\<close> can serve; it throws \<open>std::bad_alloc\<close>
  for the others. \<open>string_limit\<close> is the length up to which a \<open>std::string\<close> can grow: appending to
  a longer one throws \<open>std::length_error\<close>, beyond \<open>max_size\<close>, or \<open>std::bad_alloc\<close> before, when the
  memory is used up. \<open>file_locks\<close> are the byte ranges this process has locked.
\<close>

record machine =
  brk :: nat
  indet :: "nat \<Rightarrow> nat \<Rightarrow> u8"
  can_alloc :: "nat \<Rightarrow> bool"
  string_limit :: nat
  files :: "string \<rightharpoonup> u8 list"
  fds :: "int \<rightharpoonup> descriptor"
  fd_limit :: nat
  file_locks :: "(string \<times> nat \<times> nat) list"

section \<open>Memory\<close>

definition junk :: "('z machine_scheme) \<Rightarrow> nat \<Rightarrow> u8 list" where
  "junk m n = map (indet m (brk m)) [0..<n]"

lemma length_junk [simp]: "length (junk m n) = n"
  by (simp add: junk_def)

text \<open>An automatic variable of \<open>n\<close> bytes without an initialiser.\<close>

definition local_bytes :: "nat \<Rightarrow> (u8 list, 'z machine_scheme) prog" where
  "local_bytes n = (\<lambda>m. Some (Ret (junk m n), m\<lparr>brk := Suc (brk m)\<rparr>))"

text \<open>The expression \<open>new uint8_t[n]\<close>.\<close>

definition new_bytes :: "nat \<Rightarrow> (u8 list, 'z machine_scheme) prog" where
  "new_bytes n = (\<lambda>m. if can_alloc m n then local_bytes n m else Some (Uncaught, m))"

lemma local_bytes_run [prog_simps]:
  "local_bytes n m = Some (Ret (junk m n), m\<lparr>brk := Suc (brk m)\<rparr>)"
  by (simp add: local_bytes_def)

lemma new_bytes_run [prog_simps]:
  "can_alloc m n \<Longrightarrow> new_bytes n m = Some (Ret (junk m n), m\<lparr>brk := Suc (brk m)\<rparr>)"
  "\<not> can_alloc m n \<Longrightarrow> new_bytes n m = Some (Uncaught, m)"
  by (simp_all add: new_bytes_def local_bytes_def)

section \<open>Files\<close>

text \<open>POSIX: \<open>open\<close> returns the lowest descriptor that is not in use.\<close>

function free_fd :: "(int \<rightharpoonup> descriptor) \<Rightarrow> nat \<Rightarrow> nat \<Rightarrow> int" where
  "free_fd t n limit =
     (if n < limit then if t (int n) = None then int n else free_fd t (Suc n) limit else -1)"
  by pat_completeness auto
termination
  by (relation "measure (\<lambda>(t, n, limit). limit - n)") auto

declare free_fd.simps [simp del]

text \<open>\<open>open(path, O_LARGEFILE)\<close>: the access mode is \<open>O_RDONLY\<close>, whose value is 0.\<close>

definition posix_open_rdonly :: "string \<Rightarrow> (int, 'z machine_scheme) prog" where
  "posix_open_rdonly path = (\<lambda>m.
     case files m path of
       None \<Rightarrow> Some (Ret (-1), m)
     | Some _ \<Rightarrow>
         (let fd = free_fd (fds m) 0 (fd_limit m)
          in if fd = -1 then Some (Ret (-1), m)
             else Some (Ret fd,
               m\<lparr>fds := (fds m)(fd \<mapsto> \<lparr>d_path = path, d_pos = 0, d_writable = False\<rparr>)\<rparr>)))"

text \<open>
  \<open>open(path, O_WRONLY | O_CREAT | O_TRUNC)\<close>, what \<open>std::ofstream\<close> does: the file is there afterwards,
  and empty. \<open>permitted\<close> says whether the directory and the file allow this.
\<close>

definition posix_open_trunc :: "bool \<Rightarrow> string \<Rightarrow> (int, 'z machine_scheme) prog" where
  "posix_open_trunc permitted path = (\<lambda>m.
     let fd = free_fd (fds m) 0 (fd_limit m)
     in if \<not> permitted \<or> fd = -1 then Some (Ret (-1), m)
        else Some (Ret fd, m\<lparr>files := (files m)(path \<mapsto> []),
          fds := (fds m)(fd \<mapsto> \<lparr>d_path = path, d_pos = 0, d_writable = True\<rparr>)\<rparr>))"

text \<open>
  \<open>write\<close> puts bytes into the file at the position of the descriptor; the gap behind the end of a
  shorter file reads as zeros. A terminal or a pipe is a path that is not in \<open>files\<close>.
\<close>

definition write_at :: "nat \<Rightarrow> u8 list \<Rightarrow> u8 list \<Rightarrow> u8 list" where
  "write_at pos bs content =
     take pos content @ replicate (pos - length content) 0 @ bs @ drop (pos + length bs) content"

definition posix_write :: "int \<Rightarrow> u8 list \<Rightarrow> 'z machine_scheme \<Rightarrow> 'z machine_scheme" where
  "posix_write fd bs m =
     (case fds m fd of
        None \<Rightarrow> m
      | Some d \<Rightarrow>
          (case files m (d_path d) of
             None \<Rightarrow> m
           | Some content \<Rightarrow>
               if d_writable d
               then m\<lparr>files := (files m)(d_path d \<mapsto> write_at (d_pos d) bs content),
                      fds := (fds m)(fd \<mapsto> d\<lparr>d_pos := d_pos d + length bs\<rparr>)\<rparr>
               else m))"

text \<open>\<open>lseek64(fd, off, SEEK_SET)\<close>: a negative offset is refused and changes nothing.\<close>

definition posix_lseek :: "int \<Rightarrow> int \<Rightarrow> (unit, 'z machine_scheme) prog" where
  "posix_lseek fd off = (\<lambda>m.
     case fds m fd of
       None \<Rightarrow> Some (Ret (), m)
     | Some d \<Rightarrow>
         if off < 0 then Some (Ret (), m)
         else Some (Ret (), m\<lparr>fds := (fds m)(fd \<mapsto> d\<lparr>d_pos := nat off\<rparr>)\<rparr>))"

text \<open>
  \<open>lockf\<close> locks or unlocks the bytes from the current position on; the manual page
  demands a descriptor that is open for writing, and the call fails otherwise.
\<close>

datatype lock_command = F_LOCK | F_ULOCK

definition posix_lockf :: "int \<Rightarrow> lock_command \<Rightarrow> nat \<Rightarrow> (unit, 'z machine_scheme) prog" where
  "posix_lockf fd cmd len = (\<lambda>m.
     case fds m fd of
       None \<Rightarrow> Some (Ret (), m)
     | Some d \<Rightarrow>
         (case cmd of
            F_LOCK \<Rightarrow>
              if d_writable d
              then Some (Ret (), m\<lparr>file_locks := (d_path d, d_pos d, len) # file_locks m\<rparr>)
              else Some (Ret (), m)
          | F_ULOCK \<Rightarrow>
              Some (Ret (), m\<lparr>file_locks := removeAll (d_path d, d_pos d, len) (file_locks m)\<rparr>)))"

definition posix_read :: "int \<Rightarrow> nat \<Rightarrow> (u8 list, 'z machine_scheme) prog" where
  "posix_read fd n = (\<lambda>m.
     case fds m fd of
       None \<Rightarrow> Some (Ret [], m)
     | Some d \<Rightarrow>
         (case files m (d_path d) of
            None \<Rightarrow> Some (Ret [], m)
          | Some content \<Rightarrow>
              (let bs = take n (drop (d_pos d) content)
               in Some (Ret bs, m\<lparr>fds := (fds m)(fd \<mapsto> d\<lparr>d_pos := d_pos d + length bs\<rparr>)\<rparr>))))"

definition posix_close :: "int \<Rightarrow> (unit, 'z machine_scheme) prog" where
  "posix_close fd = (\<lambda>m. Some (Ret (), m\<lparr>fds := (fds m)(fd := None)\<rparr>))"

text \<open>\<open>stat\<close> into a zeroed buffer: the size of the file, 0 when there is none.\<close>

definition posix_stat_size :: "string \<Rightarrow> (nat, 'z machine_scheme) prog" where
  "posix_stat_size path = getp (\<lambda>m. case files m path of None \<Rightarrow> 0 | Some content \<Rightarrow> length content)"

lemma free_fd_free:
  "free_fd t n limit \<noteq> -1 \<Longrightarrow> t (free_fd t n limit) = None"
proof (induction t n limit rule: free_fd.induct)
  case (1 t n limit)
  then show ?case by (auto simp: free_fd.simps [of t n limit] split: if_splits)
qed

lemma free_fd_nonneg: "free_fd t n limit \<noteq> -1 \<Longrightarrow> 0 \<le> free_fd t n limit"
proof (induction t n limit rule: free_fd.induct)
  case (1 t n limit)
  then show ?case by (auto simp: free_fd.simps [of t n limit] split: if_splits)
qed

text \<open>Only which descriptors are in use matters.\<close>

lemma free_fd_cong:
  assumes "\<And>fd. t fd = None \<longleftrightarrow> u fd = None"
  shows "free_fd t n limit = free_fd u n limit"
  using assms
proof (induction t n limit rule: free_fd.induct)
  case (1 t n limit)
  from "1.prems" have same: "t (int n) = None \<longleftrightarrow> u (int n) = None" .
  show ?case
  proof (cases "n < limit \<and> t (int n) \<noteq> None")
    case True
    with "1.IH" "1.prems" have "free_fd t (Suc n) limit = free_fd u (Suc n) limit" by blast
    with True same show ?thesis by (auto simp: free_fd.simps [of t n] free_fd.simps [of u n])
  next
    case False
    with same show ?thesis by (auto simp: free_fd.simps [of t n] free_fd.simps [of u n])
  qed
qed

lemma free_fd_first: "t (int n) = None \<Longrightarrow> n < limit \<Longrightarrow> free_fd t n limit = int n"
  by (simp add: free_fd.simps)

end
