(* ===== verification/Sigslot.thy ===== *)
theory Sigslot
  imports Machine
begin

text \<open>
  The signal/slot library \<open>include/sigslot.h\<close> in the single-threaded configuration the
  header selects (\<open>SIGSLOT_PURE_ISO\<close>), where \<open>lock_block\<close> does nothing. A signal owns a
  \<open>std::list\<close> of heap-allocated connections; a connection holds the destination object and
  a member function; an object that has slots holds the \<open>std::set\<close> of the signals that
  may call it. Signals, objects and connections are addresses; a pointer whose object is
  dead is not in the corresponding map, and using it is undefined behaviour.

  The operations are the same text for every number of arguments, so the payload of a
  signal does not appear in them: \<open>'f\<close> is the type of member functions, and the arguments
  are in the closure \<open>call\<close> that \<open>emit\<close> hands to each connection.
\<close>

section \<open>State\<close>

record 'f connection =
  m_pobject :: nat
  m_pmemfun :: 'f

record 'f world = machine +
  conn_heap :: "nat \<rightharpoonup> 'f connection"
  m_connected_slots :: "nat \<rightharpoonup> nat list"
  m_senders :: "nat \<rightharpoonup> nat list"

type_synonym ('a, 'f, 'z) sigprog = "('a, ('f, 'z) world_scheme) prog"

section \<open>Objects\<close>

text \<open>\<open>new\<close> for a small object: the next address.\<close>

definition fresh_address :: "(nat, 'f, 'z) sigprog" where
  "fresh_address = (\<lambda>w. Some (Ret (brk w), w\<lparr>brk := Suc (brk w)\<rparr>))"

definition new_connection :: "nat \<Rightarrow> 'f \<Rightarrow> (nat, 'f, 'z) sigprog" where
  "new_connection pobject pmemfun =
     bindp fresh_address (\<lambda>c.
     seqp (modifyp (\<lambda>w. w\<lparr>conn_heap := (conn_heap w)(c \<mapsto>
             \<lparr>m_pobject = pobject, m_pmemfun = pmemfun\<rparr>)\<rparr>))
     (returnp c))"

definition deref_connection :: "nat \<Rightarrow> ('f connection, 'f, 'z) sigprog" where
  "deref_connection c = (\<lambda>w. case conn_heap w c of
       None \<Rightarrow> Some (Undefined Dangling_pointer, w)
     | Some k \<Rightarrow> Some (Ret k, w))"

definition delete_connection :: "nat \<Rightarrow> (unit, 'f, 'z) sigprog" where
  "delete_connection c = (\<lambda>w. case conn_heap w c of
       None \<Rightarrow> Some (Undefined Dangling_pointer, w)
     | Some k \<Rightarrow> Some (Ret (), w\<lparr>conn_heap := (conn_heap w)(c := None)\<rparr>))"

text \<open>\<open>clone\<close> copies a connection, \<open>duplicate\<close> copies it for another object.\<close>

definition connection_clone :: "nat \<Rightarrow> (nat, 'f, 'z) sigprog" where
  "connection_clone c =
     bindp (deref_connection c) (\<lambda>k. new_connection (m_pobject k) (m_pmemfun k))"

definition connection_duplicate :: "nat \<Rightarrow> nat \<Rightarrow> (nat, 'f, 'z) sigprog" where
  "connection_duplicate c pnewdest =
     bindp (deref_connection c) (\<lambda>k. new_connection pnewdest (m_pmemfun k))"

definition connection_getdest :: "nat \<Rightarrow> (nat, 'f, 'z) sigprog" where
  "connection_getdest c = bindp (deref_connection c) (\<lambda>k. returnp (m_pobject k))"

text \<open>The list of a signal and the set of an object, for objects that are alive.\<close>

definition get_slots :: "nat \<Rightarrow> (nat list, 'f, 'z) sigprog" where
  "get_slots s = (\<lambda>w. case m_connected_slots w s of
       None \<Rightarrow> Some (Undefined Dangling_pointer, w)
     | Some cs \<Rightarrow> Some (Ret cs, w))"

definition set_slots :: "nat \<Rightarrow> nat list \<Rightarrow> (unit, 'f, 'z) sigprog" where
  "set_slots s cs = modifyp (\<lambda>w. w\<lparr>m_connected_slots := (m_connected_slots w)(s \<mapsto> cs)\<rparr>)"

definition get_senders :: "nat \<Rightarrow> (nat list, 'f, 'z) sigprog" where
  "get_senders ob = (\<lambda>w. case m_senders w ob of
       None \<Rightarrow> Some (Undefined Dangling_pointer, w)
     | Some ss \<Rightarrow> Some (Ret ss, w))"

definition set_senders :: "nat \<Rightarrow> nat list \<Rightarrow> (unit, 'f, 'z) sigprog" where
  "set_senders ob ss = modifyp (\<lambda>w. w\<lparr>m_senders := (m_senders w)(ob \<mapsto> ss)\<rparr>)"

definition push_back :: "nat \<Rightarrow> nat \<Rightarrow> (unit, 'f, 'z) sigprog" where
  "push_back s c = bindp (get_slots s) (\<lambda>cs. set_slots s (cs @ [c]))"

definition erase_node :: "nat \<Rightarrow> nat \<Rightarrow> (unit, 'f, 'z) sigprog" where
  "erase_node s c = bindp (get_slots s) (\<lambda>cs. set_slots s (remove1 c cs))"

section \<open>Objects with slots\<close>

definition has_slots_new :: "(nat, 'f, 'z) sigprog" where
  "has_slots_new = bindp fresh_address (\<lambda>ob. seqp (set_senders ob []) (returnp ob))"

text \<open>A \<open>std::set\<close> of pointers is kept as the increasing list of its addresses.\<close>

definition has_slots_signal_connect :: "nat \<Rightarrow> nat \<Rightarrow> (unit, 'f, 'z) sigprog" where
  "has_slots_signal_connect ob sender =
     bindp (get_senders ob) (\<lambda>ss. set_senders ob (insort_insert sender ss))"

definition has_slots_signal_disconnect :: "nat \<Rightarrow> nat \<Rightarrow> (unit, 'f, 'z) sigprog" where
  "has_slots_signal_disconnect ob sender =
     bindp (get_senders ob) (\<lambda>ss. set_senders ob (removeAll sender ss))"

section \<open>Signals\<close>

definition signal_new :: "(nat, 'f, 'z) sigprog" where
  "signal_new = bindp fresh_address (\<lambda>s. seqp (set_slots s []) (returnp s))"

definition signal_connect :: "nat \<Rightarrow> nat \<Rightarrow> 'f \<Rightarrow> (unit, 'f, 'z) sigprog" where
  "signal_connect s pclass pmemfun =
     bindp (new_connection pclass pmemfun) (\<lambda>conn.
     seqp (push_back s conn)
     (has_slots_signal_connect pclass s))"

fun disconnect_all_loop :: "nat \<Rightarrow> nat list \<Rightarrow> (unit, 'f, 'z) sigprog" where
  "disconnect_all_loop s [] = returnp ()"
| "disconnect_all_loop s (c # cs) =
     bindp (connection_getdest c) (\<lambda>dest.
     seqp (has_slots_signal_disconnect dest s)
     (seqp (delete_connection c)
     (disconnect_all_loop s cs)))"

definition signal_disconnect_all :: "nat \<Rightarrow> (unit, 'f, 'z) sigprog" where
  "signal_disconnect_all s =
     bindp (get_slots s) (\<lambda>cs. seqp (disconnect_all_loop s cs) (set_slots s []))"

text \<open>The destructor empties the signal, then its lifetime ends.\<close>

definition signal_destroy :: "nat \<Rightarrow> (unit, 'f, 'z) sigprog" where
  "signal_destroy s =
     seqp (signal_disconnect_all s)
     (modifyp (\<lambda>w. w\<lparr>m_connected_slots := (m_connected_slots w)(s := None)\<rparr>))"

fun disconnect_loop :: "nat \<Rightarrow> nat \<Rightarrow> nat list \<Rightarrow> (unit, 'f, 'z) sigprog" where
  "disconnect_loop s pclass [] = returnp ()"
| "disconnect_loop s pclass (c # cs) =
     bindp (connection_getdest c) (\<lambda>dest.
     if dest = pclass
     then seqp (delete_connection c)
         (seqp (erase_node s c)
         (has_slots_signal_disconnect pclass s))
     else disconnect_loop s pclass cs)"

definition signal_disconnect :: "nat \<Rightarrow> nat \<Rightarrow> (unit, 'f, 'z) sigprog" where
  "signal_disconnect s pclass = bindp (get_slots s) (disconnect_loop s pclass)"

text \<open>
  The loop of \<open>slot_disconnect\<close> takes the next iterator before it erases a node, so it
  visits the nodes the list had at the start.
\<close>

fun slot_disconnect_loop :: "nat \<Rightarrow> nat \<Rightarrow> nat list \<Rightarrow> (unit, 'f, 'z) sigprog" where
  "slot_disconnect_loop s pslot [] = returnp ()"
| "slot_disconnect_loop s pslot (c # cs) =
     bindp (connection_getdest c) (\<lambda>dest.
     if dest = pslot
     then seqp (delete_connection c)
         (seqp (erase_node s c)
         (slot_disconnect_loop s pslot cs))
     else slot_disconnect_loop s pslot cs)"

definition signal_slot_disconnect :: "nat \<Rightarrow> nat \<Rightarrow> (unit, 'f, 'z) sigprog" where
  "signal_slot_disconnect s pslot = bindp (get_slots s) (slot_disconnect_loop s pslot)"

text \<open>
  Iterators of a \<open>std::list\<close>: a node, or \<open>None\<close> for \<open>end()\<close>. \<open>++it\<close> follows the link
  of the list as it is when the iterator is advanced.
\<close>

definition list_begin :: "nat list \<Rightarrow> nat option" where
  "list_begin cs = (case cs of [] \<Rightarrow> None | c # _ \<Rightarrow> Some c)"

fun list_next :: "nat list \<Rightarrow> nat \<Rightarrow> nat option" where
  "list_next [] c = None"
| "list_next (x # xs) c = (if x = c then list_begin xs else list_next xs c)"

lemma list_begin_simps [simp]: "list_begin [] = None" "list_begin (c # cs) = Some c"
  by (simp_all add: list_begin_def)

text \<open>
  \<open>slot_duplicate\<close> appends to the list it is walking over, so the nodes it appends are
  visited as well; were \<open>newtarget\<close> the old target, it would not end.
\<close>

partial_function (option) slot_duplicate_loop ::
  "nat \<Rightarrow> nat \<Rightarrow> nat \<Rightarrow> nat option \<Rightarrow> (unit, 'f, 'z) sigprog" where
  "slot_duplicate_loop s oldtarget newtarget it w =
     (case it of
        None \<Rightarrow> Some (Ret (), w)
      | Some c \<Rightarrow>
          (case bindp (connection_getdest c) (\<lambda>dest.
                  if dest = oldtarget
                  then bindp (connection_duplicate c newtarget) (push_back s)
                  else returnp ()) w of
             None \<Rightarrow> None
           | Some (Ret u, w') \<Rightarrow>
               (case m_connected_slots w' s of
                  None \<Rightarrow> Some (Undefined Dangling_pointer, w')
                | Some cs \<Rightarrow> slot_duplicate_loop s oldtarget newtarget (list_next cs c) w')
           | Some (Exit n, w') \<Rightarrow> Some (Exit n, w')
           | Some (Uncaught, w') \<Rightarrow> Some (Uncaught, w')
           | Some (Undefined u, w') \<Rightarrow> Some (Undefined u, w')))"

definition signal_slot_duplicate :: "nat \<Rightarrow> nat \<Rightarrow> nat \<Rightarrow> (unit, 'f, 'z) sigprog" where
  "signal_slot_duplicate s oldtarget newtarget =
     bindp (get_slots s) (\<lambda>cs. slot_duplicate_loop s oldtarget newtarget (list_begin cs))"

text \<open>The copy constructor of a signal: every connection is cloned for the new signal.\<close>

fun signal_copy_loop :: "nat \<Rightarrow> nat list \<Rightarrow> (unit, 'f, 'z) sigprog" where
  "signal_copy_loop this [] = returnp ()"
| "signal_copy_loop this (c # cs) =
     bindp (connection_getdest c) (\<lambda>dest.
     seqp (has_slots_signal_connect dest this)
     (bindp (connection_clone c) (\<lambda>c'.
     seqp (push_back this c')
     (signal_copy_loop this cs))))"

definition signal_copy :: "nat \<Rightarrow> (nat, 'f, 'z) sigprog" where
  "signal_copy s =
     bindp signal_new (\<lambda>this.
     bindp (get_slots s) (\<lambda>cs.
     seqp (signal_copy_loop this cs)
     (returnp this)))"

section \<open>Objects with slots: copies and destruction\<close>

fun has_slots_copy_loop :: "nat \<Rightarrow> nat \<Rightarrow> nat list \<Rightarrow> (unit, 'f, 'z) sigprog" where
  "has_slots_copy_loop hs this [] = returnp ()"
| "has_slots_copy_loop hs this (s # ss) =
     seqp (signal_slot_duplicate s hs this)
     (bindp (get_senders this) (\<lambda>senders.
     seqp (set_senders this (insort_insert s senders))
     (has_slots_copy_loop hs this ss)))"

definition has_slots_copy :: "nat \<Rightarrow> (nat, 'f, 'z) sigprog" where
  "has_slots_copy hs =
     bindp has_slots_new (\<lambda>this.
     bindp (get_senders hs) (\<lambda>ss.
     seqp (has_slots_copy_loop hs this ss)
     (returnp this)))"

fun has_slots_disconnect_loop :: "nat \<Rightarrow> nat list \<Rightarrow> (unit, 'f, 'z) sigprog" where
  "has_slots_disconnect_loop this [] = returnp ()"
| "has_slots_disconnect_loop this (s # ss) =
     seqp (signal_slot_disconnect s this) (has_slots_disconnect_loop this ss)"

definition has_slots_disconnect_all :: "nat \<Rightarrow> (unit, 'f, 'z) sigprog" where
  "has_slots_disconnect_all this =
     bindp (get_senders this) (\<lambda>ss.
     seqp (has_slots_disconnect_loop this ss)
     (set_senders this []))"

definition has_slots_destroy :: "nat \<Rightarrow> (unit, 'f, 'z) sigprog" where
  "has_slots_destroy this =
     seqp (has_slots_disconnect_all this)
     (modifyp (\<lambda>w. w\<lparr>m_senders := (m_senders w)(this := None)\<rparr>))"

section \<open>Emission\<close>

text \<open>
  \<open>connection_emit\<close> is the virtual \<open>emit\<close> of a connection: it calls the member function
  on the destination object, which must be alive. \<open>emit_loop\<close> is the loop of
  \<open>signal::emit\<close>: the next iterator is taken before the slot runs, because the slot may
  disconnect itself, and it must still denote a node of the list (or the end) when the
  loop comes to it.
\<close>

definition connection_emit ::
  "('f connection \<Rightarrow> (unit, 'f, 'z) sigprog) \<Rightarrow> nat \<Rightarrow> (unit, 'f, 'z) sigprog" where
  "connection_emit call c =
     bindp (deref_connection c) (\<lambda>k.
     bindp (get_senders (m_pobject k)) (\<lambda>_. call k))"

partial_function (option) emit_loop ::
  "('f connection \<Rightarrow> (unit, 'f, 'z) sigprog) \<Rightarrow> nat \<Rightarrow> nat option \<Rightarrow> (unit, 'f, 'z) sigprog" where
  "emit_loop call s it w =
     (case it of
        None \<Rightarrow> Some (Ret (), w)
      | Some c \<Rightarrow>
          (case m_connected_slots w s of
             None \<Rightarrow> Some (Undefined Dangling_pointer, w)
           | Some cs \<Rightarrow>
               if c \<notin> set cs then Some (Undefined Dangling_pointer, w)
               else (let itNext = list_next cs c in
                 (case connection_emit call c w of
                    None \<Rightarrow> None
                  | Some (Ret u, w') \<Rightarrow> emit_loop call s itNext w'
                  | Some (Exit n, w') \<Rightarrow> Some (Exit n, w')
                  | Some (Uncaught, w') \<Rightarrow> Some (Uncaught, w')
                  | Some (Undefined u, w') \<Rightarrow> Some (Undefined u, w')))))"

definition signal_emit ::
  "('f connection \<Rightarrow> (unit, 'f, 'z) sigprog) \<Rightarrow> nat \<Rightarrow> (unit, 'f, 'z) sigprog" where
  "signal_emit call s = bindp (get_slots s) (\<lambda>cs. emit_loop call s (list_begin cs))"

end
