(* ===== verification/Sigslot_Links.thy ===== *)
theory Sigslot_Links
  imports Sigslot
begin

text \<open>
  The links between signals and objects: what each operation of the signal/slot library
  does to a world whose objects are alive, and the invariant that keeps every connection
  safe to call. A connection is always in the list of exactly one signal, its destination
  is alive, and the destination's set of senders names exactly the signals connected to it.
\<close>

section \<open>The invariant\<close>

text \<open>\<open>slot_of w s c\<close>: connection \<open>c\<close> is in the list of signal \<open>s\<close>.\<close>

definition slot_of :: "('f, 'z) world_scheme \<Rightarrow> nat \<Rightarrow> nat \<Rightarrow> bool" where
  "slot_of w s c = (case m_connected_slots w s of None \<Rightarrow> False | Some cs \<Rightarrow> c \<in> set cs)"

definition dest_of :: "('f, 'z) world_scheme \<Rightarrow> nat \<Rightarrow> nat option" where
  "dest_of w c = map_option m_pobject (conn_heap w c)"

definition connected :: "('f, 'z) world_scheme \<Rightarrow> nat \<Rightarrow> nat \<Rightarrow> bool" where
  "connected w s ob \<longleftrightarrow> (\<exists>c. slot_of w s c \<and> dest_of w c = Some ob)"

definition slots_allocated :: "('f, 'z) world_scheme \<Rightarrow> bool" where
  "slots_allocated w \<longleftrightarrow>
     (\<forall>s cs. m_connected_slots w s = Some cs \<longrightarrow> distinct cs) \<and>
     (\<forall>s c. slot_of w s c \<longrightarrow> dest_of w c \<noteq> None)"

definition slots_disjoint :: "('f, 'z) world_scheme \<Rightarrow> bool" where
  "slots_disjoint w \<longleftrightarrow> (\<forall>s t c. slot_of w s c \<longrightarrow> slot_of w t c \<longrightarrow> s = t)"

definition no_leaks :: "('f, 'z) world_scheme \<Rightarrow> bool" where
  "no_leaks w \<longleftrightarrow>
     (\<forall>c. dest_of w c \<noteq> None \<longrightarrow> c < brk w \<and> (\<exists>s. slot_of w s c))"

definition links_agree :: "('f, 'z) world_scheme \<Rightarrow> bool" where
  "links_agree w \<longleftrightarrow>
     (\<forall>ob ss. m_senders w ob = Some ss \<longrightarrow>
        sorted ss \<and> distinct ss \<and> (\<forall>s. s \<in> set ss \<longleftrightarrow> connected w s ob)) \<and>
     (\<forall>s ob. connected w s ob \<longrightarrow> m_senders w ob \<noteq> None)"

definition addresses_used :: "('f, 'z) world_scheme \<Rightarrow> bool" where
  "addresses_used w \<longleftrightarrow>
     (\<forall>s cs. m_connected_slots w s = Some cs \<longrightarrow> s < brk w) \<and>
     (\<forall>ob ss. m_senders w ob = Some ss \<longrightarrow> ob < brk w)"

definition consistent :: "('f, 'z) world_scheme \<Rightarrow> bool" where
  "consistent w \<longleftrightarrow> slots_allocated w \<and> slots_disjoint w \<and> no_leaks w
     \<and> links_agree w \<and> addresses_used w"

lemmas consistent_defs =
  consistent_def slots_allocated_def slots_disjoint_def no_leaks_def links_agree_def
  addresses_used_def

lemma consistent_senders_iff:
  "consistent w \<Longrightarrow> m_senders w ob = Some ss \<Longrightarrow> s \<in> set ss \<longleftrightarrow> connected w s ob"
  unfolding consistent_def links_agree_def by blast

lemma consistent_dest_alive:
  "consistent w \<Longrightarrow> connected w s ob \<Longrightarrow> \<exists>ss. m_senders w ob = Some ss"
  unfolding consistent_def links_agree_def by blast

lemma connected_alive:
  "consistent w \<Longrightarrow> connected w s ob \<Longrightarrow>
     \<exists>ss. m_senders w ob = Some ss \<and> s \<in> set ss"
  using consistent_dest_alive consistent_senders_iff by blast

lemma slot_of_iff: "slot_of w s c \<longleftrightarrow> (\<exists>cs. m_connected_slots w s = Some cs \<and> c \<in> set cs)"
  by (simp add: slot_of_def split: option.split)

lemma dest_of_iff: "dest_of w c = Some ob \<longleftrightarrow> (\<exists>k. conn_heap w c = Some k \<and> m_pobject k = ob)"
  by (auto simp: dest_of_def)

lemma consistent_slotD:
  assumes "consistent w" and "m_connected_slots w s = Some cs" and "c \<in> set cs"
  shows "\<exists>k ss. conn_heap w c = Some k \<and> m_senders w (m_pobject k) = Some ss \<and> s \<in> set ss"
proof -
  from assms(2,3) have slot: "slot_of w s c" by (simp add: slot_of_def)
  with assms(1) obtain ob where ob: "dest_of w c = Some ob"
    unfolding consistent_def slots_allocated_def by blast
  with slot have "connected w s ob" by (auto simp: connected_def)
  from connected_alive [OF assms(1) this] ob show ?thesis by (auto simp: dest_of_iff)
qed

lemma consistent_distinct:
  "consistent w \<Longrightarrow> m_connected_slots w s = Some cs \<Longrightarrow> distinct cs"
  unfolding consistent_def slots_allocated_def by blast

section \<open>Running the elementary operations\<close>

lemmas elementary_defs =
  fresh_address_def new_connection_def deref_connection_def delete_connection_def
  connection_clone_def connection_duplicate_def connection_getdest_def
  get_slots_def set_slots_def get_senders_def set_senders_def push_back_def erase_node_def
  has_slots_signal_connect_def has_slots_signal_disconnect_def

lemma connection_getdest_run [prog_simps]:
  "conn_heap w c = Some k \<Longrightarrow> connection_getdest c w = Some (Ret (m_pobject k), w)"
  by (simp add: elementary_defs prog_simps)

lemma get_slots_run [prog_simps]:
  "m_connected_slots w s = Some cs \<Longrightarrow> get_slots s w = Some (Ret cs, w)"
  by (simp add: elementary_defs)

lemma get_senders_run [prog_simps]:
  "m_senders w ob = Some ss \<Longrightarrow> get_senders ob w = Some (Ret ss, w)"
  by (simp add: elementary_defs)

lemma delete_connection_run [prog_simps]:
  "conn_heap w c = Some k \<Longrightarrow>
     delete_connection c w = Some (Ret (), w\<lparr>conn_heap := (conn_heap w)(c := None)\<rparr>)"
  by (simp add: elementary_defs)

lemma erase_node_run [prog_simps]:
  "m_connected_slots w s = Some cs \<Longrightarrow>
     erase_node s c w = Some (Ret (),
       w\<lparr>m_connected_slots := (m_connected_slots w)(s \<mapsto> remove1 c cs)\<rparr>)"
  by (simp add: elementary_defs prog_simps)

lemma push_back_run [prog_simps]:
  "m_connected_slots w s = Some cs \<Longrightarrow>
     push_back s c w = Some (Ret (),
       w\<lparr>m_connected_slots := (m_connected_slots w)(s \<mapsto> cs @ [c])\<rparr>)"
  by (simp add: elementary_defs prog_simps)

lemma new_connection_run [prog_simps]:
  "new_connection ob f w = Some (Ret (brk w),
     w\<lparr>brk := Suc (brk w),
       conn_heap := (conn_heap w)(brk w \<mapsto> \<lparr>m_pobject = ob, m_pmemfun = f\<rparr>)\<rparr>)"
  by (simp add: elementary_defs prog_simps)

lemma has_slots_signal_connect_run [prog_simps]:
  "m_senders w ob = Some ss \<Longrightarrow>
     has_slots_signal_connect ob s w = Some (Ret (),
       w\<lparr>m_senders := (m_senders w)(ob \<mapsto> insort_insert s ss)\<rparr>)"
  by (simp add: elementary_defs prog_simps)

lemma has_slots_signal_disconnect_run [prog_simps]:
  "m_senders w ob = Some ss \<Longrightarrow>
     has_slots_signal_disconnect ob s w = Some (Ret (),
       w\<lparr>m_senders := (m_senders w)(ob \<mapsto> removeAll s ss)\<rparr>)"
  by (simp add: elementary_defs prog_simps)

section \<open>connect\<close>

lemma signal_connect_run:
  assumes "m_connected_slots w s = Some cs" and "m_senders w ob = Some ss"
  shows "signal_connect s ob f w = Some (Ret (),
     w\<lparr>brk := Suc (brk w),
       conn_heap := (conn_heap w)(brk w \<mapsto> \<lparr>m_pobject = ob, m_pmemfun = f\<rparr>),
       m_connected_slots := (m_connected_slots w)(s \<mapsto> cs @ [brk w]),
       m_senders := (m_senders w)(ob \<mapsto> insort_insert s ss)\<rparr>)"
  using assms by (simp add: signal_connect_def prog_simps)

section \<open>disconnect_all of a signal\<close>

definition unlink_senders ::
  "(nat \<rightharpoonup> nat list) \<Rightarrow> nat \<Rightarrow> nat set \<Rightarrow> (nat \<rightharpoonup> nat list)" where
  "unlink_senders senders s obs =
     (\<lambda>ob. if ob \<in> obs then map_option (removeAll s) (senders ob) else senders ob)"

lemma disconnect_all_loop_run:
  assumes "distinct cs" and "\<forall>c\<in>set cs. \<exists>k. conn_heap w c = Some k \<and> m_senders w (m_pobject k) \<noteq> None"
  shows "disconnect_all_loop s cs w = Some (Ret (),
     w\<lparr>conn_heap := conn_heap w |` (- set cs),
       m_senders := unlink_senders (m_senders w) s {ob. \<exists>c\<in>set cs. dest_of w c = Some ob}\<rparr>)"
  using assms
proof (induction cs arbitrary: w)
  case Nil
  then show ?case by (simp add: unlink_senders_def)
next
  case (Cons c cs)
  from Cons.prems obtain k ss where k: "conn_heap w c = Some k" and ss: "m_senders w (m_pobject k) = Some ss"
    by auto
  let ?w = "w\<lparr>m_senders := (m_senders w)(m_pobject k \<mapsto> removeAll s ss), conn_heap := (conn_heap w)(c := None)\<rparr>"
  have "disconnect_all_loop s (c # cs) w = disconnect_all_loop s cs ?w"
    using k ss by (simp add: prog_simps)
  also have "\<dots> = Some (Ret (), ?w\<lparr>conn_heap := conn_heap ?w |` (- set cs),
       m_senders := unlink_senders (m_senders ?w) s {ob. \<exists>c\<in>set cs. dest_of ?w c = Some ob}\<rparr>)"
    using Cons.prems by (intro Cons.IH) auto
  also have "conn_heap ?w |` (- set cs) = conn_heap w |` (- set (c # cs))"
    by (auto simp: restrict_map_def)
  also have "unlink_senders (m_senders ?w) s {ob. \<exists>c\<in>set cs. dest_of ?w c = Some ob}
     = unlink_senders (m_senders w) s {ob. \<exists>c\<in>set (c # cs). dest_of w c = Some ob}"
    using Cons.prems(1) k ss by (auto simp: unlink_senders_def dest_of_def fun_eq_iff)
  finally show ?case by simp
qed

lemma signal_disconnect_all_run:
  assumes "consistent w" and "m_connected_slots w s = Some cs"
  shows "signal_disconnect_all s w = Some (Ret (),
     w\<lparr>conn_heap := conn_heap w |` (- set cs),
       m_senders := unlink_senders (m_senders w) s {ob. \<exists>c\<in>set cs. dest_of w c = Some ob},
       m_connected_slots := (m_connected_slots w)(s \<mapsto> [])\<rparr>)"
proof -
  have "\<forall>c\<in>set cs. \<exists>k. conn_heap w c = Some k \<and> m_senders w (m_pobject k) \<noteq> None"
    using consistent_slotD [OF assms] by fastforce
  then show ?thesis
    using assms consistent_distinct [OF assms]
    by (simp add: signal_disconnect_all_def prog_simps disconnect_all_loop_run set_slots_def)
qed


section \<open>Consistency after an operation\<close>

lemma fresh_not_used:
  assumes "consistent w"
  shows "dest_of w (brk w) = None" and "m_connected_slots w (brk w) = None" and "m_senders w (brk w) = None"
    and "brk w \<le> c \<Longrightarrow> \<not> slot_of w s c" and "\<not> slot_of w (brk w) c"
    and "\<not> connected w (brk w) ob" and "\<not> connected w s (brk w)"
proof -
  show h: "dest_of w (brk w) = None"
    using assms unfolding consistent_def no_leaks_def by (metis less_irrefl)
  show sl: "m_connected_slots w (brk w) = None" and se: "m_senders w (brk w) = None"
    using assms unfolding consistent_def addresses_used_def by (metis less_irrefl not_None_eq)+
  show "brk w \<le> c \<Longrightarrow> \<not> slot_of w s c"
    using assms unfolding consistent_def slots_allocated_def no_leaks_def by (metis leD)
  show "\<not> slot_of w (brk w) c" and "\<not> connected w (brk w) ob"
    using sl by (simp_all add: slot_of_def connected_def)
  show "\<not> connected w s (brk w)"
    using se consistent_dest_alive [OF assms, of s "brk w"] by auto
qed

lemma connected_addition:
  assumes "\<And>t c. slot_of w' t c \<longleftrightarrow> slot_of w t c \<or> (t = s \<and> c \<in> N)"
    and "\<And>c. dest_of w' c = (if c \<in> N then Some ob else dest_of w c)"
    and "\<And>t c. slot_of w t c \<Longrightarrow> c \<notin> N" and "N \<noteq> {}"
  shows "connected w' t p \<longleftrightarrow> connected w t p \<or> (t = s \<and> p = ob)"
  using assms(3,4) unfolding connected_def assms(1,2) by (auto split: if_splits)

text \<open>Adding the connections \<open>N\<close>, all from signal \<open>s\<close> to object \<open>ob\<close>.\<close>

lemma consistent_addition:
  assumes con: "consistent w" and ss: "m_senders w ob = Some ss" and s: "m_connected_slots w s \<noteq> None"
    and N: "N \<noteq> {}" "\<And>c. c \<in> N \<Longrightarrow> brk w \<le> c \<and> c < brk w'" and b: "brk w \<le> brk w'"
    and so: "\<And>t c. slot_of w' t c \<longleftrightarrow> slot_of w t c \<or> (t = s \<and> c \<in> N)"
    and de: "\<And>c. dest_of w' c = (if c \<in> N then Some ob else dest_of w c)"
    and di: "\<And>t cs. m_connected_slots w' t = Some cs \<Longrightarrow> distinct cs"
    and do: "dom (m_connected_slots w') = dom (m_connected_slots w)"
    and se: "m_senders w' = (m_senders w)(ob \<mapsto> insort_insert s ss)"
  shows "consistent w'"
proof -
  note fresh = fresh_not_used [OF con]
  have old: "slot_of w t c \<Longrightarrow> c \<notin> N" for t c
    using fresh(4) N(2) by blast
  have co: "connected w' t p \<longleftrightarrow> connected w t p \<or> (t = s \<and> p = ob)" for t p
    by (rule connected_addition [OF so de old N(1)])
  have "slots_allocated w'"
    using con di unfolding consistent_def slots_allocated_def so de by auto
  moreover have "slots_disjoint w'"
    using con old unfolding consistent_def slots_disjoint_def so by blast
  moreover have "no_leaks w'"
  proof -
    have "c < brk w' \<and> (\<exists>t. slot_of w' t c)" if "dest_of w' c \<noteq> None" for c
    proof (cases "c \<in> N")
      case True
      then show ?thesis using N(2) so by blast
    next
      case False
      with that have "dest_of w c \<noteq> None" by (simp add: de)
      with con b so show ?thesis unfolding consistent_def no_leaks_def by (meson less_le_trans)
    qed
    then show ?thesis by (simp add: no_leaks_def)
  qed
  moreover have "links_agree w'"
    using con ss unfolding consistent_def links_agree_def se co
    by (auto simp: set_insort_insert sorted_insort_insert distinct_insort_insert)
  moreover have "addresses_used w'"
  proof -
    have "t < brk w'" if "m_connected_slots w' t = Some cs" for t cs
    proof -
      from that do obtain ds where "m_connected_slots w t = Some ds" by blast
      with con b show ?thesis unfolding consistent_def addresses_used_def by (meson less_le_trans)
    qed
    moreover have "p < brk w'" if "m_senders w' p = Some ps" for p ps
    proof -
      from that ss obtain qs where "m_senders w p = Some qs" by (auto simp: se split: if_splits)
      with con b show ?thesis unfolding consistent_def addresses_used_def by (meson less_le_trans)
    qed
    ultimately show ?thesis by (auto simp: addresses_used_def)
  qed
  ultimately show ?thesis by (simp add: consistent_def)
qed

text \<open>Removing the connections \<open>R\<close>.\<close>

lemma consistent_removal:
  assumes con: "consistent w" and b: "brk w' = brk w"
    and so: "\<And>t c. slot_of w' t c \<longleftrightarrow> slot_of w t c \<and> c \<notin> R"
    and de: "\<And>c. dest_of w' c = (if c \<in> R then None else dest_of w c)"
    and di: "\<And>t cs. m_connected_slots w' t = Some cs \<Longrightarrow> distinct cs"
    and ds: "\<And>t cs. m_connected_slots w' t = Some cs \<Longrightarrow> m_connected_slots w t \<noteq> None"
    and dp: "\<And>p ps. m_senders w' p = Some ps \<Longrightarrow> m_senders w p \<noteq> None"
    and li: "\<And>p ps. m_senders w' p = Some ps \<Longrightarrow>
               sorted ps \<and> distinct ps \<and> (\<forall>t. t \<in> set ps \<longleftrightarrow> connected w' t p)"
    and al: "\<And>t p. connected w' t p \<Longrightarrow> m_senders w' p \<noteq> None"
  shows "consistent w'"
proof -
  have "slots_allocated w'"
    using con di unfolding consistent_def slots_allocated_def so de by auto
  moreover have "slots_disjoint w'"
    using con unfolding consistent_def slots_disjoint_def so by blast
  moreover have "no_leaks w'"
    using con unfolding consistent_def no_leaks_def so de b by auto
  moreover have "links_agree w'"
    unfolding links_agree_def using li al by blast
  moreover have "addresses_used w'"
    using con ds dp unfolding consistent_def addresses_used_def b by (metis not_None_eq)
  ultimately show ?thesis by (simp add: consistent_def)
qed

lemma consistent_allocated:
  assumes "consistent w" and "m_connected_slots w s = Some cs"
  shows "\<forall>c\<in>set cs. dest_of w c \<noteq> None"
proof
  fix c assume "c \<in> set cs"
  with assms(2) have "slot_of w s c" by (simp add: slot_of_def)
  with assms(1) show "dest_of w c \<noteq> None" unfolding consistent_def slots_allocated_def by blast
qed

lemma consistent_sendersD:
  "consistent w \<Longrightarrow> m_senders w ob = Some ss \<Longrightarrow> sorted ss \<and> distinct ss"
  unfolding consistent_def links_agree_def by blast

text \<open>The world with one more connection \<open>k\<close>, from signal \<open>s\<close>.\<close>

definition with_connection ::
  "nat \<Rightarrow> 'f connection \<Rightarrow> nat list \<Rightarrow> nat list \<Rightarrow> ('f, 'z) world_scheme \<Rightarrow> ('f, 'z) world_scheme" where
  "with_connection s k cs ss w = w\<lparr>brk := Suc (brk w), conn_heap := (conn_heap w)(brk w \<mapsto> k),
     m_connected_slots := (m_connected_slots w)(s \<mapsto> cs @ [brk w]),
     m_senders := (m_senders w)(m_pobject k \<mapsto> insort_insert s ss)\<rparr>"

lemma with_connection_links:
  assumes con: "consistent w" and cs: "m_connected_slots w s = Some cs"
    and ss: "m_senders w (m_pobject k) = Some ss"
  shows "consistent (with_connection s k cs ss w)"
    and "connected (with_connection s k cs ss w) t p
       \<longleftrightarrow> connected w t p \<or> (t = s \<and> p = m_pobject k)"
proof -
  let ?w = "with_connection s k cs ss w"
  note fresh = fresh_not_used [OF con]
  have so: "slot_of ?w t c \<longleftrightarrow> slot_of w t c \<or> (t = s \<and> c \<in> {brk w})" for t c
    using cs by (auto simp: slot_of_def with_connection_def)
  have de: "dest_of ?w c = (if c \<in> {brk w} then Some (m_pobject k) else dest_of w c)" for c
    by (simp add: dest_of_def with_connection_def)
  show "consistent ?w"
  proof (rule consistent_addition [OF con ss _ _ _ _ so de])
    show "distinct ds" if "m_connected_slots ?w t = Some ds" for t ds
      using that cs consistent_distinct [OF con] fresh(4) [of "brk w" s]
      by (auto simp: with_connection_def slot_of_def split: if_splits)
  qed (use cs in \<open>auto simp: with_connection_def\<close>)
  show "connected ?w t p \<longleftrightarrow> connected w t p \<or> (t = s \<and> p = m_pobject k)"
    by (rule connected_addition [OF so de]) (use fresh(4) [OF order_refl] in auto)
qed

lemma signal_connect_with:
  assumes "m_connected_slots w s = Some cs" and "m_senders w ob = Some ss"
  shows "signal_connect s ob f w
     = Some (Ret (), with_connection s \<lparr>m_pobject = ob, m_pmemfun = f\<rparr> cs ss w)"
  using assms by (simp add: signal_connect_run with_connection_def)

lemma signal_disconnect_all_consistent:
  assumes con: "consistent w" and cs: "m_connected_slots w s = Some cs"
    and run: "signal_disconnect_all s w = Some (Ret u, w')"
  shows "consistent w'" and "\<not> slot_of w' s c"
    and "connected w' t p \<longleftrightarrow> t \<noteq> s \<and> connected w t p"
proof -
  note w' = run [unfolded signal_disconnect_all_run [OF con cs], simplified, symmetric]
  have so: "slot_of w' t c \<longleftrightarrow> slot_of w t c \<and> c \<notin> set cs" for t c
    using cs con unfolding consistent_def slots_disjoint_def
    by (auto simp: slot_of_iff w' split: if_splits)
  have de: "dest_of w' c = (if c \<in> set cs then None else dest_of w c)" for c
    by (simp add: dest_of_def w' restrict_map_def)
  have co: "connected w' t p \<longleftrightarrow> t \<noteq> s \<and> connected w t p" for t p
    using so de cs unfolding connected_def 
    by (metis (no_types, lifting) con consistent_def option.inject slot_of_iff slots_disjoint_def)
  have dests: "(\<exists>c\<in>set cs. dest_of w c = Some p) \<longleftrightarrow> connected w s p" for p
    using cs by (auto simp: connected_def slot_of_iff)
  have se: "m_senders w' p = (if connected w s p then map_option (removeAll s) (m_senders w p) else m_senders w p)" for p
    by (simp add: w' unlink_senders_def dests)
  show "\<not> slot_of w' s c" by (simp add: w' slot_of_def)
  show "connected w' t p \<longleftrightarrow> t \<noteq> s \<and> connected w t p" by (rule co)
  show "consistent w'"
  proof (rule consistent_removal [OF con _ so de])
    show "sorted ps \<and> distinct ps \<and> (\<forall>t. t \<in> set ps \<longleftrightarrow> connected w' t p)"
      if "m_senders w' p = Some ps" for p ps
      using that consistent_sendersD [OF con] consistent_senders_iff [OF con]
      by (auto simp: se co removeAll_filter_not_eq sorted_wrt_filter split: if_splits)
    show "m_senders w' p \<noteq> None" if "connected w' t p" for t p
      using that consistent_dest_alive [OF con] by (auto simp: co se)
  qed (use cs consistent_distinct [OF con] in \<open>auto simp: w' se unlink_senders_def split: if_splits\<close>)
qed

lemma signal_destroy_consistent:
  assumes con: "consistent w" and cs: "m_connected_slots w s = Some cs"
    and run: "signal_destroy s w = Some (Ret u, w')"
  shows "consistent w'" and "m_connected_slots w' = (m_connected_slots w)(s := None)"
    and "connected w' t p \<longleftrightarrow> t \<noteq> s \<and> connected w t p"
proof -
  obtain w1 where w1: "signal_disconnect_all s w = Some (Ret (), w1)"
    and w': "w' = w1\<lparr>m_connected_slots := (m_connected_slots w1)(s := None)\<rparr>"
    using run by (auto simp: signal_destroy_def elim: seqp_RetE)
  have con1: "consistent w1" and none: "\<And>c. \<not> slot_of w1 s c"
    using signal_disconnect_all_consistent [OF con cs w1] by auto
  have so: "slot_of w' t c \<longleftrightarrow> slot_of w1 t c \<and> c \<notin> {}" for t c
    using none by (auto simp: slot_of_def w')
  have de: "dest_of w' c = (if c \<in> {} then None else dest_of w1 c)" for c
    by (simp add: dest_of_def w')
  have co: "connected w' t p = connected w1 t p" for t p
    by (simp add: connected_def so de)
  show "connected w' t p \<longleftrightarrow> t \<noteq> s \<and> connected w t p"
    unfolding co by (rule signal_disconnect_all_consistent(3) [OF con cs w1])
  show "consistent w'"
    by (rule consistent_removal [OF con1 _ so de])
      (use consistent_distinct [OF con1] consistent_sendersD [OF con1]
         consistent_senders_iff [OF con1] consistent_dest_alive [OF con1] in
       \<open>auto simp: w' co [unfolded w'] split: if_splits\<close>)
  show "m_connected_slots w' = (m_connected_slots w)(s := None)"
    using w1 by (auto simp: w' signal_disconnect_all_run [OF con cs])
qed

section \<open>disconnect\<close>

lemma disconnect_loop_run:
  assumes "\<forall>c\<in>set cs. dest_of w c \<noteq> None" and "m_connected_slots w s = Some ds"
    and "m_senders w ob = Some ss"
  shows "disconnect_loop s ob cs w =
    (case find (\<lambda>c. dest_of w c = Some ob) cs of
       None \<Rightarrow> Some (Ret (), w)
     | Some c \<Rightarrow> Some (Ret (),
         w\<lparr>conn_heap := (conn_heap w)(c := None),
           m_connected_slots := (m_connected_slots w)(s \<mapsto> remove1 c ds),
           m_senders := (m_senders w)(ob \<mapsto> removeAll s ss)\<rparr>))"
  using assms(1)
proof (induction cs)
  case Nil
  then show ?case by simp
next
  case (Cons c cs)
  then obtain k where "conn_heap w c = Some k" by (auto simp: dest_of_def)
  with Cons assms(2,3) show ?case
    by (simp add: prog_simps dest_of_def)
qed

text \<open>
  \<open>disconnect\<close> takes the first connection to the object out of the list and the signal out
  of the object's senders. That keeps the links right exactly when it was the only one.
\<close>

definition connected_once :: "('f, 'z) world_scheme \<Rightarrow> nat \<Rightarrow> nat \<Rightarrow> bool" where
  "connected_once w s ob \<longleftrightarrow>
     (\<forall>c d. slot_of w s c \<longrightarrow> slot_of w s d \<longrightarrow>
        dest_of w c = Some ob \<longrightarrow> dest_of w d = Some ob \<longrightarrow> c = d)"

text \<open>
  A connection that is the only one of its signal and object, out of the heap, the list and
  the registration.
\<close>

lemma erased_connection_links:
  assumes con: "consistent w" and cs: "m_connected_slots w s = Some cs" and once: "connected_once w s ob"
    and c: "c \<in> set cs" "dest_of w c = Some ob"
    and w': "w' = w\<lparr>conn_heap := (conn_heap w)(c := None),
           m_connected_slots := (m_connected_slots w)(s \<mapsto> remove1 c cs),
           m_senders := (m_senders w)(ob \<mapsto> removeAll s ss)\<rparr>"
  shows "slot_of w' t d \<longleftrightarrow> slot_of w t d \<and> d \<notin> {c}"
    and "dest_of w' d = (if d \<in> {c} then None else dest_of w d)"
    and "connected w' t p \<longleftrightarrow> connected w t p \<and> \<not> (t = s \<and> p = ob)"
proof -
  have slot: "slot_of w s c" using c(1) cs by (simp add: slot_of_def)
  show so: "slot_of w' t d \<longleftrightarrow> slot_of w t d \<and> d \<notin> {c}" for t d
    using cs slot consistent_distinct [OF con cs] con unfolding consistent_def slots_disjoint_def
    by (auto simp: slot_of_iff w' split: if_splits)
  show de: "dest_of w' d = (if d \<in> {c} then None else dest_of w d)" for d
    by (simp add: dest_of_def w')
  show "connected w' t p \<longleftrightarrow> connected w t p \<and> \<not> (t = s \<and> p = ob)"
  proof
    assume "connected w' t p"
    then obtain d where d: "d \<noteq> c" "slot_of w t d" "dest_of w d = Some p"
      by (auto simp: connected_def so de split: if_splits)
    then have "\<not> (t = s \<and> p = ob)"
      using once slot c(2) unfolding connected_once_def by blast
    with d show "connected w t p \<and> \<not> (t = s \<and> p = ob)" by (auto simp: connected_def)
  next
    assume t: "connected w t p \<and> \<not> (t = s \<and> p = ob)"
    then obtain d where d: "slot_of w t d" "dest_of w d = Some p" by (auto simp: connected_def)
    have "d \<noteq> c"
      using t d slot c(2) con unfolding consistent_def slots_disjoint_def by auto
    with d show "connected w' t p" by (auto simp: connected_def so de)
  qed
qed

lemma erased_connection_consistent:
  assumes con: "consistent w" and cs: "m_connected_slots w s = Some cs" and ss: "m_senders w ob = Some ss"
    and once: "connected_once w s ob" and c: "c \<in> set cs" "dest_of w c = Some ob"
    and w': "w' = w\<lparr>conn_heap := (conn_heap w)(c := None),
           m_connected_slots := (m_connected_slots w)(s \<mapsto> remove1 c cs),
           m_senders := (m_senders w)(ob \<mapsto> removeAll s ss)\<rparr>"
  shows "consistent w'"
proof -
  note links = erased_connection_links [OF con cs once c w']
  have se: "m_senders w' p = (if p = ob then Some (removeAll s ss) else m_senders w p)" for p
    by (simp add: w')
  show ?thesis
  proof (rule consistent_removal [OF con _ links(1,2)])
    show "brk w' = brk w" by (simp add: w')
    show "distinct ds" if "m_connected_slots w' t = Some ds" for t ds
      using that consistent_distinct [OF con] cs by (auto simp: w' split: if_splits)
    show "m_connected_slots w t \<noteq> None" if "m_connected_slots w' t = Some ds" for t ds
      using that cs by (auto simp: w' split: if_splits)
    show "m_senders w p \<noteq> None" if "m_senders w' p = Some ps" for p ps
      using that ss by (auto simp: se split: if_splits)
    show "m_senders w' p \<noteq> None" if "connected w' t p" for t p
      using that consistent_dest_alive [OF con] by (auto simp: links(3) se)
    show "sorted ps \<and> distinct ps \<and> (\<forall>t. t \<in> set ps \<longleftrightarrow> connected w' t p)"
      if "m_senders w' p = Some ps" for p ps
      using that ss consistent_sendersD [OF con] consistent_senders_iff [OF con]
      by (auto simp: se links(3) removeAll_filter_not_eq sorted_wrt_filter split: if_splits)
  qed
qed

lemma signal_disconnect_returns:
  assumes "consistent w" and "m_connected_slots w s = Some cs" and "m_senders w ob = Some ss"
  shows "\<exists>w'. signal_disconnect s ob w = Some (Ret (), w')"
  using disconnect_loop_run [OF consistent_allocated [OF assms(1,2)] assms(2,3)]
  by (simp add: signal_disconnect_def bindp_def get_slots_run [OF assms(2)] split: option.split)

lemma signal_disconnect_consistent:
  assumes con: "consistent w" and cs: "m_connected_slots w s = Some cs" and ss: "m_senders w ob = Some ss"
    and once: "connected_once w s ob"
    and run: "signal_disconnect s ob w = Some (Ret u, w')"
  shows "consistent w'" and "\<forall>t p. connected w' t p \<longleftrightarrow> connected w t p \<and> \<not> (t = s \<and> p = ob)"
proof -
  have alloc: "\<forall>c\<in>set cs. dest_of w c \<noteq> None"
    by (rule consistent_allocated [OF con cs])
  have loop: "disconnect_loop s ob cs w = Some (Ret u, w')"
    using run cs by (simp add: signal_disconnect_def prog_simps)
  have "consistent w' \<and> (\<forall>t p. connected w' t p \<longleftrightarrow> connected w t p \<and> \<not> (t = s \<and> p = ob))"
  proof (cases "find (\<lambda>c. dest_of w c = Some ob) cs")
    case None
    then have "w' = w"
      using loop by (simp add: disconnect_loop_run [OF alloc cs ss])
    moreover have "\<not> connected w s ob"
      using None cs by (auto simp: find_None_iff connected_def slot_of_iff)
    ultimately show ?thesis using con by auto
  next
    case (Some c)
    then have c: "c \<in> set cs" "dest_of w c = Some ob" by (auto simp: find_Some_iff)
    have w': "w' = w\<lparr>conn_heap := (conn_heap w)(c := None),
           m_connected_slots := (m_connected_slots w)(s \<mapsto> remove1 c cs),
           m_senders := (m_senders w)(ob \<mapsto> removeAll s ss)\<rparr>"
      using loop Some by (simp add: disconnect_loop_run [OF alloc cs ss])
    show ?thesis
      using erased_connection_consistent [OF con cs ss once c w'] erased_connection_links(3) [OF con cs once c w']
      by blast
  qed
  then show "consistent w'" and "\<forall>t p. connected w' t p \<longleftrightarrow> connected w t p \<and> \<not> (t = s \<and> p = ob)"
    by blast+
qed

section \<open>Destroying an object with slots\<close>

lemma slot_disconnect_loop_run:
  assumes "distinct cs" and "set cs \<subseteq> set ds" and "\<forall>c\<in>set cs. dest_of w c \<noteq> None"
    and "m_connected_slots w s = Some ds" and "distinct ds"
  shows "slot_disconnect_loop s ob cs w = Some (Ret (),
     w\<lparr>conn_heap := conn_heap w |` {c. \<not> (c \<in> set cs \<and> dest_of w c = Some ob)},
       m_connected_slots := (m_connected_slots w)(s \<mapsto>
         filter (\<lambda>c. \<not> (c \<in> set cs \<and> dest_of w c = Some ob)) ds)\<rparr>)"
  using assms
proof (induction cs arbitrary: w ds)
  case Nil
  from Nil.prems(4) have "(m_connected_slots w)(s \<mapsto> ds) = m_connected_slots w" by auto
  then show ?case by (simp add: restrict_map_def)
next
  case (Cons c cs)
  then obtain k where k: "conn_heap w c = Some k" by (auto simp: dest_of_def)
  show ?case
  proof (cases "m_pobject k = ob")
    case False
    then have "slot_disconnect_loop s ob (c # cs) w = slot_disconnect_loop s ob cs w"
      using k by (simp add: prog_simps)
    also have "\<dots> = Some (Ret (),
     w\<lparr>conn_heap := conn_heap w |` {c. \<not> (c \<in> set cs \<and> dest_of w c = Some ob)},
       m_connected_slots := (m_connected_slots w)(s \<mapsto>
         filter (\<lambda>c. \<not> (c \<in> set cs \<and> dest_of w c = Some ob)) ds)\<rparr>)"
      using Cons.prems by (intro Cons.IH) auto
    also have "(\<lambda>d. \<not> (d \<in> set cs \<and> dest_of w d = Some ob))
        = (\<lambda>d. \<not> (d \<in> set (c # cs) \<and> dest_of w d = Some ob))"
      using False k by (auto simp: fun_eq_iff dest_of_def)
    finally show ?thesis .
  next
    case True
    let ?ds = "remove1 c ds"
    let ?w = "w\<lparr>conn_heap := (conn_heap w)(c := None), m_connected_slots := (m_connected_slots w)(s \<mapsto> ?ds)\<rparr>"
    have upd: "?w\<lparr>conn_heap := A, m_connected_slots := (m_connected_slots ?w)(s \<mapsto> B)\<rparr>
        = w\<lparr>conn_heap := A, m_connected_slots := (m_connected_slots w)(s \<mapsto> B)\<rparr>" for A B
      by simp
    have "slot_disconnect_loop s ob (c # cs) w = slot_disconnect_loop s ob cs ?w"
      using k True Cons.prems(4) by (simp add: prog_simps)
    also have "\<dots> = Some (Ret (),
     ?w\<lparr>conn_heap := conn_heap ?w |` {d. \<not> (d \<in> set cs \<and> dest_of ?w d = Some ob)},
       m_connected_slots := (m_connected_slots ?w)(s \<mapsto>
         filter (\<lambda>d. \<not> (d \<in> set cs \<and> dest_of ?w d = Some ob)) ?ds)\<rparr>)"
      using Cons.prems by (intro Cons.IH) (auto simp: dest_of_def)
    also have "conn_heap ?w |` {d. \<not> (d \<in> set cs \<and> dest_of ?w d = Some ob)}
        = conn_heap w |` {d. \<not> (d \<in> set (c # cs) \<and> dest_of w d = Some ob)}"
      using k True Cons.prems(1) by (auto simp: fun_eq_iff dest_of_def restrict_map_def)
    also have "filter (\<lambda>d. \<not> (d \<in> set cs \<and> dest_of ?w d = Some ob)) ?ds
        = filter (\<lambda>d. \<not> (d \<in> set (c # cs) \<and> dest_of w d = Some ob)) ds"
      using k True Cons.prems(1,5)
      by (auto simp: distinct_remove1_removeAll removeAll_filter_not_eq dest_of_def intro!: filter_cong)
    finally show ?thesis by (simp only: upd)
  qed
qed

lemma signal_slot_disconnect_run:
  assumes "m_connected_slots w s = Some cs" and "distinct cs" and "\<forall>c\<in>set cs. dest_of w c \<noteq> None"
  shows "signal_slot_disconnect s ob w = Some (Ret (),
     w\<lparr>conn_heap := conn_heap w |` {c. \<not> (c \<in> set cs \<and> dest_of w c = Some ob)},
       m_connected_slots := (m_connected_slots w)(s \<mapsto> filter (\<lambda>c. dest_of w c \<noteq> Some ob) cs)\<rparr>)"
proof -
  have "filter (\<lambda>c. \<not> (c \<in> set cs \<and> dest_of w c = Some ob)) cs = filter (\<lambda>c. dest_of w c \<noteq> Some ob) cs"
    by (rule filter_cong) auto
  then show ?thesis
    using assms(1) slot_disconnect_loop_run [OF assms(2) subset_refl assms(3,1,2), of ob]
    by (simp only: signal_slot_disconnect_def bindp_run(1) [OF get_slots_run])
qed
end
