(* ===== verification/Sigslot_Copies.thy ===== *)
theory Sigslot_Copies
  imports Sigslot_Links
begin

text \<open>
  Destroying and copying objects with slots, and the loop of \<open>slot_duplicate\<close>, which
  appends to the very list it walks over.
\<close>

section \<open>Worlds without some of their connections\<close>

definition without :: "nat set \<Rightarrow> ('f, 'z) world_scheme \<Rightarrow> ('f, 'z) world_scheme" where
  "without R w = w\<lparr>conn_heap := conn_heap w |` (- R),
     m_connected_slots := (\<lambda>t. map_option (filter (\<lambda>c. c \<notin> R)) (m_connected_slots w t))\<rparr>"

lemma without_fields [simp]:
  "brk (without R w) = brk w" "m_senders (without R w) = m_senders w"
  "conn_heap (without R w) = conn_heap w |` (- R)"
  "m_connected_slots (without R w) t = map_option (filter (\<lambda>c. c \<notin> R)) (m_connected_slots w t)"
  by (simp_all add: without_def)

lemma slot_of_without [simp]: "slot_of (without R w) t c \<longleftrightarrow> slot_of w t c \<and> c \<notin> R"
  by (auto simp: slot_of_iff)

lemma dest_of_without [simp]: "dest_of (without R w) c = (if c \<in> R then None else dest_of w c)"
  by (simp add: dest_of_def)

lemma without_without: "without S (without R w) = without (R \<union> S) w"
proof -
  have "(\<lambda>t. map_option (filter (\<lambda>c. c \<notin> S)) (map_option (filter (\<lambda>c. c \<notin> R)) (m_connected_slots w t)))
      = (\<lambda>t. map_option (filter (\<lambda>c. c \<notin> R \<union> S)) (m_connected_slots w t))"
    by (rule ext) (simp add: option.map_comp comp_def conj_commute)
  then show ?thesis
    by (simp add: without_def Int_commute)
qed

lemma filter_id_option: "(\<And>cs c. x = Some cs \<Longrightarrow> c \<in> set cs \<Longrightarrow> P c) \<Longrightarrow> map_option (filter P) x = x"
  by (cases x) (auto simp: filter_id_conv)

lemma without_empty: "without {} w = w"
  by (simp add: without_def filter_id_option restrict_map_def)

lemma slots_allocated_without: "slots_allocated w \<Longrightarrow> slots_allocated (without R w)"
  by (auto simp: slots_allocated_def)

lemma slots_disjoint_without: "slots_disjoint w \<Longrightarrow> slots_disjoint (without R w)"
  by (auto simp: slots_disjoint_def)

lemma slot_disconnect_without:
  assumes al: "slots_allocated w" and di: "slots_disjoint w" and s: "m_connected_slots w s \<noteq> None"
  shows "signal_slot_disconnect s ob w
     = Some (Ret (), without {c. slot_of w s c \<and> dest_of w c = Some ob} w)"
proof -
  from s obtain cs where cs: "m_connected_slots w s = Some cs" by auto
  let ?R = "{c. slot_of w s c \<and> dest_of w c = Some ob}"
  have slot: "slot_of w s c \<longleftrightarrow> c \<in> set cs" for c using cs by (simp add: slot_of_def)
  have "distinct cs" and "\<forall>c\<in>set cs. dest_of w c \<noteq> None"
    using al cs slot unfolding slots_allocated_def by blast+
  note run = signal_slot_disconnect_run [OF cs this, of ob]
  have "(m_connected_slots w)(s \<mapsto> filter (\<lambda>c. dest_of w c \<noteq> Some ob) cs)
      = (\<lambda>t. map_option (filter (\<lambda>c. c \<notin> ?R)) (m_connected_slots w t))"
  proof (rule ext)
    fix t
    show "((m_connected_slots w)(s \<mapsto> filter (\<lambda>c. dest_of w c \<noteq> Some ob) cs)) t
        = map_option (filter (\<lambda>c. c \<notin> ?R)) (m_connected_slots w t)"
    proof (cases "t = s")
      case True
      then show ?thesis using cs by (auto simp: slot intro!: filter_cong)
    next
      case False
      then have "map_option (filter (\<lambda>c. c \<notin> ?R)) (m_connected_slots w t) = m_connected_slots w t"
        using di by (intro filter_id_option) (auto simp: slots_disjoint_def slot_of_iff)
      with False show ?thesis by simp
    qed
  qed
  moreover have "{c. \<not> (c \<in> set cs \<and> dest_of w c = Some ob)} = - ?R" by (auto simp: slot)
  ultimately show ?thesis by (simp only: run without_def)
qed

lemma has_slots_disconnect_loop_run:
  assumes "slots_allocated w" and "slots_disjoint w" and "\<forall>s\<in>set ss. m_connected_slots w s \<noteq> None"
  shows "has_slots_disconnect_loop ob ss w
     = Some (Ret (), without {c. (\<exists>s\<in>set ss. slot_of w s c) \<and> dest_of w c = Some ob} w)"
  using assms
proof (induction ss arbitrary: w)
  case Nil
  then show ?case by (simp add: without_empty)
next
  case (Cons s ss)
  let ?R = "{c. slot_of w s c \<and> dest_of w c = Some ob}"
  have "has_slots_disconnect_loop ob (s # ss) w = has_slots_disconnect_loop ob ss (without ?R w)"
    using Cons.prems by (simp add: slot_disconnect_without prog_simps)
  also have "\<dots> = Some (Ret (), without {c. (\<exists>s\<in>set ss. slot_of (without ?R w) s c)
      \<and> dest_of (without ?R w) c = Some ob} (without ?R w))"
    using Cons.prems by (intro Cons.IH slots_allocated_without slots_disjoint_without) auto
  also have "\<dots> = Some (Ret (), without {c. (\<exists>s\<in>set (s # ss). slot_of w s c) \<and> dest_of w c = Some ob} w)"
    unfolding without_without by (intro arg_cong [where f = "\<lambda>R. Some (Ret (), without R w)"]) auto
  finally show ?case .
qed

lemma has_slots_disconnect_all_run:
  assumes con: "consistent w" and ss: "m_senders w ob = Some ss"
  shows "has_slots_disconnect_all ob w = Some (Ret (),
     (without {c. dest_of w c = Some ob} w)\<lparr>m_senders := (m_senders w)(ob \<mapsto> [])\<rparr>)"
proof -
  have al: "slots_allocated w" and di: "slots_disjoint w"
    using con by (simp_all add: consistent_def)
  have live: "\<forall>s\<in>set ss. m_connected_slots w s \<noteq> None"
    using consistent_senders_iff [OF con ss] by (auto simp: connected_def slot_of_def split: option.splits)
  have "{c. (\<exists>s\<in>set ss. slot_of w s c) \<and> dest_of w c = Some ob} = {c. dest_of w c = Some ob}"
    using consistent_senders_iff [OF con ss] con unfolding connected_def consistent_def no_leaks_def by blast
  then show ?thesis
    using ss by (simp add: has_slots_disconnect_all_def prog_simps has_slots_disconnect_loop_run [OF al di live] set_senders_def)
qed

lemma has_slots_disconnect_all_consistent:
  assumes con: "consistent w" and ss: "m_senders w ob = Some ss"
    and run: "has_slots_disconnect_all ob w = Some (Ret u, w')"
  shows "consistent w'" and "dest_of w' c \<noteq> Some ob" and "m_senders w' = (m_senders w)(ob \<mapsto> [])"
    and "connected w' t p \<longleftrightarrow> p \<noteq> ob \<and> connected w t p"
proof -
  have w': "w' = (without {c. dest_of w c = Some ob} w)\<lparr>m_senders := (m_senders w)(ob \<mapsto> [])\<rparr>"
    using run by (simp add: has_slots_disconnect_all_run [OF con ss])
  have so: "slot_of w' t c \<longleftrightarrow> slot_of w t c \<and> c \<notin> {c. dest_of w c = Some ob}" for t c
    by (auto simp: w' slot_of_iff)
  have de: "dest_of w' c = (if c \<in> {c. dest_of w c = Some ob} then None else dest_of w c)" for c
    by (simp add: w' dest_of_def)
  show "dest_of w' c \<noteq> Some ob" by (simp add: de)
  show se: "m_senders w' = (m_senders w)(ob \<mapsto> [])" by (simp add: w')
  have co: "connected w' t p \<longleftrightarrow> p \<noteq> ob \<and> connected w t p" for t p
    unfolding connected_def so de by (auto split: if_splits) (metis option.inject)
  show "connected w' t p \<longleftrightarrow> p \<noteq> ob \<and> connected w t p" by (rule co)
  show "consistent w'"
  proof (rule consistent_removal [OF con _ so de])
    show "brk w' = brk w" by (simp add: w')
    show "distinct ds" if "m_connected_slots w' t = Some ds" for t ds
      using that consistent_distinct [OF con] by (auto simp: w')
    show "m_connected_slots w t \<noteq> None" if "m_connected_slots w' t = Some ds" for t ds
      using that by (auto simp: w')
    show "m_senders w p \<noteq> None" if "m_senders w' p = Some ps" for p ps
      using that ss by (auto simp: se split: if_splits)
    show "m_senders w' p \<noteq> None" if "connected w' t p" for t p
      using that consistent_dest_alive [OF con] by (auto simp: co se)
    show "sorted ps \<and> distinct ps \<and> (\<forall>t. t \<in> set ps \<longleftrightarrow> connected w' t p)"
      if "m_senders w' p = Some ps" for p ps
      using that consistent_sendersD [OF con] consistent_senders_iff [OF con]
      by (auto simp: se co split: if_splits)
  qed
qed

lemma has_slots_destroy_consistent:
  assumes con: "consistent w" and ss: "m_senders w ob = Some ss"
    and run: "has_slots_destroy ob w = Some (Ret u, w')"
  shows "consistent w'" and "m_senders w' = (m_senders w)(ob := None)" and "dest_of w' c \<noteq> Some ob"
    and "connected w' t p \<longleftrightarrow> p \<noteq> ob \<and> connected w t p"
proof -
  obtain w1 where w1: "has_slots_disconnect_all ob w = Some (Ret (), w1)"
    and w': "w' = w1\<lparr>m_senders := (m_senders w1)(ob := None)\<rparr>"
    using run by (auto simp: has_slots_destroy_def elim: seqp_RetE)
  note 1 = has_slots_disconnect_all_consistent [OF con ss w1]
  show "m_senders w' = (m_senders w)(ob := None)" by (simp add: w' 1(3))
  have so: "slot_of w' t c \<longleftrightarrow> slot_of w1 t c \<and> c \<notin> {}" for t c by (simp add: slot_of_def w')
  have de: "dest_of w' c = (if c \<in> {} then None else dest_of w1 c)" for c by (simp add: dest_of_def w')
  show "dest_of w' c \<noteq> Some ob" using 1(2) by (simp add: de)
  have co: "connected w' t p \<longleftrightarrow> connected w1 t p" for t p by (simp add: connected_def so de)
  have none: "\<not> connected w1 t ob" for t using 1(2) by (simp add: connected_def)
  show "connected w' t p \<longleftrightarrow> p \<noteq> ob \<and> connected w t p"
    unfolding co by (rule has_slots_disconnect_all_consistent(4) [OF con ss w1])
  show "consistent w'"
  proof (rule consistent_removal [OF 1(1) _ so de])
    show "brk w' = brk w1" by (simp add: w')
    show "distinct ds" if "m_connected_slots w' t = Some ds" for t ds
      using that consistent_distinct [OF 1(1)] by (auto simp: w')
    show "m_connected_slots w1 t \<noteq> None" if "m_connected_slots w' t = Some ds" for t ds
      using that by (auto simp: w')
    show "m_senders w1 p \<noteq> None" if "m_senders w' p = Some ps" for p ps
      using that by (auto simp: w' split: if_splits)
    show "m_senders w' p \<noteq> None" if "connected w' t p" for t p
    proof -
      from that have "connected w1 t p" by (simp add: co)
      with none [of t] consistent_dest_alive [OF 1(1), of t p] show ?thesis by (auto simp: w')
    qed
    show "sorted ps \<and> distinct ps \<and> (\<forall>t. t \<in> set ps \<longleftrightarrow> connected w' t p)"
      if "m_senders w' p = Some ps" for p ps
      using that consistent_sendersD [OF 1(1)] consistent_senders_iff [OF 1(1)]
      by (auto simp: w' co [unfolded w'] split: if_splits)
  qed
qed

section \<open>Copying\<close>

lemma list_next_append:
  "c \<notin> set pre \<Longrightarrow> list_next (pre @ c # post) c = list_begin post"
  by (induction pre) auto

lemma slot_duplicate_rest:
  assumes "m_connected_slots w s = Some (pre @ rest)" and "distinct (pre @ rest)"
    and "\<forall>c\<in>set rest. \<exists>k. conn_heap w c = Some k \<and> m_pobject k \<noteq> old"
  shows "slot_duplicate_loop s old new (list_begin rest) w = Some (Ret (), w)"
  using assms
proof (induction rest arbitrary: pre)
  case Nil
  then show ?case by (simp add: slot_duplicate_loop.simps list_begin_def)
next
  case (Cons c rest)
  then obtain k where k: "conn_heap w c = Some k" "m_pobject k \<noteq> old" by auto
  have "slot_duplicate_loop s old new (list_begin (c # rest)) w
      = slot_duplicate_loop s old new (list_begin rest) w"
    using k Cons.prems(1,2)
    by (subst slot_duplicate_loop.simps) (simp add: list_begin_def prog_simps list_next_append)
  also have "\<dots> = Some (Ret (), w)"
    using Cons.prems by (intro Cons.IH [of "pre @ [c]"]) auto
  finally show ?case .
qed

text \<open>The connections of \<open>cs\<close> to \<open>old\<close>, once more for \<open>new\<close>, at the addresses from \<open>a\<close> on.\<close>

fun duplicates :: "(nat \<rightharpoonup> 'f connection) \<Rightarrow> nat \<Rightarrow> nat \<Rightarrow> nat \<Rightarrow> nat list \<Rightarrow> (nat \<times> 'f connection) list" where
  "duplicates h old new a [] = []"
| "duplicates h old new a (c # cs) =
     (case h c of
        None \<Rightarrow> duplicates h old new a cs
      | Some k \<Rightarrow> if m_pobject k = old
                  then (a, \<lparr>m_pobject = new, m_pmemfun = m_pmemfun k\<rparr>) # duplicates h old new (Suc a) cs
                  else duplicates h old new a cs)"

lemma duplicates_addresses:
  "map fst (duplicates h old new a cs) = [a..<a + length (duplicates h old new a cs)]"
  by (induction h old new a cs rule: duplicates.induct)
    (auto split: option.splits simp: upt_conv_Cons simp del: upt_Suc)

lemma dom_duplicates:
  "dom (map_of (duplicates h old new a cs)) = {a..<a + length (duplicates h old new a cs)}"
  unfolding dom_map_of_conv_image_fst set_map [symmetric] duplicates_addresses by simp

lemma duplicates_cong:
  "(\<And>c. c \<in> set cs \<Longrightarrow> h c = h' c) \<Longrightarrow> duplicates h old new a cs = duplicates h' old new a cs"
  by (induction cs arbitrary: a) (auto split: option.splits)

lemma duplicates_dest:
  "map_of (duplicates h old new a cs) c = Some k \<Longrightarrow> m_pobject k = new"
  by (induction h old new a cs rule: duplicates.induct) (auto split: option.splits if_splits)

text \<open>One round of the loop: it passes a node that leads elsewhere, and appends a duplicate otherwise.\<close>

lemma slot_duplicate_loop_pass:
  assumes "m_connected_slots w s = Some (pre @ (c # rest) @ added)" and "distinct (pre @ (c # rest) @ added)"
    and "conn_heap w c = Some k" and "m_pobject k \<noteq> old"
  shows "slot_duplicate_loop s old new (list_begin ((c # rest) @ added)) w
     = slot_duplicate_loop s old new (list_begin (rest @ added)) w"
  using assms by (subst slot_duplicate_loop.simps) (simp add: list_begin_def prog_simps list_next_append)

lemma slot_duplicate_loop_append:
  assumes "m_connected_slots w s = Some (pre @ (c # rest) @ added)" and "distinct (pre @ (c # rest) @ added)"
    and "conn_heap w c = Some k" and "m_pobject k = old" and "\<forall>c\<in>set (pre @ (c # rest) @ added). c < brk w"
  shows "slot_duplicate_loop s old new (list_begin ((c # rest) @ added)) w
     = slot_duplicate_loop s old new (list_begin (rest @ (added @ [brk w])))
         (w\<lparr>brk := Suc (brk w), conn_heap := (conn_heap w)(brk w \<mapsto> \<lparr>m_pobject = new, m_pmemfun = m_pmemfun k\<rparr>),
           m_connected_slots := (m_connected_slots w)(s \<mapsto> (pre @ [c]) @ rest @ (added @ [brk w]))\<rparr>)"
proof -
  have "brk w \<notin> set (pre @ (c # rest) @ added)" using assms(5) by blast
  with assms(1-4) show ?thesis
    by (subst slot_duplicate_loop.simps)
      (simp add: list_begin_def prog_simps connection_duplicate_def deref_connection_def list_next_append)
qed

lemma slot_duplicate_loop_run:
  assumes "m_connected_slots w s = Some (pre @ rest @ added)" and "distinct (pre @ rest @ added)"
    and "\<forall>c\<in>set (pre @ rest @ added). c < brk w"
    and "\<forall>c\<in>set rest. conn_heap w c \<noteq> None"
    and "\<forall>c\<in>set added. \<exists>k. conn_heap w c = Some k \<and> m_pobject k = new" and "new \<noteq> old"
  shows "slot_duplicate_loop s old new (list_begin (rest @ added)) w =
    (let ds = duplicates (conn_heap w) old new (brk w) rest in Some (Ret (),
     w\<lparr>brk := brk w + length ds, conn_heap := conn_heap w ++ map_of ds,
       m_connected_slots := (m_connected_slots w)(s \<mapsto> pre @ rest @ added @ map fst ds)\<rparr>))"
  using assms
proof (induction rest arbitrary: w pre added)
  case Nil
  then have "slot_duplicate_loop s old new (list_begin added) w = Some (Ret (), w)"
    by (intro slot_duplicate_rest [where pre = pre]) auto
  moreover have upd: "(m_connected_slots w)(s \<mapsto> pre @ added) = m_connected_slots w" using Nil by auto
  ultimately show ?case
    by (simp only: duplicates.simps list.map append_Nil append_Nil2 Let_def upd) simp
next
  case (Cons c rest)
  then obtain k where k: "conn_heap w c = Some k" by auto
  show ?case
  proof (cases "m_pobject k = old")
    case False
    note slot_duplicate_loop_pass [OF Cons.prems(1,2) k False, of new]
    also have "slot_duplicate_loop s old new (list_begin (rest @ added)) w
      = (let ds = duplicates (conn_heap w) old new (brk w) rest in Some (Ret (),
       w\<lparr>brk := brk w + length ds, conn_heap := conn_heap w ++ map_of ds,
         m_connected_slots := (m_connected_slots w)(s \<mapsto> (pre @ [c]) @ rest @ added @ map fst ds)\<rparr>))"
      using Cons.prems by (intro Cons.IH) auto
    finally show ?thesis using k False by (simp del: fun_upd_apply)
  next
    case True
    let ?k = "\<lparr>m_pobject = new, m_pmemfun = m_pmemfun k\<rparr>"
    let ?w = "w\<lparr>brk := Suc (brk w), conn_heap := (conn_heap w)(brk w \<mapsto> ?k),
       m_connected_slots := (m_connected_slots w)(s \<mapsto> (pre @ [c]) @ rest @ (added @ [brk w]))\<rparr>"
    let ?ds = "duplicates (conn_heap w) old new (Suc (brk w)) rest"
    have fresh: "brk w \<notin> set (pre @ (c # rest) @ added)" using Cons.prems(3) by blast
    then have ds: "duplicates (conn_heap ?w) old new (brk ?w) rest = ?ds"
      by (simp) (rule duplicates_cong, auto)
    have heap: "conn_heap ?w ++ map_of ?ds = (conn_heap w ++ map_of ?ds)(brk w \<mapsto> ?k)"
      by (simp add: map_add_upd_left dom_duplicates del: fun_upd_apply)
    note slot_duplicate_loop_append [OF Cons.prems(1,2) k True Cons.prems(3), of new]
    also have "slot_duplicate_loop s old new (list_begin (rest @ (added @ [brk w]))) ?w
      = (let ds = duplicates (conn_heap ?w) old new (brk ?w) rest in Some (Ret (),
       ?w\<lparr>brk := brk ?w + length ds, conn_heap := conn_heap ?w ++ map_of ds,
         m_connected_slots := (m_connected_slots ?w)(s \<mapsto> (pre @ [c]) @ rest @ (added @ [brk w]) @ map fst ds)\<rparr>))"
      using Cons.prems fresh by (intro Cons.IH) (auto simp: less_Suc_eq)
    finally show ?thesis using k True fresh heap
      by (simp only: ds) (simp add: Let_def del: fun_upd_apply)
  qed
qed

text \<open>
  Copying an object with slots registers the copy with one signal after another; each
  round ends in a consistent world.
\<close>

lemma consistent_slot_bound: "consistent w \<Longrightarrow> slot_of w s c \<Longrightarrow> c < brk w"
  unfolding consistent_def slots_allocated_def no_leaks_def by blast

lemma duplicates_nonempty:
  "c \<in> set cs \<Longrightarrow> h c = Some k \<Longrightarrow> m_pobject k = old \<Longrightarrow> duplicates h old new a cs \<noteq> []"
  by (induction cs arbitrary: a) (auto split: option.splits)

lemma copy_round:
  assumes con: "consistent w" and hs: "connected w s hs" and ps: "m_senders w this = Some ps"
    and neq: "this \<noteq> hs"
  obtains w' where "signal_slot_duplicate s hs this w = Some (Ret (), w')"
    and "m_senders w' = m_senders w"
    and "consistent (w'\<lparr>m_senders := (m_senders w')(this \<mapsto> insort_insert s ps)\<rparr>)"
    and "\<And>t p. connected w' t p \<longleftrightarrow> connected w t p \<or> (t = s \<and> p = this)"
proof -
  from hs obtain cs c where cs: "m_connected_slots w s = Some cs" and c: "c \<in> set cs" "dest_of w c = Some hs"
    by (auto simp: connected_def slot_of_iff)
  let ?ds = "duplicates (conn_heap w) hs this (brk w) cs"
  let ?w = "w\<lparr>brk := brk w + length ?ds, conn_heap := conn_heap w ++ map_of ?ds,
       m_connected_slots := (m_connected_slots w)(s \<mapsto> cs @ map fst ?ds)\<rparr>"
  have bound: "\<forall>c\<in>set cs. c < brk w"
    using consistent_slot_bound [OF con] cs by (auto simp: slot_of_iff)
  then have old: "c \<in> set cs \<Longrightarrow> \<not> brk w \<le> c" for c by force
  have alloc: "\<forall>c\<in>set cs. conn_heap w c \<noteq> None"
    using consistent_allocated [OF con cs] by (auto simp: dest_of_def)
  have run: "signal_slot_duplicate s hs this w = Some (Ret (), ?w)"
    using slot_duplicate_loop_run [of w s "[]" cs "[]" this hs] cs neq bound alloc consistent_distinct [OF con cs]
    by (simp add: signal_slot_duplicate_def prog_simps Let_def del: fun_upd_apply)
  have N: "set (map fst ?ds) = {brk w..<brk w + length ?ds}" by (simp only: duplicates_addresses set_upt)
  from c obtain k where k: "conn_heap w c = Some k" "m_pobject k = hs" by (auto simp: dest_of_def)
  have ne: "?ds \<noteq> []" using c(1) k by (rule duplicates_nonempty)
  have so: "slot_of ?w t d \<longleftrightarrow> slot_of w t d \<or> (t = s \<and> d \<in> set (map fst ?ds))" for t d
    using cs by (auto simp: slot_of_iff)
  have de: "dest_of ?w d = (if d \<in> set (map fst ?ds) then Some this else dest_of w d)" for d
  proof (cases "map_of ?ds d")
    case None
    then have "d \<notin> set (map fst ?ds)" using map_of_eq_None_iff [of ?ds d] by auto
    with None show ?thesis by (simp add: dest_of_def map_add_def)
  next
    case (Some e)
    then have "d \<in> set (map fst ?ds)" using map_of_eq_None_iff [of ?ds d] by auto
    with Some duplicates_dest [OF Some] show ?thesis by (simp add: dest_of_def map_add_def)
  qed
  have con': "consistent (?w\<lparr>m_senders := (m_senders ?w)(this \<mapsto> insort_insert s ps)\<rparr>)" (is "consistent ?v")
  proof (rule consistent_addition [OF con ps, where N = "set (map fst ?ds)" and s = s])
    show "slot_of ?v t d \<longleftrightarrow> slot_of w t d \<or> (t = s \<and> d \<in> set (map fst ?ds))" for t d
      using so [of t d] by (simp add: slot_of_def)
    show "dest_of ?v d = (if d \<in> set (map fst ?ds) then Some this else dest_of w d)" for d
      using de [of d] by (simp add: dest_of_def)
    show "distinct ds" if "m_connected_slots ?v t = Some ds" for t ds
      using that consistent_distinct [OF con] cs old
      by (auto simp: duplicates_addresses split: if_splits)
    show "brk w \<le> d \<and> d < brk ?v" if "d \<in> set (map fst ?ds)" for d
      using that N by auto
  qed (use cs ne in \<open>auto simp: dom_def\<close>)
  have co: "connected ?w t p \<longleftrightarrow> connected w t p \<or> (t = s \<and> p = this)" for t p
  proof -
    have "d \<notin> set (map fst ?ds)" if "slot_of w t d" for t d
      using consistent_slot_bound [OF con that] N by auto
    then show ?thesis by (rule connected_addition [OF so de]) (use ne in auto)
  qed
  show ?thesis by (rule that [OF run _ con' co]) simp
qed

lemma has_slots_copy_loop_run:
  assumes "consistent w" and "m_senders w this = Some ps" and "this \<noteq> hs"
    and "\<forall>s\<in>set ss. connected w s hs"
  shows "\<exists>w'. has_slots_copy_loop hs this ss w = Some (Ret (), w') \<and> consistent w'
     \<and> (\<forall>p. p \<noteq> this \<longrightarrow> m_senders w' p = m_senders w p)
     \<and> (\<forall>t p. connected w' t p \<longleftrightarrow> connected w t p \<or> (t \<in> set ss \<and> p = this))"
  using assms
proof (induction ss arbitrary: w ps)
  case Nil
  then show ?case by simp
next
  case (Cons s ss)
  obtain w1 where w1: "signal_slot_duplicate s hs this w = Some (Ret (), w1)" "m_senders w1 = m_senders w"
    and con: "consistent (w1\<lparr>m_senders := (m_senders w1)(this \<mapsto> insort_insert s ps)\<rparr>)" (is "consistent ?v")
    and co: "\<And>t p. connected w1 t p \<longleftrightarrow> connected w t p \<or> (t = s \<and> p = this)"
    by (rule copy_round [OF Cons.prems(1) _ Cons.prems(2,3), of s]) (use Cons.prems(4) in auto)
  have co': "connected ?v t p \<longleftrightarrow> connected w t p \<or> (t = s \<and> p = this)" for t p
    using co [of t p] by (simp add: connected_def slot_of_def dest_of_def)
  have "has_slots_copy_loop hs this (s # ss) w = has_slots_copy_loop hs this ss ?v"
    using w1 Cons.prems(2) by (simp add: prog_simps set_senders_def)
  moreover obtain w' where "has_slots_copy_loop hs this ss ?v = Some (Ret (), w')" "consistent w'"
    "\<forall>p. p \<noteq> this \<longrightarrow> m_senders w' p = m_senders ?v p"
    "\<forall>t p. connected w' t p \<longleftrightarrow> connected ?v t p \<or> (t \<in> set ss \<and> p = this)"
    using Cons.IH [OF con _ Cons.prems(3), of "insort_insert s ps"] Cons.prems(4) co' by auto
  ultimately show ?case using w1(2) co' by auto
qed

lemma consistent_new_object:
  assumes con: "consistent w"
  shows "consistent (w\<lparr>brk := Suc (brk w), m_senders := (m_senders w)(brk w \<mapsto> [])\<rparr>)" (is "consistent ?a")
    and "consistent (w\<lparr>brk := Suc (brk w), m_connected_slots := (m_connected_slots w)(brk w \<mapsto> [])\<rparr>)" (is "consistent ?b")
proof -
  note fresh = fresh_not_used [OF con]
  note parts = con [unfolded consistent_def slots_allocated_def slots_disjoint_def no_leaks_def
    links_agree_def addresses_used_def]
  have a: "slot_of ?a = slot_of w" "dest_of ?a = dest_of w" "connected ?a = connected w"
    by (simp_all add: fun_eq_iff slot_of_def dest_of_def connected_def)
  show "consistent ?a"
    unfolding consistent_def slots_allocated_def slots_disjoint_def no_leaks_def links_agree_def
      addresses_used_def a
    using parts fresh(7) by (auto intro: less_SucI)
  have b: "slot_of ?b = slot_of w" "dest_of ?b = dest_of w"
    using fresh(2) by (auto simp: fun_eq_iff slot_of_def dest_of_def)
  then have b': "connected ?b = connected w" by (simp add: fun_eq_iff connected_def)
  show "consistent ?b"
    unfolding consistent_def slots_allocated_def slots_disjoint_def no_leaks_def links_agree_def
      addresses_used_def b b'
    using parts by (auto intro: less_SucI)
qed

lemma has_slots_copy_run:
  assumes con: "consistent w" and ss: "m_senders w hs = Some ss"
  shows "\<exists>w'. has_slots_copy hs w = Some (Ret (brk w), w') \<and> consistent w'
     \<and> m_senders w' hs = Some ss
     \<and> (\<forall>t p. connected w' t p \<longleftrightarrow> connected w t p \<or> (p = brk w \<and> connected w t hs))"
proof -
  let ?w = "w\<lparr>brk := Suc (brk w), m_senders := (m_senders w)(brk w \<mapsto> [])\<rparr>"
  have neq: "brk w \<noteq> hs" using fresh_not_used(3) [OF con] ss by auto
  have co: "connected ?w t p = connected w t p" for t p
    by (simp add: connected_def slot_of_def dest_of_def)
  have "\<exists>w'. has_slots_copy_loop hs (brk w) ss ?w = Some (Ret (), w') \<and> consistent w'
     \<and> (\<forall>p. p \<noteq> brk w \<longrightarrow> m_senders w' p = m_senders ?w p)
     \<and> (\<forall>t p. connected w' t p \<longleftrightarrow> connected ?w t p \<or> (t \<in> set ss \<and> p = brk w))"
    using consistent_senders_iff [OF con ss]
    by (intro has_slots_copy_loop_run [OF consistent_new_object(1) [OF con] _ neq]) (auto simp: co)
  then obtain w' where "has_slots_copy_loop hs (brk w) ss ?w = Some (Ret (), w')" "consistent w'"
    "\<forall>p. p \<noteq> brk w \<longrightarrow> m_senders w' p = m_senders ?w p"
    "\<forall>t p. connected w' t p \<longleftrightarrow> connected ?w t p \<or> (t \<in> set ss \<and> p = brk w)"
    by blast
  then show ?thesis
    using ss neq consistent_senders_iff [OF con ss]
    by (auto simp: has_slots_copy_def has_slots_new_def fresh_address_def set_senders_def prog_simps co)
qed
end
