(* ===== verification/Sigslot_System.thy ===== *)
theory Sigslot_System
  imports Sigslot_Copies
begin

text \<open>
  The signal/slot library as a state machine over all its operations, the invariant in
  every reachable world, and what a signal does when it is emitted.
\<close>

section \<open>The copy constructor of a signal\<close>

lemma connection_eta [simp]: "\<lparr>m_pobject = m_pobject k, m_pmemfun = m_pmemfun k\<rparr> = k"
  by (cases k) simp

lemma signal_copy_loop_run:
  assumes "consistent w" and "m_connected_slots w this = Some ds"
    and "\<forall>c\<in>set cs. c < brk w \<and> (\<exists>k ss. conn_heap w c = Some k \<and> m_senders w (m_pobject k) = Some ss)"
  shows "\<exists>w' ns. signal_copy_loop this cs w = Some (Ret (), w') \<and> consistent w'
     \<and> m_connected_slots w' = (m_connected_slots w)(this \<mapsto> ds @ ns)
     \<and> map (conn_heap w') ns = map (conn_heap w) cs
     \<and> (\<forall>c<brk w. conn_heap w' c = conn_heap w c)"
  using assms
proof (induction cs arbitrary: w ds)
  case Nil
  from Nil.prems(2) have "(m_connected_slots w)(this \<mapsto> ds @ []) = m_connected_slots w" by auto
  with Nil.prems(1) show ?case by (intro exI [of _ w] exI [of _ "[]"]) simp
next
  case (Cons c cs)
  then obtain k ss where k: "conn_heap w c = Some k" and ss: "m_senders w (m_pobject k) = Some ss" by auto
  let ?w = "with_connection this k ds ss w"
  let ?v = "w\<lparr>m_senders := (m_senders w)(m_pobject k \<mapsto> insort_insert this ss), brk := Suc (brk w),
     conn_heap := (conn_heap w)(brk w \<mapsto> k), m_connected_slots := (m_connected_slots w)(this \<mapsto> ds @ [brk w])\<rparr>"
  have "signal_copy_loop this (c # cs) w = signal_copy_loop this cs ?v"
    using k ss Cons.prems(2) by (simp add: prog_simps connection_clone_def deref_connection_def)
  also have "?v = ?w" unfolding with_connection_def by (rule world.equality) simp_all
  finally have loop: "signal_copy_loop this (c # cs) w = signal_copy_loop this cs ?w" .
  have "\<exists>w' ns. signal_copy_loop this cs ?w = Some (Ret (), w') \<and> consistent w'
     \<and> m_connected_slots w' = (m_connected_slots ?w)(this \<mapsto> (ds @ [brk w]) @ ns)
     \<and> map (conn_heap w') ns = map (conn_heap ?w) cs
     \<and> (\<forall>c<brk ?w. conn_heap w' c = conn_heap ?w c)"
  proof (rule Cons.IH)
    show "consistent ?w" by (rule with_connection_links [OF Cons.prems(1,2) ss])
    show "m_connected_slots ?w this = Some (ds @ [brk w])" by (simp add: with_connection_def)
    show "\<forall>c\<in>set cs. c < brk ?w \<and> (\<exists>k ss. conn_heap ?w c = Some k \<and> m_senders ?w (m_pobject k) = Some ss)"
      using Cons.prems(3) by (auto simp: with_connection_def)
  qed
  then obtain w' ns where w': "signal_copy_loop this cs ?w = Some (Ret (), w')" "consistent w'"
    "m_connected_slots w' = (m_connected_slots ?w)(this \<mapsto> (ds @ [brk w]) @ ns)"
    "map (conn_heap w') ns = map (conn_heap ?w) cs" "\<forall>c<brk ?w. conn_heap w' c = conn_heap ?w c"
    by blast
  have same: "map (conn_heap ?w) cs = map (conn_heap w) cs"
    using Cons.prems(3) by (auto simp: with_connection_def)
  have "conn_heap w' (brk w) = Some k" using w'(5) by (simp add: with_connection_def)
  with k have "map (conn_heap w') (brk w # ns) = map (conn_heap w) (c # cs)"
    using w'(4) same by simp
  moreover have "m_connected_slots w' = (m_connected_slots w)(this \<mapsto> ds @ brk w # ns)"
    using w'(3) by (simp add: with_connection_def)
  moreover have "\<forall>c<brk w. conn_heap w' c = conn_heap w c"
    using w'(5) by (auto simp: with_connection_def)
  ultimately show ?case using loop w'(1,2) by (intro exI [of _ w'] exI [of _ "brk w # ns"]) simp
qed

lemma signal_copy_run:
  assumes con: "consistent w" and cs: "m_connected_slots w s = Some cs"
  shows "\<exists>w' ns. signal_copy s w = Some (Ret (brk w), w') \<and> consistent w'
     \<and> m_connected_slots w' = (m_connected_slots w)(brk w \<mapsto> ns)
     \<and> map (conn_heap w') ns = map (conn_heap w) cs
     \<and> (\<forall>c<brk w. conn_heap w' c = conn_heap w c)"
proof -
  let ?w = "w\<lparr>brk := Suc (brk w), m_connected_slots := (m_connected_slots w)(brk w \<mapsto> [])\<rparr>"
  have neq: "s \<noteq> brk w" using fresh_not_used(2) [OF con] cs by auto
  have "\<exists>w' ns. signal_copy_loop (brk w) cs ?w = Some (Ret (), w') \<and> consistent w'
     \<and> m_connected_slots w' = (m_connected_slots ?w)(brk w \<mapsto> [] @ ns)
     \<and> map (conn_heap w') ns = map (conn_heap ?w) cs
     \<and> (\<forall>c<brk ?w. conn_heap w' c = conn_heap ?w c)"
  proof (rule signal_copy_loop_run [OF consistent_new_object(2) [OF con]])
    show "\<forall>c\<in>set cs. c < brk ?w \<and> (\<exists>k ss. conn_heap ?w c = Some k \<and> m_senders ?w (m_pobject k) = Some ss)"
    proof
      fix c assume c: "c \<in> set cs"
      then have "slot_of w s c" using cs by (simp add: slot_of_def)
      from consistent_slot_bound [OF con this] consistent_slotD [OF con cs c]
      show "c < brk ?w \<and> (\<exists>k ss. conn_heap ?w c = Some k \<and> m_senders ?w (m_pobject k) = Some ss)"
        by auto
    qed
  qed simp
  then show ?thesis
    using cs neq by (auto simp: signal_copy_def signal_new_def fresh_address_def set_slots_def prog_simps)
qed

lemma signal_copy_connected:
  assumes con: "consistent w" and cs: "m_connected_slots w s = Some cs"
    and slots: "m_connected_slots w' = (m_connected_slots w)(brk w \<mapsto> ns)"
    and ns: "map (conn_heap w') ns = map (conn_heap w) cs" and old: "\<forall>c<brk w. conn_heap w' c = conn_heap w c"
  shows "connected w' t p \<longleftrightarrow> connected w t p \<or> (t = brk w \<and> connected w s p)"
proof (cases "t = brk w")
  case True
  have "(\<lambda>c. map_option m_pobject c) ` (conn_heap w' ` set ns) = (\<lambda>c. map_option m_pobject c) ` (conn_heap w ` set cs)"
    using arg_cong [OF ns, of set] by simp
  then have "(\<exists>c\<in>set ns. dest_of w' c = Some p) \<longleftrightarrow> (\<exists>c\<in>set cs. dest_of w c = Some p)"
    unfolding dest_of_def image_image by (metis (mono_tags, lifting) image_iff)
  moreover have "\<not> connected w (brk w) p" by (rule fresh_not_used(6) [OF con])
  ultimately show ?thesis using True cs slots by (auto simp: connected_def slot_of_iff)
next
  case False
  then have slot: "slot_of w' t c \<longleftrightarrow> slot_of w t c" for c by (simp add: slot_of_def slots)
  have "dest_of w' c = dest_of w c" if "slot_of w t c" for c
    using old consistent_slot_bound [OF con that] by (simp add: dest_of_def)
  with False show ?thesis by (auto simp: connected_def slot)
qed

section \<open>Reachable worlds\<close>

text \<open>
  One step is one call of the library's interface on objects that are alive. A call of
  \<open>disconnect\<close> is a step when the signal has at most one connection to the object.
\<close>

inductive sig_step :: "('f, 'z) world_scheme \<Rightarrow> ('f, 'z) world_scheme \<Rightarrow> bool" where
  new_signal: "signal_new w = Some (Ret s, w') \<Longrightarrow> sig_step w w'"
| new_object: "has_slots_new w = Some (Ret ob, w') \<Longrightarrow> sig_step w w'"
| connect: "m_connected_slots w s = Some cs \<Longrightarrow> m_senders w ob = Some ss \<Longrightarrow>
     signal_connect s ob f w = Some (Ret u, w') \<Longrightarrow> sig_step w w'"
| disconnect: "m_connected_slots w s = Some cs \<Longrightarrow> m_senders w ob = Some ss \<Longrightarrow>
     connected_once w s ob \<Longrightarrow> signal_disconnect s ob w = Some (Ret u, w') \<Longrightarrow> sig_step w w'"
| disconnect_all: "m_connected_slots w s = Some cs \<Longrightarrow>
     signal_disconnect_all s w = Some (Ret u, w') \<Longrightarrow> sig_step w w'"
| copy_signal: "m_connected_slots w s = Some cs \<Longrightarrow>
     signal_copy s w = Some (Ret s', w') \<Longrightarrow> sig_step w w'"
| destroy_signal: "m_connected_slots w s = Some cs \<Longrightarrow>
     signal_destroy s w = Some (Ret u, w') \<Longrightarrow> sig_step w w'"
| object_disconnect_all: "m_senders w ob = Some ss \<Longrightarrow>
     has_slots_disconnect_all ob w = Some (Ret u, w') \<Longrightarrow> sig_step w w'"
| copy_object: "m_senders w ob = Some ss \<Longrightarrow>
     has_slots_copy ob w = Some (Ret ob', w') \<Longrightarrow> sig_step w w'"
| destroy_object: "m_senders w ob = Some ss \<Longrightarrow>
     has_slots_destroy ob w = Some (Ret u, w') \<Longrightarrow> sig_step w w'"

definition sig_start :: "('f, 'z) world_scheme \<Rightarrow> bool" where
  "sig_start w \<longleftrightarrow> conn_heap w = Map.empty \<and> m_connected_slots w = Map.empty \<and> m_senders w = Map.empty"

lemma sig_start_consistent: "sig_start w \<Longrightarrow> consistent w"
  by (simp add: sig_start_def consistent_defs slot_of_def dest_of_def connected_def)

lemma sig_step_consistent: "sig_step w w' \<Longrightarrow> consistent w \<Longrightarrow> consistent w'"
proof (induction rule: sig_step.induct)
  case (new_signal w s w')
  then have "w' = w\<lparr>brk := Suc (brk w), m_connected_slots := (m_connected_slots w)(brk w \<mapsto> [])\<rparr>"
    by (auto simp add: signal_new_def fresh_address_def set_slots_def prog_simps simp del: fun_upd_apply)
  with new_signal show ?case using consistent_new_object(2) by blast
next
  case (new_object w ob w')
  then have "w' = w\<lparr>brk := Suc (brk w), m_senders := (m_senders w)(brk w \<mapsto> [])\<rparr>"
    by (auto simp add: has_slots_new_def fresh_address_def set_senders_def prog_simps simp del: fun_upd_apply)
  with new_object show ?case using consistent_new_object(1) by blast
next
  case (connect w s cs ob ss f u w')
  then have "w' = with_connection s \<lparr>m_pobject = ob, m_pmemfun = f\<rparr> cs ss w"
    by (simp add: signal_connect_with)
  with connect show ?case using with_connection_links(1) by fastforce
next
  case (disconnect w s cs ob ss u w')
  then show ?case by (blast intro: signal_disconnect_consistent(1))
next
  case (disconnect_all w s cs u w')
  then show ?case by (blast intro: signal_disconnect_all_consistent(1))
next
  case (copy_signal w s cs s' w')
  with signal_copy_run [of w s cs] show ?case by auto
next
  case (destroy_signal w s cs u w')
  then show ?case by (blast intro: signal_destroy_consistent(1))
next
  case (object_disconnect_all w ob ss u w')
  then show ?case by (blast intro: has_slots_disconnect_all_consistent(1))
next
  case (copy_object w ob ss ob' w')
  with has_slots_copy_run [of w ob ss] show ?case by auto
next
  case (destroy_object w ob ss u w')
  then show ?case by (blast intro: has_slots_destroy_consistent(1))
qed

interpretation sigslot: invariant_system sig_start sig_step consistent
  by unfold_locales (auto intro: sig_start_consistent sig_step_consistent)

section \<open>Emission\<close>

text \<open>The slots of a signal called one after the other, with nothing in between.\<close>

fun run_slots :: "('f connection \<Rightarrow> (unit, 'f, 'z) sigprog) \<Rightarrow> 'f connection list \<Rightarrow> (unit, 'f, 'z) sigprog" where
  "run_slots call [] = returnp ()"
| "run_slots call (k # ks) = seqp (call k) (run_slots call ks)"

definition slots_alive :: "('f, 'z) world_scheme \<Rightarrow> nat list \<Rightarrow> bool" where
  "slots_alive w cs \<longleftrightarrow> (\<forall>c\<in>set cs. \<exists>k. conn_heap w c = Some k \<and> m_senders w (m_pobject k) \<noteq> None)"

definition connections_at :: "('f, 'z) world_scheme \<Rightarrow> nat list \<Rightarrow> 'f connection list" where
  "connections_at w cs = map (\<lambda>c. the (conn_heap w c)) cs"

lemma slots_alive_mono:
  "slots_alive w cs \<Longrightarrow> (\<And>c. c \<in> set cs \<Longrightarrow> conn_heap w' c = conn_heap w c) \<Longrightarrow>
     (\<And>p. m_senders w p \<noteq> None \<Longrightarrow> m_senders w' p \<noteq> None) \<Longrightarrow> slots_alive w' cs"
  unfolding slots_alive_def by metis

text \<open>
  What a slot must leave alone for the loop of \<open>emit\<close> to be safe: the connections that come
  after its own. It may disconnect itself and what was called before it.
\<close>

locale slot_calls =
  fixes call :: "'f connection \<Rightarrow> (unit, 'f, 'z) sigprog" and s :: nat
  assumes keeps_rest:
    "m_connected_slots w s = Some (pre @ c # rest) \<Longrightarrow> distinct (pre @ c # rest) \<Longrightarrow>
     conn_heap w c = Some k \<Longrightarrow> call k w = Some (Ret u, w') \<Longrightarrow> slots_alive w rest \<Longrightarrow>
     \<exists>pre'. m_connected_slots w' s = Some (pre' @ rest) \<and> distinct (pre' @ rest)
        \<and> slots_alive w' rest \<and> connections_at w' rest = connections_at w rest"
begin

lemma emit_loop_rest:
  assumes "m_connected_slots w s = Some (pre @ rest)" and "distinct (pre @ rest)"
    and "slots_alive w rest"
  shows "emit_loop call s (list_begin rest) w = run_slots call (connections_at w rest) w"
  using assms
proof (induction rest arbitrary: w pre)
  case Nil
  then show ?case by (simp add: emit_loop.simps list_begin_def connections_at_def)
next
  case (Cons c rest)
  then obtain k ss where k: "conn_heap w c = Some k" and ss: "m_senders w (m_pobject k) = Some ss"
    by (auto simp: slots_alive_def)
  have emit: "connection_emit call c w = call k w"
    using k ss by (simp add: connection_emit_def deref_connection_def prog_simps)
  have nxt: "list_next (pre @ c # rest) c = list_begin rest"
    using Cons.prems(2) by (intro list_next_append) auto
  have unfolded: "emit_loop call s (list_begin (c # rest)) w =
      (case call k w of
         None \<Rightarrow> None
       | Some (Ret u, w') \<Rightarrow> emit_loop call s (list_begin rest) w'
       | Some (Exit n, w') \<Rightarrow> Some (Exit n, w')
       | Some (Uncaught, w') \<Rightarrow> Some (Uncaught, w')
       | Some (Undefined u, w') \<Rightarrow> Some (Undefined u, w'))"
    using Cons.prems(1) emit nxt by (subst emit_loop.simps) simp
  have rest: "emit_loop call s (list_begin rest) w' = run_slots call (connections_at w rest) w'"
    if "call k w = Some (Ret u, w')" for u w'
  proof -
    from keeps_rest [OF Cons.prems(1,2) k that] Cons.prems(3) obtain pre' where
      "m_connected_slots w' s = Some (pre' @ rest)" "distinct (pre' @ rest)" "slots_alive w' rest"
      and same: "connections_at w' rest = connections_at w rest"
      by (auto simp: slots_alive_def)
    from Cons.IH [OF this(1-3)] same show ?thesis by simp
  qed
  have "connections_at w (c # rest) = k # connections_at w rest"
    using k by (simp add: connections_at_def)
  with unfolded rest show ?case
    by (auto simp: seqp_def bindp_def split: option.split prod.split outcome.split)
qed

text \<open>Emitting a signal calls each of its slots once, in the order of the list.\<close>

lemma emit_runs_slots:
  assumes "consistent w" and "m_connected_slots w s = Some cs"
  shows "signal_emit call s w = run_slots call (connections_at w cs) w"
proof -
  have "slots_alive w cs"
    unfolding slots_alive_def using consistent_slotD [OF assms] by fastforce
  then have "emit_loop call s (list_begin cs) w = run_slots call (connections_at w cs) w"
    using assms consistent_distinct [OF assms] by (intro emit_loop_rest [where pre = "[]"]) auto
  with assms(2) show ?thesis by (simp add: signal_emit_def prog_simps)
qed

end

text \<open>Most slots do not touch connections at all.\<close>

locale quiet_slots =
  fixes call :: "'f connection \<Rightarrow> (unit, 'f, 'z) sigprog" and s :: nat
  assumes quiet: "call k w = Some (Ret u, w') \<Longrightarrow>
     m_connected_slots w' s = m_connected_slots w s \<and> conn_heap w' = conn_heap w
     \<and> m_senders w' = m_senders w"

sublocale quiet_slots \<subseteq> slot_calls
proof
  fix w pre c rest k u w'
  assume "m_connected_slots w s = Some (pre @ c # rest)" and "distinct (pre @ c # rest)"
    and "call k w = Some (Ret u, w')" and "slots_alive w rest"
  with quiet show "\<exists>pre'. m_connected_slots w' s = Some (pre' @ rest) \<and> distinct (pre' @ rest)
        \<and> slots_alive w' rest \<and> connections_at w' rest = connections_at w rest"
    by (intro exI [of _ "pre @ [c]"]) (simp add: slots_alive_def connections_at_def)
qed

context quiet_slots
begin

lemma quiet_emission:
  "consistent w \<Longrightarrow> m_connected_slots w s = Some cs \<Longrightarrow>
     signal_emit call s w = run_slots call (connections_at w cs) w"
  by (rule emit_runs_slots)

end

text \<open>A slot that disconnects its own object is the case \<open>itNext\<close> is there for.\<close>

lemma disconnect_found:
  assumes "seqp (delete_connection c) (seqp (erase_node s c) (has_slots_signal_disconnect ob s)) w = Some (Ret u, w')"
    and "conn_heap w c = Some k" and "m_connected_slots w s = Some ds"
  shows "conn_heap w' = (conn_heap w)(c := None) \<and> m_connected_slots w' s = Some (remove1 c ds)
     \<and> (\<exists>ss. m_senders w' = (m_senders w)(ob \<mapsto> ss))"
proof (cases "m_senders w ob")
  case None
  with assms show ?thesis
    by (simp add: prog_simps has_slots_signal_disconnect_def get_senders_def bindp_def)
next
  case (Some ss)
  with assms have "w' = w\<lparr>conn_heap := (conn_heap w)(c := None),
      m_connected_slots := (m_connected_slots w)(s \<mapsto> remove1 c ds),
      m_senders := (m_senders w)(ob \<mapsto> removeAll s ss)\<rparr>"
    by (simp add: prog_simps)
  then show ?thesis by (intro conjI exI [of _ "removeAll s ss"]) simp_all
qed

lemma disconnect_loop_found:
  assumes "disconnect_loop s ob (pre @ c # rest) w = Some (Ret u, w')" and "dest_of w c = Some ob"
    and "m_connected_slots w s = Some ds"
  shows "\<exists>d\<in>set (pre @ [c]). conn_heap w' = (conn_heap w)(d := None)
     \<and> m_connected_slots w' s = Some (remove1 d ds)
     \<and> (\<exists>ss. m_senders w' = (m_senders w)(ob \<mapsto> ss))"
  using assms
proof (induction pre)
  case Nil
  from Nil.prems(2) obtain k where k: "conn_heap w c = Some k" "m_pobject k = ob" by (auto simp: dest_of_iff)
  with Nil.prems(1) have "seqp (delete_connection c) (seqp (erase_node s c) (has_slots_signal_disconnect ob s)) w
      = Some (Ret u, w')"
    by (simp add: bindp_run(1) [OF connection_getdest_run])
  from disconnect_found [OF this k(1) Nil.prems(3)] show ?case by (simp del: fun_upd_apply)
next
  case (Cons p pre)
  then obtain k where k: "conn_heap w p = Some k"
    by (auto simp: connection_getdest_def deref_connection_def bindp_def split: option.splits)
  show ?case
  proof (cases "m_pobject k = ob")
    case True
    with Cons.prems(1) k have "seqp (delete_connection p) (seqp (erase_node s p) (has_slots_signal_disconnect ob s)) w
        = Some (Ret u, w')"
      by (simp add: bindp_run(1) [OF connection_getdest_run])
    from disconnect_found [OF this k Cons.prems(3)] show ?thesis
      by (intro bexI [of _ p]) (simp_all del: fun_upd_apply)
  next
    case False
    with Cons k show ?thesis by (auto simp: prog_simps)
  qed
qed

interpretation self_disconnect: slot_calls "\<lambda>k. signal_disconnect s (m_pobject k)" s for s
proof
  fix w :: "('f, 'z) world_scheme" and pre c rest k u w'
  assume cs: "m_connected_slots w s = Some (pre @ c # rest)" and dist: "distinct (pre @ c # rest)"
    and k: "conn_heap w c = Some k" and run: "signal_disconnect s (m_pobject k) w = Some (Ret u, w')"
    and alive: "slots_alive w rest"
  have "disconnect_loop s (m_pobject k) (pre @ c # rest) w = Some (Ret u, w')"
    using run cs by (simp add: signal_disconnect_def prog_simps)
  from disconnect_loop_found [OF this _ cs] k obtain d ss where d: "d \<in> set (pre @ [c])"
    and w': "conn_heap w' = (conn_heap w)(d := None)"
      "m_connected_slots w' s = Some (remove1 d (pre @ c # rest))"
      "m_senders w' = (m_senders w)(m_pobject k \<mapsto> ss)"
    by (auto simp: dest_of_def)
  have "remove1 d (pre @ c # rest) = remove1 d (pre @ [c]) @ rest"
    using d remove1_append [of d "pre @ [c]" rest] by simp
  moreover have d_rest: "d \<notin> set rest" using d dist by auto
  moreover have "slots_alive w' rest"
    by (rule slots_alive_mono [OF alive]) (use w' d_rest in auto)
  ultimately show "\<exists>pre'. m_connected_slots w' s = Some (pre' @ rest) \<and> distinct (pre' @ rest)
        \<and> slots_alive w' rest \<and> connections_at w' rest = connections_at w rest"
    using w' dist distinct_remove1 [of "pre @ [c]" d] set_remove1_subset [of d "pre @ [c]"]
    by (intro exI [of _ "remove1 d (pre @ [c])"]) (auto simp: connections_at_def)
qed

end
