(* ===== verification/Sigslot_Properties.thy ===== *)
theory Sigslot_Properties
  imports Sigslot_System
begin

text \<open>
  What the signal/slot library guarantees to the rest of the program, and the one way to
  use it that breaks the guarantee. The examples run the operations on a small world.
\<close>

section \<open>An example world\<close>

text \<open>
  Signal 1 is connected to object 2 by connection 5; signal 3 and object 4 are not connected.
\<close>

definition sample :: "'f \<Rightarrow> 'f world" where
  "sample f = \<lparr>brk = 10, indet = (\<lambda>k i. 0), can_alloc = (\<lambda>n. True), string_limit = 4096, files = Map.empty,
     fds = Map.empty, fd_limit = 16, file_locks = [],
     conn_heap = [5 \<mapsto> \<lparr>m_pobject = 2, m_pmemfun = f\<rparr>],
     m_connected_slots = [1 \<mapsto> [5], 3 \<mapsto> []], m_senders = [2 \<mapsto> [1], 4 \<mapsto> []]\<rparr>"

lemma sample_fields [simp]:
  "brk (sample f) = 10" "conn_heap (sample f) = [5 \<mapsto> \<lparr>m_pobject = 2, m_pmemfun = f\<rparr>]"
  "m_connected_slots (sample f) = [1 \<mapsto> [5], 3 \<mapsto> []]" "m_senders (sample f) = [2 \<mapsto> [1], 4 \<mapsto> []]"
  by (simp_all add: sample_def)

lemma sample_links:
  "slot_of (sample f) s c \<longleftrightarrow> s = 1 \<and> c = 5"
  "dest_of (sample f) c = (if c = 5 then Some 2 else None)"
  "connected (sample f) s ob \<longleftrightarrow> s = 1 \<and> ob = 2"
  by (auto simp: slot_of_def dest_of_def connected_def)

lemma sample_consistent: "consistent (sample f)"
  unfolding consistent_def slots_allocated_def slots_disjoint_def no_leaks_def links_agree_def
    addresses_used_def sample_links
  by (auto split: if_splits)

definition empty_world :: "'f world" where
  "empty_world = (sample undefined)\<lparr>conn_heap := Map.empty, m_connected_slots := Map.empty, m_senders := Map.empty\<rparr>"

section \<open>The invariant\<close>

text \<open>
  C4: in every world that can be reached from one without signals and objects by calls of the
  library that name living signals and objects, and do not disconnect an object from a signal to
  which it is connected more than once (C40 shows what becomes of such an object), each listed connection is allocated, in one list only and its destination alive,
  and the set of senders of an object names exactly the signals that are connected to it.
\<close>

theorem reachable_worlds_consistent:
  assumes "sig_start w" and "sig_step\<^sup>*\<^sup>* w w'"
  shows "consistent w'"
  using assms by (rule sigslot.inv_reachable)

theorem reachable_worlds_consistent_witness:
  "\<exists>w' :: nat world. sig_step\<^sup>*\<^sup>* empty_world w' \<and> m_connected_slots w' \<noteq> Map.empty \<and> consistent w'"
proof -
  let ?w = "empty_world :: nat world"
  obtain w' s where run: "signal_new ?w = Some (Ret s, w')" and ne: "m_connected_slots w' \<noteq> Map.empty"
    by (simp add: signal_new_def fresh_address_def set_slots_def prog_simps)
  from run have steps: "sig_step\<^sup>*\<^sup>* ?w w'" by (blast intro: sig_step.new_signal)
  moreover have "sig_start ?w" by (simp add: sig_start_def empty_world_def)
  ultimately show ?thesis using ne reachable_worlds_consistent [of ?w w'] by blast
qed

section \<open>Connecting and disconnecting\<close>

text \<open>
  C12: connecting a living signal to a living object succeeds, keeps the invariant, and adds
  exactly this pair to the connected ones.
\<close>

theorem connect_adds_pair:
  assumes "consistent w" and "m_connected_slots w s = Some cs" and "m_senders w ob = Some ss"
  shows "\<exists>w'. signal_connect s ob f w = Some (Ret (), w') \<and> consistent w'
     \<and> (\<forall>t p. connected w' t p \<longleftrightarrow> connected w t p \<or> (t = s \<and> p = ob))"
proof -
  let ?k = "\<lparr>m_pobject = ob, m_pmemfun = f\<rparr>"
  have "m_senders w (m_pobject ?k) = Some ss" using assms(3) by simp
  from with_connection_links [OF assms(1,2) this] signal_connect_with [OF assms(2,3), of f]
  show ?thesis by simp
qed

theorem connect_adds_pair_witness:
  "\<exists>w'. signal_connect 3 2 (7::nat) (sample 7) = Some (Ret (), w') \<and> connected w' 3 2 \<and> connected w' 1 2"
  using connect_adds_pair [OF sample_consistent, of 7 3 "[]" 2 "[1]" 7] by (auto simp: sample_links)

text \<open>
  C13: disconnecting an object that a signal is connected to at most once removes exactly
  this pair and keeps the invariant.
\<close>

theorem disconnect_removes_pair:
  assumes con: "consistent w" and cs: "m_connected_slots w s = Some cs" and ss: "m_senders w ob = Some ss"
    and once: "connected_once w s ob"
  shows "\<exists>w'. signal_disconnect s ob w = Some (Ret (), w') \<and> consistent w'
     \<and> (\<forall>t p. connected w' t p \<longleftrightarrow> connected w t p \<and> \<not> (t = s \<and> p = ob))"
  using signal_disconnect_returns [OF con cs ss] signal_disconnect_consistent [OF con cs ss once] by blast

theorem disconnect_removes_pair_witness:
  "\<exists>w'. signal_disconnect 1 2 (sample (7::nat)) = Some (Ret (), w') \<and> \<not> connected w' 1 2"
proof -
  have "connected_once (sample (7::nat)) 1 2" by (simp add: connected_once_def sample_links)
  from disconnect_removes_pair [OF sample_consistent _ _ this, where cs = "[5]" and ss = "[1]"] show ?thesis by auto
qed

text \<open>
  \<open>disconnect_all\<close> of a signal succeeds, empties its list, and leaves all other pairs as
  they were.
\<close>

lemma disconnect_all_empties:
  assumes con: "consistent w" and cs: "m_connected_slots w s = Some cs"
  shows "\<exists>w'. signal_disconnect_all s w = Some (Ret (), w') \<and> consistent w'
     \<and> m_connected_slots w' s = Some []
     \<and> (\<forall>t p. connected w' t p \<longleftrightarrow> t \<noteq> s \<and> connected w t p)"
proof -
  obtain w' where w': "signal_disconnect_all s w = Some (Ret (), w')" "m_connected_slots w' s = Some []"
    using signal_disconnect_all_run [OF con cs] by simp
  with signal_disconnect_all_consistent [OF con cs w'(1)] show ?thesis by blast
qed

lemma disconnect_all_empties_witness:
  "\<exists>w'. signal_disconnect_all 1 (sample (7::nat)) = Some (Ret (), w') \<and> m_connected_slots w' 1 = Some []
     \<and> \<not> connected w' 1 2"
  using disconnect_all_empties [OF sample_consistent, of 7 1 "[5]"] by (auto simp: sample_links)

section \<open>Lifetimes\<close>

text \<open>
  C7: the destructor of an object with slots takes the object out of every signal: no
  connection to it is left anywhere, and all pairs of other objects are as they were.
\<close>

theorem destroyed_object_not_called:
  assumes con: "consistent w" and ss: "m_senders w ob = Some ss"
  shows "\<exists>w'. has_slots_destroy ob w = Some (Ret (), w') \<and> consistent w' \<and> m_senders w' ob = None
     \<and> (\<forall>c k. conn_heap w' c = Some k \<longrightarrow> m_pobject k \<noteq> ob)
     \<and> (\<forall>t p. connected w' t p \<longleftrightarrow> p \<noteq> ob \<and> connected w t p)"
proof -
  obtain w' where w': "has_slots_destroy ob w = Some (Ret (), w')"
    using has_slots_disconnect_all_run [OF con ss] by (simp add: has_slots_destroy_def prog_simps)
  note facts = has_slots_destroy_consistent [OF con ss w']
  have "m_pobject k \<noteq> ob" if "conn_heap w' c = Some k" for c k
    using facts(3) [of c] that by (simp add: dest_of_def)
  with w' facts show ?thesis by auto
qed

theorem destroyed_object_not_called_witness:
  "\<exists>w'. has_slots_destroy 2 (sample (7::nat)) = Some (Ret (), w') \<and> \<not> connected w' 1 2"
  using destroyed_object_not_called [OF sample_consistent, of 7 2 "[1]"] by auto

section \<open>Copies\<close>

text \<open>
  C10: copying an object with slots ends, although it appends to the lists it walks over, and
  the copy is connected to exactly the signals the original is connected to.
\<close>

theorem copied_object_connected:
  assumes "consistent w" and "m_senders w hs = Some ss"
  shows "\<exists>w'. has_slots_copy hs w = Some (Ret (brk w), w') \<and> consistent w'
     \<and> (\<forall>t p. connected w' t p \<longleftrightarrow> connected w t p \<or> (p = brk w \<and> connected w t hs))"
  using has_slots_copy_run [OF assms] by blast

theorem copied_object_connected_witness:
  "\<exists>w'. has_slots_copy 2 (sample (7::nat)) = Some (Ret 10, w') \<and> connected w' 1 10 \<and> \<not> connected w' 3 10"
  using copied_object_connected [OF sample_consistent, of 7 2 "[1]"] by (auto simp: sample_links)

text \<open>
  C11: the copy constructor of a signal makes a signal with the same connections in the same
  order, and registers the new signal with every destination.
\<close>

theorem copied_signal_connected:
  assumes con: "consistent w" and cs: "m_connected_slots w s = Some cs"
  shows "\<exists>w' ns. signal_copy s w = Some (Ret (brk w), w') \<and> consistent w'
     \<and> m_connected_slots w' (brk w) = Some ns \<and> connections_at w' ns = connections_at w cs
     \<and> (\<forall>t p. connected w' t p \<longleftrightarrow> connected w t p \<or> (t = brk w \<and> connected w s p))"
proof -
  from signal_copy_run [OF con cs] obtain w' ns where w': "signal_copy s w = Some (Ret (brk w), w')" "consistent w'"
    and slots: "m_connected_slots w' = (m_connected_slots w)(brk w \<mapsto> ns)"
    and ns: "map (conn_heap w') ns = map (conn_heap w) cs" and old: "\<forall>c<brk w. conn_heap w' c = conn_heap w c"
    by blast
  have "connections_at w' ns = connections_at w cs"
    using arg_cong [OF ns, of "map the"] by (simp add: connections_at_def comp_def)
  with w' slots signal_copy_connected [OF con cs slots ns old] show ?thesis by auto
qed

theorem copied_signal_connected_witness:
  "\<exists>w'. signal_copy 1 (sample (7::nat)) = Some (Ret 10, w') \<and> connected w' 10 2 \<and> connected w' 1 2"
  using copied_signal_connected [OF sample_consistent, of 7 1 "[5]"] by (auto simp: sample_links)

section \<open>Emission\<close>

text \<open>
  C6: when the slots leave the connections alone, emitting a signal calls each connected
  slot once, in the order of connection, stops where a slot stops, and never touches a dead
  connection or object.
\<close>

theorem emit_calls_slots_in_order:
  assumes "consistent w" and "m_connected_slots w s = Some cs"
    and "\<And>k u v v'. call k v = Some (Ret u, v') \<Longrightarrow> m_connected_slots v' s = m_connected_slots v s
       \<and> conn_heap v' = conn_heap v \<and> m_senders v' = m_senders v"
  shows "signal_emit call s w = run_slots call (connections_at w cs) w"
  by (rule quiet_slots.quiet_emission [OF quiet_slots.intro assms(1,2)]) (rule assms(3))

theorem emit_calls_slots_in_order_witness:
  "signal_emit (\<lambda>k. modifyp (\<lambda>w. w\<lparr>fd_limit := fd_limit w + m_pmemfun k\<rparr>)) 1 (sample 7)
     = Some (Ret (), (sample 7)\<lparr>fd_limit := 23\<rparr>)"
proof -
  have "signal_emit (\<lambda>k. modifyp (\<lambda>w. w\<lparr>fd_limit := fd_limit w + m_pmemfun k\<rparr>)) 1 (sample 7)
     = run_slots (\<lambda>k. modifyp (\<lambda>w. w\<lparr>fd_limit := fd_limit w + m_pmemfun k\<rparr>))
         (connections_at (sample 7) [5]) (sample 7)"
    by (rule emit_calls_slots_in_order [OF sample_consistent]) auto
  then show ?thesis by (simp add: connections_at_def prog_simps) (simp add: sample_def)
qed

text \<open>Slots that disconnect themselves, one after the other.\<close>

lemma disconnect_first:
  assumes con: "consistent w" and cs: "m_connected_slots w s = Some (c # rest)"
    and dist: "distinct (map m_pobject (connections_at w (c # rest)))"
  shows "\<exists>w'. signal_disconnect s (m_pobject (the (conn_heap w c))) w = Some (Ret (), w') \<and> consistent w'
     \<and> m_connected_slots w' s = Some rest \<and> connections_at w' rest = connections_at w rest"
proof -
  from consistent_slotD [OF con cs, of c] obtain k ss where k: "conn_heap w c = Some k" "m_senders w (m_pobject k) = Some ss"
    by auto
  have "c \<notin> set rest" using consistent_distinct [OF con cs] by simp
  then have same: "connections_at (w\<lparr>conn_heap := (conn_heap w)(c := None), m_connected_slots := x, m_senders := y\<rparr>) rest
      = connections_at w rest" for x y
    by (auto simp: connections_at_def)
  have "connected_once w s (m_pobject k)"
    unfolding connected_once_def slot_of_iff dest_of_iff
  proof (intro allI impI, elim exE conjE)
    fix a b ds es ka kb
    assume "m_connected_slots w s = Some ds" "a \<in> set ds" "m_connected_slots w s = Some es" "b \<in> set es"
      and heap: "conn_heap w a = Some ka" "m_pobject ka = m_pobject k" "conn_heap w b = Some kb" "m_pobject kb = m_pobject k"
    then have "a \<in> set (c # rest)" "b \<in> set (c # rest)" using cs by simp_all
    then show "a = b"
      using dist heap unfolding connections_at_def map_map comp_def
      by (metis (mono_tags, lifting) distinct_map inj_onD option.sel)
  qed
  note once = signal_disconnect_consistent(1) [OF con cs k(2) this]
  have "find (\<lambda>d. dest_of w d = Some (m_pobject k)) (c # rest) = Some c"
    using k(1) by (simp add: dest_of_def)
  then have run: "signal_disconnect s (m_pobject k) w = Some (Ret (),
      w\<lparr>conn_heap := (conn_heap w)(c := None), m_connected_slots := (m_connected_slots w)(s \<mapsto> rest),
        m_senders := (m_senders w)(m_pobject k \<mapsto> removeAll s ss)\<rparr>)"
    using disconnect_loop_run [OF consistent_allocated [OF con cs] cs k(2)]
    by (simp add: signal_disconnect_def bindp_def get_slots_run [OF cs])
  from once [OF run] run same k(1) show ?thesis by (auto simp del: fun_upd_apply) simp
qed

lemma run_self_disconnecting:
  assumes "consistent w" and "m_connected_slots w s = Some cs" and "distinct (map m_pobject (connections_at w cs))"
  shows "\<exists>w'. run_slots (\<lambda>k. signal_disconnect s (m_pobject k)) (connections_at w cs) w = Some (Ret (), w')
     \<and> consistent w' \<and> m_connected_slots w' s = Some []"
  using assms
proof (induction cs arbitrary: w)
  case Nil
  then show ?case by (simp add: connections_at_def)
next
  case (Cons c cs)
  from disconnect_first [OF Cons.prems] obtain v where
    v: "signal_disconnect s (m_pobject (the (conn_heap w c))) w = Some (Ret (), v)" "consistent v"
      "m_connected_slots v s = Some cs" "connections_at v cs = connections_at w cs" by blast
  moreover have "distinct (map m_pobject (connections_at v cs))"
    using Cons.prems(3) unfolding v(4) by (simp add: connections_at_def)
  ultimately obtain w' where
    "run_slots (\<lambda>k. signal_disconnect s (m_pobject k)) (connections_at v cs) v = Some (Ret (), w')"
    "consistent w'" "m_connected_slots w' s = Some []" using Cons.IH [of v] by blast
  moreover have "connections_at w (c # cs) = the (conn_heap w c) # connections_at w cs"
    by (simp add: connections_at_def)
  ultimately show ?case using v by (intro exI [of _ w']) (simp add: seqp_run)
qed

text \<open>
  C9: a slot may disconnect its own object while the signal is being emitted: the emission
  still reaches every slot, returns, and leaves the signal without connections.
\<close>

theorem emit_self_disconnecting:
  assumes "consistent w" and "m_connected_slots w s = Some cs" and "distinct (map m_pobject (connections_at w cs))"
  shows "\<exists>w'. signal_emit (\<lambda>k. signal_disconnect s (m_pobject k)) s w = Some (Ret (), w')
     \<and> consistent w' \<and> m_connected_slots w' s = Some []"
  using run_self_disconnecting [OF assms] self_disconnect.emit_runs_slots [OF assms(1,2)] by simp

theorem emit_self_disconnecting_witness:
  "\<exists>w'. signal_emit (\<lambda>k. signal_disconnect 1 (m_pobject k)) 1 (sample (7::nat)) = Some (Ret (), w')
     \<and> m_connected_slots w' 1 = Some []"
  using emit_self_disconnecting [OF sample_consistent, of 7 1 "[5]"] by (auto simp: connections_at_def)

section \<open>Connecting twice\<close>

text \<open>
  C40: \<open>disconnect\<close> removes one connection, but takes the signal out of the object's senders.
  After connecting an object twice and disconnecting it once, its destructor no longer
  finds the signal, and the next emission calls the dead object.
\<close>

theorem double_connect_dangles:
  assumes "m_connected_slots w s = Some []" and "m_senders w ob = Some []"
  shows "\<exists>w'. seqp (signal_connect s ob f) (seqp (signal_connect s ob g)
        (seqp (signal_disconnect s ob) (has_slots_destroy ob))) w = Some (Ret (), w')
     \<and> signal_emit call s w' = Some (Undefined Dangling_pointer, w')"
proof -
  let ?b = "brk w" and ?c = "Suc (brk w)"
  let ?w1 = "with_connection s \<lparr>m_pobject = ob, m_pmemfun = f\<rparr> [] [] w"
  let ?w2 = "with_connection s \<lparr>m_pobject = ob, m_pmemfun = g\<rparr> [?b] [s] ?w1"
  have c1: "signal_connect s ob f w = Some (Ret (), ?w1)"
    by (rule signal_connect_with [OF assms])
  have c2: "signal_connect s ob g ?w1 = Some (Ret (), ?w2)"
    by (rule signal_connect_with) (simp_all add: with_connection_def insort_insert_insort)
  have slots2: "m_connected_slots ?w2 s = Some [?b, ?c]" "m_senders ?w2 ob = Some [s]"
    by (simp_all add: with_connection_def insort_insert_triv)
  have heap2: "conn_heap ?w2 ?b = Some \<lparr>m_pobject = ob, m_pmemfun = f\<rparr>"
    "conn_heap ?w2 ?c = Some \<lparr>m_pobject = ob, m_pmemfun = g\<rparr>"
    by (simp_all add: with_connection_def)
  let ?w3 = "?w2\<lparr>conn_heap := (conn_heap ?w2)(?b := None), m_connected_slots := (m_connected_slots ?w2)(s \<mapsto> [?c]),
      m_senders := (m_senders ?w2)(ob \<mapsto> [])\<rparr>"
  have d: "signal_disconnect s ob ?w2 = Some (Ret (), ?w3)"
    using disconnect_loop_run [of "[?b, ?c]" ?w2 s "[?b, ?c]" ob "[s]"] slots2 heap2
    by (simp add: signal_disconnect_def bindp_def get_slots_run [OF slots2(1)] dest_of_def)
  let ?w4 = "?w3\<lparr>m_senders := (m_senders ?w3)(ob := None)\<rparr>"
  have "m_senders ?w3 ob = Some []" by simp
  then have x: "has_slots_destroy ob ?w3 = Some (Ret (), ?w4)"
    by (simp add: has_slots_destroy_def has_slots_disconnect_all_def set_senders_def prog_simps del: fun_upd_apply)
  have run: "seqp (signal_connect s ob f) (seqp (signal_connect s ob g)
        (seqp (signal_disconnect s ob) (has_slots_destroy ob))) w = Some (Ret (), ?w4)"
    by (rule seqp_step, rule c1, rule seqp_step, rule c2, rule seqp_step, rule d, rule x)
  have slots4: "m_connected_slots ?w4 s = Some [?c]" "conn_heap ?w4 ?c = Some \<lparr>m_pobject = ob, m_pmemfun = g\<rparr>"
    "m_senders ?w4 ob = None"
    using heap2 by simp_all
  have "connection_emit call ?c ?w4 = Some (Undefined Dangling_pointer, ?w4)"
    unfolding connection_emit_def deref_connection_def get_senders_def bindp_def slots4(2)
    by (simp only: option.case outcome.case prod.case connection.select_convs slots4(3))
  then have "emit_loop call s (Some ?c) ?w4 = Some (Undefined Dangling_pointer, ?w4)"
    by (subst emit_loop.simps) (simp only: option.case slots4(1), simp)
  then have "signal_emit call s ?w4 = Some (Undefined Dangling_pointer, ?w4)"
    unfolding signal_emit_def bindp_def get_slots_run [OF slots4(1)] by simp
  with run show ?thesis by blast
qed

theorem double_connect_dangles_witness:
  "\<exists>w'. seqp (signal_connect 3 4 7) (seqp (signal_connect 3 4 8)
        (seqp (signal_disconnect 3 4) (has_slots_destroy 4))) (sample (7::nat)) = Some (Ret (), w')
     \<and> signal_emit (\<lambda>k. returnp ()) 3 w' = Some (Undefined Dangling_pointer, w')"
  by (rule double_connect_dangles) simp_all

end
