(* ===== verification/Sigslot_Loops.thy ===== *)
theory Sigslot_Loops
  imports Sigslot_System
begin

text \<open>
  The three shapes of loop that \<open>sigslot.h\<close> repeats in each of its classes, as combinators
  over the body of the loop, and the loops of the common operations as instances of them.
\<close>

section \<open>A loop over the nodes a list has at its start\<close>

fun each_node :: "(nat \<Rightarrow> (unit, 's) prog) \<Rightarrow> nat list \<Rightarrow> (unit, 's) prog" where
  "each_node body [] = returnp ()"
| "each_node body (c # cs) = seqp (body c) (each_node body cs)"

section \<open>Loops over a list that may change\<close>

text \<open>\<open>while(it != itEnd) { body; ++it; }\<close>: the iterator is advanced in the list the body leaves.\<close>

partial_function (option) body_then_next ::
  "nat \<Rightarrow> (nat \<Rightarrow> (unit, 'f, 'z) sigprog) \<Rightarrow> nat option \<Rightarrow> (unit, 'f, 'z) sigprog" where
  "body_then_next s body it w =
     (case it of
        None \<Rightarrow> Some (Ret (), w)
      | Some c \<Rightarrow>
          (case body c w of
             None \<Rightarrow> None
           | Some (Ret u, w') \<Rightarrow>
               (case m_connected_slots w' s of
                  None \<Rightarrow> Some (Undefined Dangling_pointer, w')
                | Some cs \<Rightarrow> body_then_next s body (list_next cs c) w')
           | Some (Exit n, w') \<Rightarrow> Some (Exit n, w')
           | Some (Uncaught, w') \<Rightarrow> Some (Uncaught, w')
           | Some (Undefined u, w') \<Rightarrow> Some (Undefined u, w')))"

text \<open>
  \<open>while(it != itEnd) { itNext = it; ++itNext; body; it = itNext; }\<close>: the iterator must still
  denote a node when the loop comes to it.
\<close>

partial_function (option) next_then_body ::
  "nat \<Rightarrow> (nat \<Rightarrow> (unit, 'f, 'z) sigprog) \<Rightarrow> nat option \<Rightarrow> (unit, 'f, 'z) sigprog" where
  "next_then_body s body it w =
     (case it of
        None \<Rightarrow> Some (Ret (), w)
      | Some c \<Rightarrow>
          (case m_connected_slots w s of
             None \<Rightarrow> Some (Undefined Dangling_pointer, w)
           | Some cs \<Rightarrow>
               if c \<notin> set cs then Some (Undefined Dangling_pointer, w)
               else (let itNext = list_next cs c in
                 (case body c w of
                    None \<Rightarrow> None
                  | Some (Ret u, w') \<Rightarrow> next_then_body s body itNext w'
                  | Some (Exit n, w') \<Rightarrow> Some (Exit n, w')
                  | Some (Uncaught, w') \<Rightarrow> Some (Uncaught, w')
                  | Some (Undefined u, w') \<Rightarrow> Some (Undefined u, w')))))"

section \<open>The loops of the common operations\<close>

lemma option_pair_antisym:
  "(\<And>r w. f = Some (r, w) \<Longrightarrow> g = Some (r, w)) \<Longrightarrow> (\<And>r w. g = Some (r, w) \<Longrightarrow> f = Some (r, w)) \<Longrightarrow> f = g"
  by (metis option.exhaust surj_pair)

lemma emit_loop_shape: "emit_loop call s it = next_then_body s (connection_emit call) it"
proof (rule ext, rule option_pair_antisym)
  fix w r w'
  show "next_then_body s (connection_emit call) it w = Some (r, w')" if "emit_loop call s it w = Some (r, w')"
    using that
  proof (induction call s it w "(r, w')" arbitrary: r w' rule: emit_loop.raw_induct [rotated, consumes 1])
    case (1 f call s it w)
    then show ?case
      by (subst next_then_body.simps) (auto simp: Let_def split: option.splits prod.splits outcome.splits if_splits)
  qed
  show "emit_loop call s it w = Some (r, w')" if "next_then_body s (connection_emit call) it w = Some (r, w')"
    using that
  proof (induction s "connection_emit call" it w "(r, w')" arbitrary: r w' rule: next_then_body.raw_induct [rotated, consumes 1])
    case (1 f s it w)
    then show ?case
      by (subst emit_loop.simps) (auto simp: Let_def split: option.splits prod.splits outcome.splits if_splits)
  qed
qed

lemma slot_duplicate_loop_shape:
  "slot_duplicate_loop s old new it = body_then_next s (\<lambda>c. bindp (connection_getdest c) (\<lambda>dest.
     if dest = old then bindp (connection_duplicate c new) (push_back s) else returnp ())) it"
    (is "_ = body_then_next s (?body s old new) it")
proof (rule ext, rule option_pair_antisym)
  fix w r w'
  show "body_then_next s (?body s old new) it w = Some (r, w')" if "slot_duplicate_loop s old new it w = Some (r, w')"
    using that
  proof (induction s old new it w "(r, w')" arbitrary: r w' rule: slot_duplicate_loop.raw_induct [rotated, consumes 1])
    case (1 f s old new it w)
    then show ?case
      by (subst body_then_next.simps) (auto split: option.splits prod.splits outcome.splits)
  qed
  show "slot_duplicate_loop s old new it w = Some (r, w')" if "body_then_next s (?body s old new) it w = Some (r, w')"
    using that
  proof (induction s "?body s old new" it w "(r, w')" arbitrary: r w' rule: body_then_next.raw_induct [rotated, consumes 1])
    case (1 f s it w)
    then show ?case
      by (subst slot_duplicate_loop.simps) (auto split: option.splits prod.splits outcome.splits)
  qed
qed

end
