(* ===== verification/Sigslot_Policies.thy ===== *)
theory Sigslot_Policies
  imports Sigslot_System
begin

text \<open>
  The threading policies of \<open>sigslot.h\<close>. A signal and an object with slots inherit from the
  policy: it has a part in their constructors and destructors, and \<open>lock_block\<close> calls its
  \<open>lock\<close> and \<open>unlock\<close>. The header selects \<open>single_threaded\<close>; the policies for POSIX threads
  and for Win32 are the other branches of its conditional compilation.
\<close>

section \<open>What a policy does\<close>

text \<open>The objects that inherit from a policy, by their addresses.\<close>

datatype lockable = Sig nat | Obj nat

record 's mt_policy =
  construct :: "lockable \<Rightarrow> (unit, 's) prog"
  copy_construct :: "lockable \<Rightarrow> (unit, 's) prog"
  destruct :: "lockable \<Rightarrow> (unit, 's) prog"
  lock :: "lockable \<Rightarrow> (unit, 's) prog"
  unlock :: "lockable \<Rightarrow> (unit, 's) prog"

text \<open>
  The constructor of the block locks, the destructor unlocks when the scope is left. (It does
  not run when the process ends inside the block.)
\<close>

definition lock_block :: "'s mt_policy \<Rightarrow> lockable \<Rightarrow> ('a, 's) prog \<Rightarrow> ('a, 's) prog" where
  "lock_block P m_mutex body =
     seqp (lock P m_mutex) (bindp body (\<lambda>r. seqp (unlock P m_mutex) (returnp r)))"

section \<open>No threads\<close>

definition single_threaded_construct :: "lockable \<Rightarrow> (unit, 's) prog" where
  "single_threaded_construct this = returnp ()"

definition single_threaded_destruct :: "lockable \<Rightarrow> (unit, 's) prog" where
  "single_threaded_destruct this = returnp ()"

definition single_threaded_lock :: "lockable \<Rightarrow> (unit, 's) prog" where
  "single_threaded_lock this = returnp ()"

definition single_threaded_unlock :: "lockable \<Rightarrow> (unit, 's) prog" where
  "single_threaded_unlock this = returnp ()"

text \<open>The class declares no copy constructor: the implicit one has nothing to copy.\<close>

definition single_threaded :: "'s mt_policy" where
  "single_threaded =
     \<lparr>construct = single_threaded_construct, copy_construct = (\<lambda>_. returnp ()),
      destruct = single_threaded_destruct, lock = single_threaded_lock, unlock = single_threaded_unlock\<rparr>"

lemma single_threaded_simps [simp]:
  "construct single_threaded l = returnp ()" "copy_construct single_threaded l = returnp ()"
  "destruct single_threaded l = returnp ()" "lock single_threaded l = returnp ()"
  "unlock single_threaded l = returnp ()"
  by (simp_all add: single_threaded_def single_threaded_construct_def single_threaded_destruct_def
      single_threaded_lock_def single_threaded_unlock_def)

lemma bindp_return: "bindp m returnp = m"
  by (auto simp: fun_eq_iff bindp_def split: option.split prod.split outcome.split)

lemma lock_block_single_threaded [simp]: "lock_block single_threaded l body = body"
  by (simp add: lock_block_def bindp_return)

section \<open>Mutexes\<close>

text \<open>
  A mutex that is not set up, is free, or is held by the only thread, with the number of times
  it was locked. A policy uses one static mutex, or one in each object; the constructor of the
  global Win32 policy has a static flag. The events are there for the reasoning about threads.
\<close>

datatype mutex_state = Not_set_up | Unlocked | Locked nat

datatype mutex = Static_mutex | Mutex_of lockable

datatype lock_event = Acquire lockable | Release lockable

record lock_state =
  mutexes :: "mutex \<Rightarrow> mutex_state"
  isinitialised :: bool
  events :: "lock_event list"

record 'f locked_world = "'f world" +
  locks :: lock_state

type_synonym ('a, 'f, 'z) lockprog = "('a, ('f, 'z) locked_world_scheme) prog"

definition set_mutex :: "mutex \<Rightarrow> mutex_state \<Rightarrow> (unit, 'f, 'z) lockprog" where
  "set_mutex m st = modifyp (\<lambda>w. w\<lparr>locks := (locks w)\<lparr>mutexes := (mutexes (locks w))(m := st)\<rparr>\<rparr>)"

definition get_mutex :: "mutex \<Rightarrow> (mutex_state, 'f, 'z) lockprog" where
  "get_mutex m = getp (\<lambda>w. mutexes (locks w) m)"

section \<open>POSIX threads\<close>

text \<open>
  With default attributes, as on Linux: a mutex is set up once, locking it again in the thread
  that holds it waits for ever, and only a free mutex may be destroyed.
\<close>

definition pthread_mutex_init :: "mutex \<Rightarrow> (unit, 'f, 'z) lockprog" where
  "pthread_mutex_init m = bindp (get_mutex m) (\<lambda>st. case st of
       Not_set_up \<Rightarrow> set_mutex m Unlocked
     | Unlocked \<Rightarrow> undefp Mutex_misuse
     | Locked n \<Rightarrow> undefp Mutex_misuse)"

definition pthread_mutex_destroy :: "mutex \<Rightarrow> (unit, 'f, 'z) lockprog" where
  "pthread_mutex_destroy m = bindp (get_mutex m) (\<lambda>st. case st of
       Unlocked \<Rightarrow> set_mutex m Not_set_up
     | Not_set_up \<Rightarrow> undefp Mutex_misuse
     | Locked n \<Rightarrow> undefp Mutex_misuse)"

definition pthread_mutex_lock :: "mutex \<Rightarrow> (unit, 'f, 'z) lockprog" where
  "pthread_mutex_lock m = bindp (get_mutex m) (\<lambda>st. case st of
       Not_set_up \<Rightarrow> undefp Mutex_misuse
     | Unlocked \<Rightarrow> set_mutex m (Locked 1)
     | Locked n \<Rightarrow> (\<lambda>w. None))"

definition pthread_mutex_unlock :: "mutex \<Rightarrow> (unit, 'f, 'z) lockprog" where
  "pthread_mutex_unlock m = bindp (get_mutex m) (\<lambda>st. case st of
       Locked n \<Rightarrow> set_mutex m Unlocked
     | Not_set_up \<Rightarrow> undefp Mutex_misuse
     | Unlocked \<Rightarrow> undefp Mutex_misuse)"

definition posix_global :: "('f, 'z) locked_world_scheme mt_policy" where
  "posix_global =
     \<lparr>construct = (\<lambda>this. pthread_mutex_init Static_mutex), copy_construct = (\<lambda>this. returnp ()),
      destruct = (\<lambda>this. returnp ()), lock = (\<lambda>this. pthread_mutex_lock Static_mutex),
      unlock = (\<lambda>this. pthread_mutex_unlock Static_mutex)\<rparr>"

definition posix_local :: "('f, 'z) locked_world_scheme mt_policy" where
  "posix_local =
     \<lparr>construct = (\<lambda>this. pthread_mutex_init (Mutex_of this)),
      copy_construct = (\<lambda>this. pthread_mutex_init (Mutex_of this)),
      destruct = (\<lambda>this. pthread_mutex_destroy (Mutex_of this)),
      lock = (\<lambda>this. pthread_mutex_lock (Mutex_of this)),
      unlock = (\<lambda>this. pthread_mutex_unlock (Mutex_of this))\<rparr>"

section \<open>Win32 critical sections\<close>

text \<open>The thread that holds a critical section may enter it again, and leaves it as many times.\<close>

definition InitializeCriticalSection :: "mutex \<Rightarrow> (unit, 'f, 'z) lockprog" where
  "InitializeCriticalSection m = bindp (get_mutex m) (\<lambda>st. case st of
       Not_set_up \<Rightarrow> set_mutex m Unlocked
     | Unlocked \<Rightarrow> undefp Mutex_misuse
     | Locked n \<Rightarrow> undefp Mutex_misuse)"

definition DeleteCriticalSection :: "mutex \<Rightarrow> (unit, 'f, 'z) lockprog" where
  "DeleteCriticalSection m = bindp (get_mutex m) (\<lambda>st. case st of
       Unlocked \<Rightarrow> set_mutex m Not_set_up
     | Not_set_up \<Rightarrow> undefp Mutex_misuse
     | Locked n \<Rightarrow> undefp Mutex_misuse)"

definition EnterCriticalSection :: "mutex \<Rightarrow> (unit, 'f, 'z) lockprog" where
  "EnterCriticalSection m = bindp (get_mutex m) (\<lambda>st. case st of
       Not_set_up \<Rightarrow> undefp Mutex_misuse
     | Unlocked \<Rightarrow> set_mutex m (Locked 1)
     | Locked n \<Rightarrow> set_mutex m (Locked (Suc n)))"

definition LeaveCriticalSection :: "mutex \<Rightarrow> (unit, 'f, 'z) lockprog" where
  "LeaveCriticalSection m = bindp (get_mutex m) (\<lambda>st. case st of
       Locked n \<Rightarrow> set_mutex m (if n \<le> 1 then Unlocked else Locked (n - 1))
     | Not_set_up \<Rightarrow> undefp Mutex_misuse
     | Unlocked \<Rightarrow> undefp Mutex_misuse)"

definition win32_global_construct :: "lockable \<Rightarrow> (unit, 'f, 'z) lockprog" where
  "win32_global_construct this =
     bindp (getp (\<lambda>w. isinitialised (locks w))) (\<lambda>on.
     if \<not> on
     then seqp (InitializeCriticalSection Static_mutex)
         (modifyp (\<lambda>w. w\<lparr>locks := (locks w)\<lparr>isinitialised := True\<rparr>\<rparr>))
     else returnp ())"

definition win32_global :: "('f, 'z) locked_world_scheme mt_policy" where
  "win32_global =
     \<lparr>construct = win32_global_construct, copy_construct = (\<lambda>this. returnp ()),
      destruct = (\<lambda>this. returnp ()), lock = (\<lambda>this. EnterCriticalSection Static_mutex),
      unlock = (\<lambda>this. LeaveCriticalSection Static_mutex)\<rparr>"

definition win32_local :: "('f, 'z) locked_world_scheme mt_policy" where
  "win32_local =
     \<lparr>construct = (\<lambda>this. InitializeCriticalSection (Mutex_of this)),
      copy_construct = (\<lambda>this. InitializeCriticalSection (Mutex_of this)),
      destruct = (\<lambda>this. DeleteCriticalSection (Mutex_of this)),
      lock = (\<lambda>this. EnterCriticalSection (Mutex_of this)),
      unlock = (\<lambda>this. LeaveCriticalSection (Mutex_of this))\<rparr>"

section \<open>The policy that is compiled in\<close>

text \<open>What the header finds out about the platform, from the macros that are defined.\<close>

datatype thread_support = SINGLE_THREADED | HAS_WIN32_THREADS | HAS_POSIX_THREADS

definition thread_support :: "bool \<Rightarrow> bool \<Rightarrow> bool \<Rightarrow> bool \<Rightarrow> thread_support" where
  "thread_support PURE_ISO WIN32 GNUG USE_POSIX_THREADS =
     (if PURE_ISO \<or> (\<not> WIN32 \<and> \<not> GNUG \<and> \<not> USE_POSIX_THREADS) then SINGLE_THREADED
      else if WIN32 then HAS_WIN32_THREADS
      else if GNUG \<or> USE_POSIX_THREADS then HAS_POSIX_THREADS
      else SINGLE_THREADED)"

text \<open>The default policy; \<open>multi_threaded_local\<close> is another class on each platform.\<close>

definition default_mt_policy :: "thread_support \<Rightarrow> ('f, 'z) locked_world_scheme mt_policy" where
  "default_mt_policy support = (case support of
       SINGLE_THREADED \<Rightarrow> single_threaded
     | HAS_WIN32_THREADS \<Rightarrow> win32_local
     | HAS_POSIX_THREADS \<Rightarrow> posix_local)"

lemma pure_iso_single_threaded: "default_mt_policy (thread_support True win32 gnug posix) = single_threaded"
  by (simp add: default_mt_policy_def thread_support_def)

lemma gcc_default_local: "default_mt_policy (thread_support False False True posix) = posix_local"
  by (simp add: default_mt_policy_def thread_support_def)

section \<open>Objects with slots\<close>

text \<open>
  The operations of \<open>has_slots\<close> that call no signal, with the policy's part in them: the base
  class is constructed before the set of senders.
\<close>

type_synonym ('f, 'z) policy = "('f, 'z) world_scheme mt_policy"

definition locked_has_slots_new :: "('f, 'z) policy \<Rightarrow> (nat, 'f, 'z) sigprog" where
  "locked_has_slots_new P =
     bindp fresh_address (\<lambda>ob.
     seqp (construct P (Obj ob))
     (seqp (set_senders ob [])
     (returnp ob)))"

definition locked_signal_connect :: "('f, 'z) policy \<Rightarrow> nat \<Rightarrow> nat \<Rightarrow> (unit, 'f, 'z) sigprog" where
  "locked_signal_connect P ob sender = lock_block P (Obj ob) (has_slots_signal_connect ob sender)"

definition locked_signal_disconnect :: "('f, 'z) policy \<Rightarrow> nat \<Rightarrow> nat \<Rightarrow> (unit, 'f, 'z) sigprog" where
  "locked_signal_disconnect P ob sender = lock_block P (Obj ob) (has_slots_signal_disconnect ob sender)"

end
