(* ===== verification/Signal0.thy ===== *)
theory Signal0
  imports Sigslot_Loops Sigslot_Policies
begin

text \<open>
  The classes of \<open>sigslot.h\<close> for slots with no arguments: \<open>_connection0\<close>, \<open>_signal_base0\<close> and
  \<open>signal0\<close>, for any threading policy.
\<close>

named_theorems class_same "the operations of the classes with arguments are those of the classes without"

section \<open>_connection0\<close>

definition connection0_new :: "nat \<Rightarrow> 'f \<Rightarrow> (nat, 'f, 'z) sigprog" where
  "connection0_new pobject pmemfun =
     bindp fresh_address (\<lambda>c.
     seqp (modifyp (\<lambda>w. w\<lparr>conn_heap := (conn_heap w)(c \<mapsto>
             \<lparr>m_pobject = pobject, m_pmemfun = pmemfun\<rparr>)\<rparr>))
     (returnp c))"

definition connection0_destroy :: "nat \<Rightarrow> (unit, 'f, 'z) sigprog" where
  "connection0_destroy this =
     bindp (deref_connection this) (\<lambda>_. modifyp (\<lambda>w. w\<lparr>conn_heap := (conn_heap w)(this := None)\<rparr>))"

definition connection0_clone :: "nat \<Rightarrow> (nat, 'f, 'z) sigprog" where
  "connection0_clone this =
     bindp (deref_connection this) (\<lambda>k. connection0_new (m_pobject k) (m_pmemfun k))"

definition connection0_duplicate :: "nat \<Rightarrow> nat \<Rightarrow> (nat, 'f, 'z) sigprog" where
  "connection0_duplicate this pnewdest =
     bindp (deref_connection this) (\<lambda>k. connection0_new pnewdest (m_pmemfun k))"

definition connection0_emit ::
  "('f \<Rightarrow> nat \<Rightarrow> (unit, 'f, 'z) sigprog) \<Rightarrow> nat \<Rightarrow> (unit, 'f, 'z) sigprog" where
  "connection0_emit invoke this =
     bindp (deref_connection this) (\<lambda>k.
     bindp (get_senders (m_pobject k)) (\<lambda>_. invoke (m_pmemfun k) (m_pobject k)))"

definition connection0_getdest :: "nat \<Rightarrow> (nat, 'f, 'z) sigprog" where
  "connection0_getdest this = bindp (deref_connection this) (\<lambda>k. returnp (m_pobject k))"

section \<open>_signal_base0\<close>

definition signal_base0_new :: "('f, 'z) policy \<Rightarrow> (nat, 'f, 'z) sigprog" where
  "signal_base0_new P =
     bindp fresh_address (\<lambda>this.
     seqp (construct P (Sig this))
     (seqp (set_slots this [])
     (returnp this)))"

definition signal_base0_copy :: "('f, 'z) policy \<Rightarrow> nat \<Rightarrow> (nat, 'f, 'z) sigprog" where
  "signal_base0_copy P s =
     bindp fresh_address (\<lambda>this.
     seqp (copy_construct P (Sig this))
     (seqp (set_slots this [])
     (seqp
       (lock_block P (Sig this)
         (bindp (get_slots s)
         (each_node (\<lambda>it.
            bindp (connection0_getdest it) (\<lambda>dest.
            seqp (locked_signal_connect P dest this)
            (bindp (connection0_clone it) (push_back this)))))))
     (returnp this))))"

definition signal_base0_slot_duplicate :: "('f, 'z) policy \<Rightarrow> nat \<Rightarrow> nat \<Rightarrow> nat \<Rightarrow> (unit, 'f, 'z) sigprog" where
  "signal_base0_slot_duplicate P this oldtarget newtarget =
     lock_block P (Sig this)
       (bindp (get_slots this) (\<lambda>m_connected_slots.
        body_then_next this (\<lambda>it.
          bindp (connection0_getdest it) (\<lambda>dest.
          if dest = oldtarget then bindp (connection0_duplicate it newtarget) (push_back this)
          else returnp ()))
        (list_begin m_connected_slots)))"

definition signal_base0_disconnect_all :: "('f, 'z) policy \<Rightarrow> nat \<Rightarrow> (unit, 'f, 'z) sigprog" where
  "signal_base0_disconnect_all P this =
     lock_block P (Sig this)
       (bindp (get_slots this) (\<lambda>m_connected_slots.
        seqp
          (each_node (\<lambda>it.
             bindp (connection0_getdest it) (\<lambda>dest.
             seqp (locked_signal_disconnect P dest this)
             (connection0_destroy it)))
          m_connected_slots)
        (set_slots this [])))"

definition signal_base0_destroy :: "('f, 'z) policy \<Rightarrow> nat \<Rightarrow> (unit, 'f, 'z) sigprog" where
  "signal_base0_destroy P this =
     seqp (signal_base0_disconnect_all P this)
     (seqp (modifyp (\<lambda>w. w\<lparr>m_connected_slots := (m_connected_slots w)(this := None)\<rparr>))
     (destruct P (Sig this)))"

fun signal_base0_disconnect_loop :: "('f, 'z) policy \<Rightarrow> nat \<Rightarrow> nat \<Rightarrow> nat list \<Rightarrow> (unit, 'f, 'z) sigprog" where
  "signal_base0_disconnect_loop P this pclass [] = returnp ()"
| "signal_base0_disconnect_loop P this pclass (it # its) =
     bindp (connection0_getdest it) (\<lambda>dest.
     if dest = pclass
     then seqp (connection0_destroy it)
         (seqp (erase_node this it)
         (locked_signal_disconnect P pclass this))
     else signal_base0_disconnect_loop P this pclass its)"

definition signal_base0_disconnect :: "('f, 'z) policy \<Rightarrow> nat \<Rightarrow> nat \<Rightarrow> (unit, 'f, 'z) sigprog" where
  "signal_base0_disconnect P this pclass =
     lock_block P (Sig this)
       (bindp (get_slots this) (signal_base0_disconnect_loop P this pclass))"

definition signal_base0_slot_disconnect :: "('f, 'z) policy \<Rightarrow> nat \<Rightarrow> nat \<Rightarrow> (unit, 'f, 'z) sigprog" where
  "signal_base0_slot_disconnect P this pslot =
     lock_block P (Sig this)
       (bindp (get_slots this)
       (each_node (\<lambda>it.
          bindp (connection0_getdest it) (\<lambda>dest.
          if dest = pslot then seqp (connection0_destroy it) (erase_node this it)
          else returnp ()))))"

section \<open>signal0\<close>

definition signal0_new :: "('f, 'z) policy \<Rightarrow> (nat, 'f, 'z) sigprog" where
  "signal0_new P = signal_base0_new P"

definition signal0_copy :: "('f, 'z) policy \<Rightarrow> nat \<Rightarrow> (nat, 'f, 'z) sigprog" where
  "signal0_copy P s = signal_base0_copy P s"

definition signal0_destroy :: "('f, 'z) policy \<Rightarrow> nat \<Rightarrow> (unit, 'f, 'z) sigprog" where
  "signal0_destroy P this = signal_base0_destroy P this"

definition signal0_connect :: "('f, 'z) policy \<Rightarrow> nat \<Rightarrow> nat \<Rightarrow> 'f \<Rightarrow> (unit, 'f, 'z) sigprog" where
  "signal0_connect P this pclass pmemfun =
     lock_block P (Sig this)
       (bindp (connection0_new pclass pmemfun) (\<lambda>conn.
        seqp (push_back this conn)
        (locked_signal_connect P pclass this)))"

definition signal0_emit ::
  "('f, 'z) policy \<Rightarrow> ('f \<Rightarrow> nat \<Rightarrow> (unit, 'f, 'z) sigprog) \<Rightarrow> nat \<Rightarrow> (unit, 'f, 'z) sigprog" where
  "signal0_emit P invoke this =
     lock_block P (Sig this)
       (bindp (get_slots this) (\<lambda>m_connected_slots.
        next_then_body this (\<lambda>it. connection0_emit invoke it)
          (list_begin m_connected_slots)))"

definition signal0_call ::
  "('f, 'z) policy \<Rightarrow> ('f \<Rightarrow> nat \<Rightarrow> (unit, 'f, 'z) sigprog) \<Rightarrow> nat \<Rightarrow> (unit, 'f, 'z) sigprog" where
  "signal0_call P invoke this =
     lock_block P (Sig this)
       (bindp (get_slots this) (\<lambda>m_connected_slots.
        next_then_body this (\<lambda>it. connection0_emit invoke it)
          (list_begin m_connected_slots)))"

lemma signal0_call_same [class_same]: "signal0_call P invoke s = signal0_emit P invoke s"
  by (simp add: signal0_call_def signal0_emit_def)

end
