(* ===== verification/Signal1.thy ===== *)
theory Signal1
  imports Signal0
begin

text \<open>
  The classes of \<open>sigslot.h\<close> for slots with one argument: \<open>_connection1\<close>, \<open>_signal_base1\<close> and
  \<open>signal1\<close>, for any threading policy. Each operation is the one of the classes without arguments.
\<close>

section \<open>_connection1\<close>

definition connection1_new :: "nat \<Rightarrow> 'f \<Rightarrow> (nat, 'f, 'z) sigprog" where
  "connection1_new pobject pmemfun =
     bindp fresh_address (\<lambda>c.
     seqp (modifyp (\<lambda>w. w\<lparr>conn_heap := (conn_heap w)(c \<mapsto>
             \<lparr>m_pobject = pobject, m_pmemfun = pmemfun\<rparr>)\<rparr>))
     (returnp c))"

definition connection1_destroy :: "nat \<Rightarrow> (unit, 'f, 'z) sigprog" where
  "connection1_destroy this =
     bindp (deref_connection this) (\<lambda>_. modifyp (\<lambda>w. w\<lparr>conn_heap := (conn_heap w)(this := None)\<rparr>))"

definition connection1_clone :: "nat \<Rightarrow> (nat, 'f, 'z) sigprog" where
  "connection1_clone this =
     bindp (deref_connection this) (\<lambda>k. connection1_new (m_pobject k) (m_pmemfun k))"

definition connection1_duplicate :: "nat \<Rightarrow> nat \<Rightarrow> (nat, 'f, 'z) sigprog" where
  "connection1_duplicate this pnewdest =
     bindp (deref_connection this) (\<lambda>k. connection1_new pnewdest (m_pmemfun k))"

definition connection1_emit ::
  "('f \<Rightarrow> nat \<Rightarrow> 'a1 \<Rightarrow> (unit, 'f, 'z) sigprog) \<Rightarrow> nat \<Rightarrow> 'a1 \<Rightarrow> (unit, 'f, 'z) sigprog" where
  "connection1_emit invoke this a1 =
     bindp (deref_connection this) (\<lambda>k.
     bindp (get_senders (m_pobject k)) (\<lambda>_. invoke (m_pmemfun k) (m_pobject k) a1))"

definition connection1_getdest :: "nat \<Rightarrow> (nat, 'f, 'z) sigprog" where
  "connection1_getdest this = bindp (deref_connection this) (\<lambda>k. returnp (m_pobject k))"

section \<open>_signal_base1\<close>

definition signal_base1_new :: "('f, 'z) policy \<Rightarrow> (nat, 'f, 'z) sigprog" where
  "signal_base1_new P =
     bindp fresh_address (\<lambda>this.
     seqp (construct P (Sig this))
     (seqp (set_slots this [])
     (returnp this)))"

definition signal_base1_copy :: "('f, 'z) policy \<Rightarrow> nat \<Rightarrow> (nat, 'f, 'z) sigprog" where
  "signal_base1_copy P s =
     bindp fresh_address (\<lambda>this.
     seqp (copy_construct P (Sig this))
     (seqp (set_slots this [])
     (seqp
       (lock_block P (Sig this)
         (bindp (get_slots s)
         (each_node (\<lambda>it.
            bindp (connection1_getdest it) (\<lambda>dest.
            seqp (locked_signal_connect P dest this)
            (bindp (connection1_clone it) (push_back this)))))))
     (returnp this))))"

definition signal_base1_slot_duplicate :: "('f, 'z) policy \<Rightarrow> nat \<Rightarrow> nat \<Rightarrow> nat \<Rightarrow> (unit, 'f, 'z) sigprog" where
  "signal_base1_slot_duplicate P this oldtarget newtarget =
     lock_block P (Sig this)
       (bindp (get_slots this) (\<lambda>m_connected_slots.
        body_then_next this (\<lambda>it.
          bindp (connection1_getdest it) (\<lambda>dest.
          if dest = oldtarget then bindp (connection1_duplicate it newtarget) (push_back this)
          else returnp ()))
        (list_begin m_connected_slots)))"

definition signal_base1_disconnect_all :: "('f, 'z) policy \<Rightarrow> nat \<Rightarrow> (unit, 'f, 'z) sigprog" where
  "signal_base1_disconnect_all P this =
     lock_block P (Sig this)
       (bindp (get_slots this) (\<lambda>m_connected_slots.
        seqp
          (each_node (\<lambda>it.
             bindp (connection1_getdest it) (\<lambda>dest.
             seqp (locked_signal_disconnect P dest this)
             (connection1_destroy it)))
          m_connected_slots)
        (set_slots this [])))"

definition signal_base1_destroy :: "('f, 'z) policy \<Rightarrow> nat \<Rightarrow> (unit, 'f, 'z) sigprog" where
  "signal_base1_destroy P this =
     seqp (signal_base1_disconnect_all P this)
     (seqp (modifyp (\<lambda>w. w\<lparr>m_connected_slots := (m_connected_slots w)(this := None)\<rparr>))
     (destruct P (Sig this)))"

fun signal_base1_disconnect_loop :: "('f, 'z) policy \<Rightarrow> nat \<Rightarrow> nat \<Rightarrow> nat list \<Rightarrow> (unit, 'f, 'z) sigprog" where
  "signal_base1_disconnect_loop P this pclass [] = returnp ()"
| "signal_base1_disconnect_loop P this pclass (it # its) =
     bindp (connection1_getdest it) (\<lambda>dest.
     if dest = pclass
     then seqp (connection1_destroy it)
         (seqp (erase_node this it)
         (locked_signal_disconnect P pclass this))
     else signal_base1_disconnect_loop P this pclass its)"

definition signal_base1_disconnect :: "('f, 'z) policy \<Rightarrow> nat \<Rightarrow> nat \<Rightarrow> (unit, 'f, 'z) sigprog" where
  "signal_base1_disconnect P this pclass =
     lock_block P (Sig this)
       (bindp (get_slots this) (signal_base1_disconnect_loop P this pclass))"

definition signal_base1_slot_disconnect :: "('f, 'z) policy \<Rightarrow> nat \<Rightarrow> nat \<Rightarrow> (unit, 'f, 'z) sigprog" where
  "signal_base1_slot_disconnect P this pslot =
     lock_block P (Sig this)
       (bindp (get_slots this)
       (each_node (\<lambda>it.
          bindp (connection1_getdest it) (\<lambda>dest.
          if dest = pslot then seqp (connection1_destroy it) (erase_node this it)
          else returnp ()))))"

section \<open>signal1\<close>

definition signal1_new :: "('f, 'z) policy \<Rightarrow> (nat, 'f, 'z) sigprog" where
  "signal1_new P = signal_base1_new P"

definition signal1_copy :: "('f, 'z) policy \<Rightarrow> nat \<Rightarrow> (nat, 'f, 'z) sigprog" where
  "signal1_copy P s = signal_base1_copy P s"

definition signal1_destroy :: "('f, 'z) policy \<Rightarrow> nat \<Rightarrow> (unit, 'f, 'z) sigprog" where
  "signal1_destroy P this = signal_base1_destroy P this"

definition signal1_connect :: "('f, 'z) policy \<Rightarrow> nat \<Rightarrow> nat \<Rightarrow> 'f \<Rightarrow> (unit, 'f, 'z) sigprog" where
  "signal1_connect P this pclass pmemfun =
     lock_block P (Sig this)
       (bindp (connection1_new pclass pmemfun) (\<lambda>conn.
        seqp (push_back this conn)
        (locked_signal_connect P pclass this)))"

definition signal1_emit ::
  "('f, 'z) policy \<Rightarrow> ('f \<Rightarrow> nat \<Rightarrow> 'a1 \<Rightarrow> (unit, 'f, 'z) sigprog) \<Rightarrow> nat \<Rightarrow> 'a1 \<Rightarrow> (unit, 'f, 'z) sigprog" where
  "signal1_emit P invoke this a1 =
     lock_block P (Sig this)
       (bindp (get_slots this) (\<lambda>m_connected_slots.
        next_then_body this (\<lambda>it. connection1_emit invoke it a1)
          (list_begin m_connected_slots)))"

definition signal1_call ::
  "('f, 'z) policy \<Rightarrow> ('f \<Rightarrow> nat \<Rightarrow> 'a1 \<Rightarrow> (unit, 'f, 'z) sigprog) \<Rightarrow> nat \<Rightarrow> 'a1 \<Rightarrow> (unit, 'f, 'z) sigprog" where
  "signal1_call P invoke this a1 =
     lock_block P (Sig this)
       (bindp (get_slots this) (\<lambda>m_connected_slots.
        next_then_body this (\<lambda>it. connection1_emit invoke it a1)
          (list_begin m_connected_slots)))"

section \<open>The same as the classes without arguments\<close>

lemma connection1_same:
  "connection1_new = connection0_new" "connection1_clone = connection0_clone"
  "connection1_duplicate = connection0_duplicate" "connection1_getdest = connection0_getdest"
  "connection1_destroy = connection0_destroy"
  unfolding fun_eq_iff connection1_new_def connection0_new_def connection1_clone_def connection0_clone_def
    connection1_duplicate_def connection0_duplicate_def connection1_getdest_def connection0_getdest_def
    connection1_destroy_def connection0_destroy_def
  by simp_all

lemma connection1_emit_same:
  "connection1_emit invoke this a1 = connection0_emit (\<lambda>f ob. invoke f ob a1) this"
  by (simp add: connection1_emit_def connection0_emit_def)

lemma signal_base1_disconnect_loop_same:
  "signal_base1_disconnect_loop P this pclass = signal_base0_disconnect_loop P this pclass"
proof
  fix its
  show "signal_base1_disconnect_loop P this pclass its = signal_base0_disconnect_loop P this pclass its"
    by (induction its) (simp_all add: connection1_same cong: if_cong)
qed

lemma signal_base1_same [class_same]:
  "signal1_new P = signal0_new P" "signal1_copy P s = signal0_copy P s"
  "signal1_destroy P s = signal0_destroy P s" "signal1_connect P s ob f = signal0_connect P s ob f"
  "signal_base1_disconnect_all P s = signal_base0_disconnect_all P s"
  "signal_base1_disconnect P s ob = signal_base0_disconnect P s ob"
  "signal_base1_slot_disconnect P s ob = signal_base0_slot_disconnect P s ob"
  "signal_base1_slot_duplicate P s old new = signal_base0_slot_duplicate P s old new"
  by (simp_all add: signal1_new_def signal0_new_def signal_base1_new_def signal_base0_new_def
      signal1_copy_def signal0_copy_def signal_base1_copy_def signal_base0_copy_def
      signal1_destroy_def signal0_destroy_def signal_base1_destroy_def signal_base0_destroy_def
      signal1_connect_def signal0_connect_def signal_base1_disconnect_all_def signal_base0_disconnect_all_def
      signal_base1_disconnect_def signal_base0_disconnect_def
      signal_base1_slot_disconnect_def signal_base0_slot_disconnect_def
      signal_base1_slot_duplicate_def signal_base0_slot_duplicate_def
      signal_base1_disconnect_loop_same connection1_same cong: if_cong)

lemma signal1_emit_same [class_same]:
  "signal1_emit P invoke s a1 = signal0_emit P (\<lambda>f ob. invoke f ob a1) s"
  "signal1_call P invoke s a1 = signal0_emit P (\<lambda>f ob. invoke f ob a1) s"
  by (simp_all add: signal1_emit_def signal1_call_def signal0_emit_def connection1_emit_same)

end
