(* ===== verification/Signal2.thy ===== *)
theory Signal2
  imports Signal0
begin

text \<open>
  The classes of \<open>sigslot.h\<close> for slots with two arguments: \<open>_connection2\<close>, \<open>_signal_base2\<close> and
  \<open>signal2\<close>, for any threading policy. Each operation is the one of the classes without arguments.
\<close>

section \<open>_connection2\<close>

definition connection2_new :: "nat \<Rightarrow> 'f \<Rightarrow> (nat, 'f, 'z) sigprog" where
  "connection2_new pobject pmemfun =
     bindp fresh_address (\<lambda>c.
     seqp (modifyp (\<lambda>w. w\<lparr>conn_heap := (conn_heap w)(c \<mapsto>
             \<lparr>m_pobject = pobject, m_pmemfun = pmemfun\<rparr>)\<rparr>))
     (returnp c))"

definition connection2_destroy :: "nat \<Rightarrow> (unit, 'f, 'z) sigprog" where
  "connection2_destroy this =
     bindp (deref_connection this) (\<lambda>_. modifyp (\<lambda>w. w\<lparr>conn_heap := (conn_heap w)(this := None)\<rparr>))"

definition connection2_clone :: "nat \<Rightarrow> (nat, 'f, 'z) sigprog" where
  "connection2_clone this =
     bindp (deref_connection this) (\<lambda>k. connection2_new (m_pobject k) (m_pmemfun k))"

definition connection2_duplicate :: "nat \<Rightarrow> nat \<Rightarrow> (nat, 'f, 'z) sigprog" where
  "connection2_duplicate this pnewdest =
     bindp (deref_connection this) (\<lambda>k. connection2_new pnewdest (m_pmemfun k))"

definition connection2_emit ::
  "('f \<Rightarrow> nat \<Rightarrow> 'a1 \<Rightarrow> 'a2 \<Rightarrow> (unit, 'f, 'z) sigprog) \<Rightarrow> nat \<Rightarrow> 'a1 \<Rightarrow> 'a2 \<Rightarrow> (unit, 'f, 'z) sigprog" where
  "connection2_emit invoke this a1 a2 =
     bindp (deref_connection this) (\<lambda>k.
     bindp (get_senders (m_pobject k)) (\<lambda>_. invoke (m_pmemfun k) (m_pobject k) a1 a2))"

definition connection2_getdest :: "nat \<Rightarrow> (nat, 'f, 'z) sigprog" where
  "connection2_getdest this = bindp (deref_connection this) (\<lambda>k. returnp (m_pobject k))"

section \<open>_signal_base2\<close>

definition signal_base2_new :: "('f, 'z) policy \<Rightarrow> (nat, 'f, 'z) sigprog" where
  "signal_base2_new P =
     bindp fresh_address (\<lambda>this.
     seqp (construct P (Sig this))
     (seqp (set_slots this [])
     (returnp this)))"

definition signal_base2_copy :: "('f, 'z) policy \<Rightarrow> nat \<Rightarrow> (nat, 'f, 'z) sigprog" where
  "signal_base2_copy P s =
     bindp fresh_address (\<lambda>this.
     seqp (copy_construct P (Sig this))
     (seqp (set_slots this [])
     (seqp
       (lock_block P (Sig this)
         (bindp (get_slots s)
         (each_node (\<lambda>it.
            bindp (connection2_getdest it) (\<lambda>dest.
            seqp (locked_signal_connect P dest this)
            (bindp (connection2_clone it) (push_back this)))))))
     (returnp this))))"

definition signal_base2_slot_duplicate :: "('f, 'z) policy \<Rightarrow> nat \<Rightarrow> nat \<Rightarrow> nat \<Rightarrow> (unit, 'f, 'z) sigprog" where
  "signal_base2_slot_duplicate P this oldtarget newtarget =
     lock_block P (Sig this)
       (bindp (get_slots this) (\<lambda>m_connected_slots.
        body_then_next this (\<lambda>it.
          bindp (connection2_getdest it) (\<lambda>dest.
          if dest = oldtarget then bindp (connection2_duplicate it newtarget) (push_back this)
          else returnp ()))
        (list_begin m_connected_slots)))"

definition signal_base2_disconnect_all :: "('f, 'z) policy \<Rightarrow> nat \<Rightarrow> (unit, 'f, 'z) sigprog" where
  "signal_base2_disconnect_all P this =
     lock_block P (Sig this)
       (bindp (get_slots this) (\<lambda>m_connected_slots.
        seqp
          (each_node (\<lambda>it.
             bindp (connection2_getdest it) (\<lambda>dest.
             seqp (locked_signal_disconnect P dest this)
             (connection2_destroy it)))
          m_connected_slots)
        (set_slots this [])))"

definition signal_base2_destroy :: "('f, 'z) policy \<Rightarrow> nat \<Rightarrow> (unit, 'f, 'z) sigprog" where
  "signal_base2_destroy P this =
     seqp (signal_base2_disconnect_all P this)
     (seqp (modifyp (\<lambda>w. w\<lparr>m_connected_slots := (m_connected_slots w)(this := None)\<rparr>))
     (destruct P (Sig this)))"

fun signal_base2_disconnect_loop :: "('f, 'z) policy \<Rightarrow> nat \<Rightarrow> nat \<Rightarrow> nat list \<Rightarrow> (unit, 'f, 'z) sigprog" where
  "signal_base2_disconnect_loop P this pclass [] = returnp ()"
| "signal_base2_disconnect_loop P this pclass (it # its) =
     bindp (connection2_getdest it) (\<lambda>dest.
     if dest = pclass
     then seqp (connection2_destroy it)
         (seqp (erase_node this it)
         (locked_signal_disconnect P pclass this))
     else signal_base2_disconnect_loop P this pclass its)"

definition signal_base2_disconnect :: "('f, 'z) policy \<Rightarrow> nat \<Rightarrow> nat \<Rightarrow> (unit, 'f, 'z) sigprog" where
  "signal_base2_disconnect P this pclass =
     lock_block P (Sig this)
       (bindp (get_slots this) (signal_base2_disconnect_loop P this pclass))"

definition signal_base2_slot_disconnect :: "('f, 'z) policy \<Rightarrow> nat \<Rightarrow> nat \<Rightarrow> (unit, 'f, 'z) sigprog" where
  "signal_base2_slot_disconnect P this pslot =
     lock_block P (Sig this)
       (bindp (get_slots this)
       (each_node (\<lambda>it.
          bindp (connection2_getdest it) (\<lambda>dest.
          if dest = pslot then seqp (connection2_destroy it) (erase_node this it)
          else returnp ()))))"

section \<open>signal2\<close>

definition signal2_new :: "('f, 'z) policy \<Rightarrow> (nat, 'f, 'z) sigprog" where
  "signal2_new P = signal_base2_new P"

definition signal2_copy :: "('f, 'z) policy \<Rightarrow> nat \<Rightarrow> (nat, 'f, 'z) sigprog" where
  "signal2_copy P s = signal_base2_copy P s"

definition signal2_destroy :: "('f, 'z) policy \<Rightarrow> nat \<Rightarrow> (unit, 'f, 'z) sigprog" where
  "signal2_destroy P this = signal_base2_destroy P this"

definition signal2_connect :: "('f, 'z) policy \<Rightarrow> nat \<Rightarrow> nat \<Rightarrow> 'f \<Rightarrow> (unit, 'f, 'z) sigprog" where
  "signal2_connect P this pclass pmemfun =
     lock_block P (Sig this)
       (bindp (connection2_new pclass pmemfun) (\<lambda>conn.
        seqp (push_back this conn)
        (locked_signal_connect P pclass this)))"

definition signal2_emit ::
  "('f, 'z) policy \<Rightarrow> ('f \<Rightarrow> nat \<Rightarrow> 'a1 \<Rightarrow> 'a2 \<Rightarrow> (unit, 'f, 'z) sigprog) \<Rightarrow> nat \<Rightarrow> 'a1 \<Rightarrow> 'a2 \<Rightarrow> (unit, 'f, 'z) sigprog" where
  "signal2_emit P invoke this a1 a2 =
     lock_block P (Sig this)
       (bindp (get_slots this) (\<lambda>m_connected_slots.
        next_then_body this (\<lambda>it. connection2_emit invoke it a1 a2)
          (list_begin m_connected_slots)))"

definition signal2_call ::
  "('f, 'z) policy \<Rightarrow> ('f \<Rightarrow> nat \<Rightarrow> 'a1 \<Rightarrow> 'a2 \<Rightarrow> (unit, 'f, 'z) sigprog) \<Rightarrow> nat \<Rightarrow> 'a1 \<Rightarrow> 'a2 \<Rightarrow> (unit, 'f, 'z) sigprog" where
  "signal2_call P invoke this a1 a2 =
     lock_block P (Sig this)
       (bindp (get_slots this) (\<lambda>m_connected_slots.
        next_then_body this (\<lambda>it. connection2_emit invoke it a1 a2)
          (list_begin m_connected_slots)))"

section \<open>The same as the classes without arguments\<close>

lemma connection2_same:
  "connection2_new = connection0_new" "connection2_clone = connection0_clone"
  "connection2_duplicate = connection0_duplicate" "connection2_getdest = connection0_getdest"
  "connection2_destroy = connection0_destroy"
  unfolding fun_eq_iff connection2_new_def connection0_new_def connection2_clone_def connection0_clone_def
    connection2_duplicate_def connection0_duplicate_def connection2_getdest_def connection0_getdest_def
    connection2_destroy_def connection0_destroy_def
  by simp_all

lemma connection2_emit_same:
  "connection2_emit invoke this a1 a2 = connection0_emit (\<lambda>f ob. invoke f ob a1 a2) this"
  by (simp add: connection2_emit_def connection0_emit_def)

lemma signal_base2_disconnect_loop_same:
  "signal_base2_disconnect_loop P this pclass = signal_base0_disconnect_loop P this pclass"
proof
  fix its
  show "signal_base2_disconnect_loop P this pclass its = signal_base0_disconnect_loop P this pclass its"
    by (induction its) (simp_all add: connection2_same cong: if_cong)
qed

lemma signal_base2_same [class_same]:
  "signal2_new P = signal0_new P" "signal2_copy P s = signal0_copy P s"
  "signal2_destroy P s = signal0_destroy P s" "signal2_connect P s ob f = signal0_connect P s ob f"
  "signal_base2_disconnect_all P s = signal_base0_disconnect_all P s"
  "signal_base2_disconnect P s ob = signal_base0_disconnect P s ob"
  "signal_base2_slot_disconnect P s ob = signal_base0_slot_disconnect P s ob"
  "signal_base2_slot_duplicate P s old new = signal_base0_slot_duplicate P s old new"
  by (simp_all add: signal2_new_def signal0_new_def signal_base2_new_def signal_base0_new_def
      signal2_copy_def signal0_copy_def signal_base2_copy_def signal_base0_copy_def
      signal2_destroy_def signal0_destroy_def signal_base2_destroy_def signal_base0_destroy_def
      signal2_connect_def signal0_connect_def signal_base2_disconnect_all_def signal_base0_disconnect_all_def
      signal_base2_disconnect_def signal_base0_disconnect_def
      signal_base2_slot_disconnect_def signal_base0_slot_disconnect_def
      signal_base2_slot_duplicate_def signal_base0_slot_duplicate_def
      signal_base2_disconnect_loop_same connection2_same cong: if_cong)

lemma signal2_emit_same [class_same]:
  "signal2_emit P invoke s a1 a2 = signal0_emit P (\<lambda>f ob. invoke f ob a1 a2) s"
  "signal2_call P invoke s a1 a2 = signal0_emit P (\<lambda>f ob. invoke f ob a1 a2) s"
  by (simp_all add: signal2_emit_def signal2_call_def signal0_emit_def connection2_emit_same)

end
