(* ===== verification/Signal5.thy ===== *)
theory Signal5
  imports Signal0
begin

text \<open>
  The classes of \<open>sigslot.h\<close> for slots with five arguments: \<open>_connection5\<close>, \<open>_signal_base5\<close> and
  \<open>signal5\<close>, for any threading policy. Each operation is the one of the classes without arguments.
\<close>

section \<open>_connection5\<close>

definition connection5_new :: "nat \<Rightarrow> 'f \<Rightarrow> (nat, 'f, 'z) sigprog" where
  "connection5_new pobject pmemfun =
     bindp fresh_address (\<lambda>c.
     seqp (modifyp (\<lambda>w. w\<lparr>conn_heap := (conn_heap w)(c \<mapsto>
             \<lparr>m_pobject = pobject, m_pmemfun = pmemfun\<rparr>)\<rparr>))
     (returnp c))"

definition connection5_destroy :: "nat \<Rightarrow> (unit, 'f, 'z) sigprog" where
  "connection5_destroy this =
     bindp (deref_connection this) (\<lambda>_. modifyp (\<lambda>w. w\<lparr>conn_heap := (conn_heap w)(this := None)\<rparr>))"

definition connection5_clone :: "nat \<Rightarrow> (nat, 'f, 'z) sigprog" where
  "connection5_clone this =
     bindp (deref_connection this) (\<lambda>k. connection5_new (m_pobject k) (m_pmemfun k))"

definition connection5_duplicate :: "nat \<Rightarrow> nat \<Rightarrow> (nat, 'f, 'z) sigprog" where
  "connection5_duplicate this pnewdest =
     bindp (deref_connection this) (\<lambda>k. connection5_new pnewdest (m_pmemfun k))"

definition connection5_emit ::
  "('f \<Rightarrow> nat \<Rightarrow> 'a1 \<Rightarrow> 'a2 \<Rightarrow> 'a3 \<Rightarrow> 'a4 \<Rightarrow> 'a5 \<Rightarrow> (unit, 'f, 'z) sigprog) \<Rightarrow> nat \<Rightarrow> 'a1 \<Rightarrow> 'a2 \<Rightarrow> 'a3 \<Rightarrow> 'a4 \<Rightarrow> 'a5 \<Rightarrow> (unit, 'f, 'z) sigprog" where
  "connection5_emit invoke this a1 a2 a3 a4 a5 =
     bindp (deref_connection this) (\<lambda>k.
     bindp (get_senders (m_pobject k)) (\<lambda>_. invoke (m_pmemfun k) (m_pobject k) a1 a2 a3 a4 a5))"

definition connection5_getdest :: "nat \<Rightarrow> (nat, 'f, 'z) sigprog" where
  "connection5_getdest this = bindp (deref_connection this) (\<lambda>k. returnp (m_pobject k))"

section \<open>_signal_base5\<close>

definition signal_base5_new :: "('f, 'z) policy \<Rightarrow> (nat, 'f, 'z) sigprog" where
  "signal_base5_new P =
     bindp fresh_address (\<lambda>this.
     seqp (construct P (Sig this))
     (seqp (set_slots this [])
     (returnp this)))"

definition signal_base5_copy :: "('f, 'z) policy \<Rightarrow> nat \<Rightarrow> (nat, 'f, 'z) sigprog" where
  "signal_base5_copy P s =
     bindp fresh_address (\<lambda>this.
     seqp (copy_construct P (Sig this))
     (seqp (set_slots this [])
     (seqp
       (lock_block P (Sig this)
         (bindp (get_slots s)
         (each_node (\<lambda>it.
            bindp (connection5_getdest it) (\<lambda>dest.
            seqp (locked_signal_connect P dest this)
            (bindp (connection5_clone it) (push_back this)))))))
     (returnp this))))"

definition signal_base5_slot_duplicate :: "('f, 'z) policy \<Rightarrow> nat \<Rightarrow> nat \<Rightarrow> nat \<Rightarrow> (unit, 'f, 'z) sigprog" where
  "signal_base5_slot_duplicate P this oldtarget newtarget =
     lock_block P (Sig this)
       (bindp (get_slots this) (\<lambda>m_connected_slots.
        body_then_next this (\<lambda>it.
          bindp (connection5_getdest it) (\<lambda>dest.
          if dest = oldtarget then bindp (connection5_duplicate it newtarget) (push_back this)
          else returnp ()))
        (list_begin m_connected_slots)))"

definition signal_base5_disconnect_all :: "('f, 'z) policy \<Rightarrow> nat \<Rightarrow> (unit, 'f, 'z) sigprog" where
  "signal_base5_disconnect_all P this =
     lock_block P (Sig this)
       (bindp (get_slots this) (\<lambda>m_connected_slots.
        seqp
          (each_node (\<lambda>it.
             bindp (connection5_getdest it) (\<lambda>dest.
             seqp (locked_signal_disconnect P dest this)
             (connection5_destroy it)))
          m_connected_slots)
        (set_slots this [])))"

definition signal_base5_destroy :: "('f, 'z) policy \<Rightarrow> nat \<Rightarrow> (unit, 'f, 'z) sigprog" where
  "signal_base5_destroy P this =
     seqp (signal_base5_disconnect_all P this)
     (seqp (modifyp (\<lambda>w. w\<lparr>m_connected_slots := (m_connected_slots w)(this := None)\<rparr>))
     (destruct P (Sig this)))"

fun signal_base5_disconnect_loop :: "('f, 'z) policy \<Rightarrow> nat \<Rightarrow> nat \<Rightarrow> nat list \<Rightarrow> (unit, 'f, 'z) sigprog" where
  "signal_base5_disconnect_loop P this pclass [] = returnp ()"
| "signal_base5_disconnect_loop P this pclass (it # its) =
     bindp (connection5_getdest it) (\<lambda>dest.
     if dest = pclass
     then seqp (connection5_destroy it)
         (seqp (erase_node this it)
         (locked_signal_disconnect P pclass this))
     else signal_base5_disconnect_loop P this pclass its)"

definition signal_base5_disconnect :: "('f, 'z) policy \<Rightarrow> nat \<Rightarrow> nat \<Rightarrow> (unit, 'f, 'z) sigprog" where
  "signal_base5_disconnect P this pclass =
     lock_block P (Sig this)
       (bindp (get_slots this) (signal_base5_disconnect_loop P this pclass))"

definition signal_base5_slot_disconnect :: "('f, 'z) policy \<Rightarrow> nat \<Rightarrow> nat \<Rightarrow> (unit, 'f, 'z) sigprog" where
  "signal_base5_slot_disconnect P this pslot =
     lock_block P (Sig this)
       (bindp (get_slots this)
       (each_node (\<lambda>it.
          bindp (connection5_getdest it) (\<lambda>dest.
          if dest = pslot then seqp (connection5_destroy it) (erase_node this it)
          else returnp ()))))"

section \<open>signal5\<close>

definition signal5_new :: "('f, 'z) policy \<Rightarrow> (nat, 'f, 'z) sigprog" where
  "signal5_new P = signal_base5_new P"

definition signal5_copy :: "('f, 'z) policy \<Rightarrow> nat \<Rightarrow> (nat, 'f, 'z) sigprog" where
  "signal5_copy P s = signal_base5_copy P s"

definition signal5_destroy :: "('f, 'z) policy \<Rightarrow> nat \<Rightarrow> (unit, 'f, 'z) sigprog" where
  "signal5_destroy P this = signal_base5_destroy P this"

definition signal5_connect :: "('f, 'z) policy \<Rightarrow> nat \<Rightarrow> nat \<Rightarrow> 'f \<Rightarrow> (unit, 'f, 'z) sigprog" where
  "signal5_connect P this pclass pmemfun =
     lock_block P (Sig this)
       (bindp (connection5_new pclass pmemfun) (\<lambda>conn.
        seqp (push_back this conn)
        (locked_signal_connect P pclass this)))"

definition signal5_emit ::
  "('f, 'z) policy \<Rightarrow> ('f \<Rightarrow> nat \<Rightarrow> 'a1 \<Rightarrow> 'a2 \<Rightarrow> 'a3 \<Rightarrow> 'a4 \<Rightarrow> 'a5 \<Rightarrow> (unit, 'f, 'z) sigprog) \<Rightarrow> nat \<Rightarrow> 'a1 \<Rightarrow> 'a2 \<Rightarrow> 'a3 \<Rightarrow> 'a4 \<Rightarrow> 'a5 \<Rightarrow> (unit, 'f, 'z) sigprog" where
  "signal5_emit P invoke this a1 a2 a3 a4 a5 =
     lock_block P (Sig this)
       (bindp (get_slots this) (\<lambda>m_connected_slots.
        next_then_body this (\<lambda>it. connection5_emit invoke it a1 a2 a3 a4 a5)
          (list_begin m_connected_slots)))"

definition signal5_call ::
  "('f, 'z) policy \<Rightarrow> ('f \<Rightarrow> nat \<Rightarrow> 'a1 \<Rightarrow> 'a2 \<Rightarrow> 'a3 \<Rightarrow> 'a4 \<Rightarrow> 'a5 \<Rightarrow> (unit, 'f, 'z) sigprog) \<Rightarrow> nat \<Rightarrow> 'a1 \<Rightarrow> 'a2 \<Rightarrow> 'a3 \<Rightarrow> 'a4 \<Rightarrow> 'a5 \<Rightarrow> (unit, 'f, 'z) sigprog" where
  "signal5_call P invoke this a1 a2 a3 a4 a5 =
     lock_block P (Sig this)
       (bindp (get_slots this) (\<lambda>m_connected_slots.
        next_then_body this (\<lambda>it. connection5_emit invoke it a1 a2 a3 a4 a5)
          (list_begin m_connected_slots)))"

section \<open>The same as the classes without arguments\<close>

lemma connection5_same:
  "connection5_new = connection0_new" "connection5_clone = connection0_clone"
  "connection5_duplicate = connection0_duplicate" "connection5_getdest = connection0_getdest"
  "connection5_destroy = connection0_destroy"
  unfolding fun_eq_iff connection5_new_def connection0_new_def connection5_clone_def connection0_clone_def
    connection5_duplicate_def connection0_duplicate_def connection5_getdest_def connection0_getdest_def
    connection5_destroy_def connection0_destroy_def
  by simp_all

lemma connection5_emit_same:
  "connection5_emit invoke this a1 a2 a3 a4 a5 = connection0_emit (\<lambda>f ob. invoke f ob a1 a2 a3 a4 a5) this"
  by (simp add: connection5_emit_def connection0_emit_def)

lemma signal_base5_disconnect_loop_same:
  "signal_base5_disconnect_loop P this pclass = signal_base0_disconnect_loop P this pclass"
proof
  fix its
  show "signal_base5_disconnect_loop P this pclass its = signal_base0_disconnect_loop P this pclass its"
    by (induction its) (simp_all add: connection5_same cong: if_cong)
qed

lemma signal_base5_same [class_same]:
  "signal5_new P = signal0_new P" "signal5_copy P s = signal0_copy P s"
  "signal5_destroy P s = signal0_destroy P s" "signal5_connect P s ob f = signal0_connect P s ob f"
  "signal_base5_disconnect_all P s = signal_base0_disconnect_all P s"
  "signal_base5_disconnect P s ob = signal_base0_disconnect P s ob"
  "signal_base5_slot_disconnect P s ob = signal_base0_slot_disconnect P s ob"
  "signal_base5_slot_duplicate P s old new = signal_base0_slot_duplicate P s old new"
  by (simp_all add: signal5_new_def signal0_new_def signal_base5_new_def signal_base0_new_def
      signal5_copy_def signal0_copy_def signal_base5_copy_def signal_base0_copy_def
      signal5_destroy_def signal0_destroy_def signal_base5_destroy_def signal_base0_destroy_def
      signal5_connect_def signal0_connect_def signal_base5_disconnect_all_def signal_base0_disconnect_all_def
      signal_base5_disconnect_def signal_base0_disconnect_def
      signal_base5_slot_disconnect_def signal_base0_slot_disconnect_def
      signal_base5_slot_duplicate_def signal_base0_slot_duplicate_def
      signal_base5_disconnect_loop_same connection5_same cong: if_cong)

lemma signal5_emit_same [class_same]:
  "signal5_emit P invoke s a1 a2 a3 a4 a5 = signal0_emit P (\<lambda>f ob. invoke f ob a1 a2 a3 a4 a5) s"
  "signal5_call P invoke s a1 a2 a3 a4 a5 = signal0_emit P (\<lambda>f ob. invoke f ob a1 a2 a3 a4 a5) s"
  by (simp_all add: signal5_emit_def signal5_call_def signal0_emit_def connection5_emit_same)

end
