(* ===== verification/Sigslot_Classes.thy ===== *)
theory Sigslot_Classes
  imports Signal1 Signal2 Signal3 Signal4 Signal5 Signal6 Signal7 Signal8
begin

text \<open>
  A program mixes signals of all nine classes, and an object is registered with signals of any
  class: \<open>has_slots\<close> calls them through the virtual functions of \<open>_signal_base\<close>. Here these calls
  are dispatched on the class of the signal, and the whole interface of the library becomes one
  program for each call. Whatever the classes of the signals are, with the policy the server is
  compiled with every call is the operation of the theory Sigslot.
\<close>

section \<open>Virtual functions\<close>

datatype signal_class = Class0 | Class1 | Class2 | Class3 | Class4 | Class5 | Class6 | Class7 | Class8

text \<open>\<open>K\<close> gives the class each signal was constructed with.\<close>

definition virtual_slot_disconnect ::
  "(nat \<Rightarrow> signal_class) \<Rightarrow> ('f, 'z) policy \<Rightarrow> nat \<Rightarrow> nat \<Rightarrow> (unit, 'f, 'z) sigprog" where
  "virtual_slot_disconnect K P s pslot = (case K s of
       Class0 \<Rightarrow> signal_base0_slot_disconnect P s pslot
     | Class1 \<Rightarrow> signal_base1_slot_disconnect P s pslot
     | Class2 \<Rightarrow> signal_base2_slot_disconnect P s pslot
     | Class3 \<Rightarrow> signal_base3_slot_disconnect P s pslot
     | Class4 \<Rightarrow> signal_base4_slot_disconnect P s pslot
     | Class5 \<Rightarrow> signal_base5_slot_disconnect P s pslot
     | Class6 \<Rightarrow> signal_base6_slot_disconnect P s pslot
     | Class7 \<Rightarrow> signal_base7_slot_disconnect P s pslot
     | Class8 \<Rightarrow> signal_base8_slot_disconnect P s pslot)"

definition virtual_slot_duplicate ::
  "(nat \<Rightarrow> signal_class) \<Rightarrow> ('f, 'z) policy \<Rightarrow> nat \<Rightarrow> nat \<Rightarrow> nat \<Rightarrow> (unit, 'f, 'z) sigprog" where
  "virtual_slot_duplicate K P s poldslot pnewslot = (case K s of
       Class0 \<Rightarrow> signal_base0_slot_duplicate P s poldslot pnewslot
     | Class1 \<Rightarrow> signal_base1_slot_duplicate P s poldslot pnewslot
     | Class2 \<Rightarrow> signal_base2_slot_duplicate P s poldslot pnewslot
     | Class3 \<Rightarrow> signal_base3_slot_duplicate P s poldslot pnewslot
     | Class4 \<Rightarrow> signal_base4_slot_duplicate P s poldslot pnewslot
     | Class5 \<Rightarrow> signal_base5_slot_duplicate P s poldslot pnewslot
     | Class6 \<Rightarrow> signal_base6_slot_duplicate P s poldslot pnewslot
     | Class7 \<Rightarrow> signal_base7_slot_duplicate P s poldslot pnewslot
     | Class8 \<Rightarrow> signal_base8_slot_duplicate P s poldslot pnewslot)"

section \<open>Objects with slots\<close>

definition locked_has_slots_copy ::
  "(nat \<Rightarrow> signal_class) \<Rightarrow> ('f, 'z) policy \<Rightarrow> nat \<Rightarrow> (nat, 'f, 'z) sigprog" where
  "locked_has_slots_copy K P hs =
     bindp fresh_address (\<lambda>this.
     seqp (copy_construct P (Obj this))
     (seqp (set_senders this [])
     (seqp
       (lock_block P (Obj this)
         (bindp (get_senders hs)
         (each_node (\<lambda>it.
            seqp (virtual_slot_duplicate K P it hs this)
            (bindp (get_senders this) (\<lambda>m_senders.
            set_senders this (insort_insert it m_senders)))))))
     (returnp this))))"

definition locked_has_slots_disconnect_all ::
  "(nat \<Rightarrow> signal_class) \<Rightarrow> ('f, 'z) policy \<Rightarrow> nat \<Rightarrow> (unit, 'f, 'z) sigprog" where
  "locked_has_slots_disconnect_all K P this =
     lock_block P (Obj this)
       (bindp (get_senders this) (\<lambda>m_senders.
        seqp (each_node (\<lambda>it. virtual_slot_disconnect K P it this) m_senders)
        (set_senders this [])))"

definition locked_has_slots_destroy ::
  "(nat \<Rightarrow> signal_class) \<Rightarrow> ('f, 'z) policy \<Rightarrow> nat \<Rightarrow> (unit, 'f, 'z) sigprog" where
  "locked_has_slots_destroy K P this =
     seqp (locked_has_slots_disconnect_all K P this)
     (seqp (modifyp (\<lambda>w. w\<lparr>m_senders := (m_senders w)(this := None)\<rparr>))
     (destruct P (Obj this)))"

section \<open>The interface as calls\<close>

datatype 'f call =
    New_signal signal_class
  | New_object
  | Connect nat nat 'f
  | Disconnect nat nat
  | Disconnect_all nat
  | Copy_signal nat
  | Destroy_signal nat
  | Disconnect_object nat
  | Copy_object nat
  | Destroy_object nat

definition class_new :: "signal_class \<Rightarrow> ('f, 'z) policy \<Rightarrow> (nat, 'f, 'z) sigprog" where
  "class_new k P = (case k of
       Class0 \<Rightarrow> signal0_new P | Class1 \<Rightarrow> signal1_new P | Class2 \<Rightarrow> signal2_new P
     | Class3 \<Rightarrow> signal3_new P | Class4 \<Rightarrow> signal4_new P | Class5 \<Rightarrow> signal5_new P
     | Class6 \<Rightarrow> signal6_new P | Class7 \<Rightarrow> signal7_new P | Class8 \<Rightarrow> signal8_new P)"

definition class_connect ::
  "signal_class \<Rightarrow> ('f, 'z) policy \<Rightarrow> nat \<Rightarrow> nat \<Rightarrow> 'f \<Rightarrow> (unit, 'f, 'z) sigprog" where
  "class_connect k P s ob f = (case k of
       Class0 \<Rightarrow> signal0_connect P s ob f | Class1 \<Rightarrow> signal1_connect P s ob f
     | Class2 \<Rightarrow> signal2_connect P s ob f | Class3 \<Rightarrow> signal3_connect P s ob f
     | Class4 \<Rightarrow> signal4_connect P s ob f | Class5 \<Rightarrow> signal5_connect P s ob f
     | Class6 \<Rightarrow> signal6_connect P s ob f | Class7 \<Rightarrow> signal7_connect P s ob f
     | Class8 \<Rightarrow> signal8_connect P s ob f)"

definition class_disconnect ::
  "signal_class \<Rightarrow> ('f, 'z) policy \<Rightarrow> nat \<Rightarrow> nat \<Rightarrow> (unit, 'f, 'z) sigprog" where
  "class_disconnect k P s ob = (case k of
       Class0 \<Rightarrow> signal_base0_disconnect P s ob | Class1 \<Rightarrow> signal_base1_disconnect P s ob
     | Class2 \<Rightarrow> signal_base2_disconnect P s ob | Class3 \<Rightarrow> signal_base3_disconnect P s ob
     | Class4 \<Rightarrow> signal_base4_disconnect P s ob | Class5 \<Rightarrow> signal_base5_disconnect P s ob
     | Class6 \<Rightarrow> signal_base6_disconnect P s ob | Class7 \<Rightarrow> signal_base7_disconnect P s ob
     | Class8 \<Rightarrow> signal_base8_disconnect P s ob)"

definition class_disconnect_all ::
  "signal_class \<Rightarrow> ('f, 'z) policy \<Rightarrow> nat \<Rightarrow> (unit, 'f, 'z) sigprog" where
  "class_disconnect_all k P s = (case k of
       Class0 \<Rightarrow> signal_base0_disconnect_all P s | Class1 \<Rightarrow> signal_base1_disconnect_all P s
     | Class2 \<Rightarrow> signal_base2_disconnect_all P s | Class3 \<Rightarrow> signal_base3_disconnect_all P s
     | Class4 \<Rightarrow> signal_base4_disconnect_all P s | Class5 \<Rightarrow> signal_base5_disconnect_all P s
     | Class6 \<Rightarrow> signal_base6_disconnect_all P s | Class7 \<Rightarrow> signal_base7_disconnect_all P s
     | Class8 \<Rightarrow> signal_base8_disconnect_all P s)"

definition class_copy :: "signal_class \<Rightarrow> ('f, 'z) policy \<Rightarrow> nat \<Rightarrow> (nat, 'f, 'z) sigprog" where
  "class_copy k P s = (case k of
       Class0 \<Rightarrow> signal0_copy P s | Class1 \<Rightarrow> signal1_copy P s | Class2 \<Rightarrow> signal2_copy P s
     | Class3 \<Rightarrow> signal3_copy P s | Class4 \<Rightarrow> signal4_copy P s | Class5 \<Rightarrow> signal5_copy P s
     | Class6 \<Rightarrow> signal6_copy P s | Class7 \<Rightarrow> signal7_copy P s | Class8 \<Rightarrow> signal8_copy P s)"

definition class_destroy :: "signal_class \<Rightarrow> ('f, 'z) policy \<Rightarrow> nat \<Rightarrow> (unit, 'f, 'z) sigprog" where
  "class_destroy k P s = (case k of
       Class0 \<Rightarrow> signal0_destroy P s | Class1 \<Rightarrow> signal1_destroy P s | Class2 \<Rightarrow> signal2_destroy P s
     | Class3 \<Rightarrow> signal3_destroy P s | Class4 \<Rightarrow> signal4_destroy P s | Class5 \<Rightarrow> signal5_destroy P s
     | Class6 \<Rightarrow> signal6_destroy P s | Class7 \<Rightarrow> signal7_destroy P s | Class8 \<Rightarrow> signal8_destroy P s)"

definition ignore_result :: "('a, 's) prog \<Rightarrow> (unit, 's) prog" where
  "ignore_result m = bindp m (\<lambda>_. returnp ())"

text \<open>A call of the library compiled with the policy \<open>P\<close>, and the same call of the theory Sigslot.\<close>

fun exec :: "(nat \<Rightarrow> signal_class) \<Rightarrow> ('f, 'z) policy \<Rightarrow> 'f call \<Rightarrow> (unit, 'f, 'z) sigprog" where
  "exec K P (New_signal k) = ignore_result (class_new k P)"
| "exec K P New_object = ignore_result (locked_has_slots_new P)"
| "exec K P (Connect s ob f) = class_connect (K s) P s ob f"
| "exec K P (Disconnect s ob) = class_disconnect (K s) P s ob"
| "exec K P (Disconnect_all s) = class_disconnect_all (K s) P s"
| "exec K P (Copy_signal s) = ignore_result (class_copy (K s) P s)"
| "exec K P (Destroy_signal s) = class_destroy (K s) P s"
| "exec K P (Disconnect_object ob) = locked_has_slots_disconnect_all K P ob"
| "exec K P (Copy_object ob) = ignore_result (locked_has_slots_copy K P ob)"
| "exec K P (Destroy_object ob) = locked_has_slots_destroy K P ob"

fun exec_plain :: "'f call \<Rightarrow> (unit, 'f, 'z) sigprog" where
  "exec_plain (New_signal k) = ignore_result signal_new"
| "exec_plain New_object = ignore_result has_slots_new"
| "exec_plain (Connect s ob f) = signal_connect s ob f"
| "exec_plain (Disconnect s ob) = signal_disconnect s ob"
| "exec_plain (Disconnect_all s) = signal_disconnect_all s"
| "exec_plain (Copy_signal s) = ignore_result (signal_copy s)"
| "exec_plain (Destroy_signal s) = signal_destroy s"
| "exec_plain (Disconnect_object ob) = has_slots_disconnect_all ob"
| "exec_plain (Copy_object ob) = ignore_result (has_slots_copy ob)"
| "exec_plain (Destroy_object ob) = has_slots_destroy ob"

text \<open>The classes do not matter.\<close>

lemma virtual_same:
  "virtual_slot_disconnect K P s ob = signal_base0_slot_disconnect P s ob"
  "virtual_slot_duplicate K P s old new = signal_base0_slot_duplicate P s old new"
  by (simp_all add: virtual_slot_disconnect_def virtual_slot_duplicate_def class_same split: signal_class.split)

lemma any_class:
  "class_new k P = signal0_new P" "class_connect k P s ob f = signal0_connect P s ob f"
  "class_disconnect k P s ob = signal_base0_disconnect P s ob"
  "class_disconnect_all k P s = signal_base0_disconnect_all P s"
  "class_copy k P s = signal0_copy P s" "class_destroy k P s = signal0_destroy P s"
  by (simp_all add: class_new_def class_connect_def class_disconnect_def class_disconnect_all_def
      class_copy_def class_destroy_def class_same split: signal_class.split)

section \<open>The policy the server is compiled with\<close>

lemma connection0_plain:
  "connection0_new = new_connection" "connection0_clone = connection_clone"
  "connection0_duplicate = connection_duplicate" "connection0_getdest = connection_getdest"
  "connection0_destroy = delete_connection"
  unfolding fun_eq_iff connection0_new_def new_connection_def connection0_clone_def connection_clone_def
    connection0_duplicate_def connection_duplicate_def connection0_getdest_def connection_getdest_def
    connection0_destroy_def delete_connection_def
  by (simp_all add: deref_connection_def bindp_def split: option.split)

lemma connection0_emit_plain:
  "connection0_emit invoke c = connection_emit (\<lambda>k. invoke (m_pmemfun k) (m_pobject k)) c"
  by (simp add: connection0_emit_def connection_emit_def)

lemma has_slots_plain:
  "locked_has_slots_new single_threaded = has_slots_new"
  "locked_signal_connect single_threaded = has_slots_signal_connect"
  "locked_signal_disconnect single_threaded = has_slots_signal_disconnect"
  by (simp_all add: fun_eq_iff locked_has_slots_new_def has_slots_new_def locked_signal_connect_def
      locked_signal_disconnect_def)

text \<open>The loops.\<close>

lemma each_node_seqp: "(\<And>c cs. loop (c # cs) = seqp (body c) (loop cs)) \<Longrightarrow> loop [] = returnp () \<Longrightarrow> each_node body = loop"
proof
  fix cs
  assume "\<And>c cs. loop (c # cs) = seqp (body c) (loop cs)" and "loop [] = returnp ()"
  then show "each_node body cs = loop cs" by (induction cs) simp_all
qed

lemma seqp_bindp: "seqp (bindp m k) l = bindp m (\<lambda>x. seqp (k x) l)"
  by (simp add: seqp_def bindp_assoc)

lemma bindp_seqp: "bindp (seqp m k) f = seqp m (bindp k f)"
  by (simp add: seqp_def bindp_assoc)

lemma if_seqp: "seqp (if b then m else k) l = (if b then seqp m l else seqp k l)"
  by simp

lemma copy_loop_shape:
  "each_node (\<lambda>it. bindp (connection_getdest it) (\<lambda>dest. seqp (has_slots_signal_connect dest this)
     (bindp (connection_clone it) (push_back this)))) = signal_copy_loop this"
  by (rule each_node_seqp) (simp_all add: seqp_bindp seqp_assoc)

lemma disconnect_all_loop_shape:
  "each_node (\<lambda>it. bindp (connection_getdest it) (\<lambda>dest. seqp (has_slots_signal_disconnect dest s)
     (delete_connection it))) = disconnect_all_loop s"
  by (rule each_node_seqp) (simp_all add: seqp_bindp seqp_assoc)

lemma slot_disconnect_loop_shape:
  "each_node (\<lambda>it. bindp (connection_getdest it) (\<lambda>dest.
     if dest = pslot then seqp (delete_connection it) (erase_node s it) else returnp ())) = slot_disconnect_loop s pslot"
  by (rule each_node_seqp) (simp_all add: seqp_bindp seqp_assoc if_seqp cong: if_cong)

lemma has_slots_copy_loop_shape:
  "each_node (\<lambda>it. seqp (signal_slot_duplicate it hs this)
     (bindp (get_senders this) (\<lambda>m_senders. set_senders this (insort_insert it m_senders)))) = has_slots_copy_loop hs this"
  by (rule each_node_seqp) (simp_all add: seqp_bindp seqp_assoc)

lemma has_slots_disconnect_loop_shape:
  "each_node (\<lambda>it. signal_slot_disconnect it this) = has_slots_disconnect_loop this"
  by (rule each_node_seqp) simp_all

lemma signal_base0_disconnect_loop_plain: "signal_base0_disconnect_loop single_threaded s ob = disconnect_loop s ob"
proof
  fix its
  show "signal_base0_disconnect_loop single_threaded s ob its = disconnect_loop s ob its"
    by (induction its) (simp_all add: connection0_plain has_slots_plain cong: if_cong)
qed

text \<open>The operations.\<close>

lemma signal0_plain:
  "signal0_new single_threaded = signal_new"
  "signal0_connect single_threaded s ob f = signal_connect s ob f"
  "signal_base0_disconnect single_threaded s ob = signal_disconnect s ob"
  "signal_base0_disconnect_all single_threaded s = signal_disconnect_all s"
  "signal0_copy single_threaded s = signal_copy s"
  "signal0_destroy single_threaded s = signal_destroy s"
  "signal_base0_slot_disconnect single_threaded s ob = signal_slot_disconnect s ob"
  "signal_base0_slot_duplicate single_threaded s old new = signal_slot_duplicate s old new"
  by (simp_all add: signal0_new_def signal_base0_new_def signal_new_def signal0_connect_def signal_connect_def
      signal_base0_disconnect_def signal_disconnect_def signal_base0_disconnect_loop_plain
      signal_base0_disconnect_all_def signal_disconnect_all_def disconnect_all_loop_shape
      signal0_copy_def signal_base0_copy_def signal_copy_def copy_loop_shape
      signal0_destroy_def signal_base0_destroy_def signal_destroy_def
      signal_base0_slot_disconnect_def signal_slot_disconnect_def slot_disconnect_loop_shape
      signal_base0_slot_duplicate_def signal_slot_duplicate_def slot_duplicate_loop_shape
      connection0_plain has_slots_plain seqp_unit seqp_bindp seqp_assoc bindp_assoc bindp_seqp cong: if_cong)

lemma signal0_emit_plain:
  "signal0_emit single_threaded invoke s = signal_emit (\<lambda>k. invoke (m_pmemfun k) (m_pobject k)) s"
  by (simp add: signal0_emit_def signal_emit_def emit_loop_shape connection0_emit_plain)

lemma locked_has_slots_plain:
  "locked_has_slots_copy K single_threaded hs = has_slots_copy hs"
  "locked_has_slots_disconnect_all K single_threaded ob = has_slots_disconnect_all ob"
  "locked_has_slots_destroy K single_threaded ob = has_slots_destroy ob"
  by (simp_all add: locked_has_slots_copy_def has_slots_copy_def locked_has_slots_disconnect_all_def
      has_slots_disconnect_all_def locked_has_slots_destroy_def has_slots_destroy_def virtual_same
      signal0_plain has_slots_copy_loop_shape has_slots_disconnect_loop_shape
      has_slots_new_def seqp_unit seqp_bindp seqp_assoc bindp_assoc bindp_seqp cong: if_cong)

lemma exec_single_threaded: "exec K single_threaded c = exec_plain c"
  by (cases c) (simp_all add: any_class signal0_plain has_slots_plain locked_has_slots_plain)

end
