(* ===== verification/Sigslot_Simulation.thy ===== *)
theory Sigslot_Simulation
  imports Sigslot_Classes
begin

text \<open>
  Programs with and without locks side by side: the operations of the theory Sigslot take no
  notice of mutexes, and a simulation relates such an operation to one that also locks and
  unlocks. Rules along the structure of programs reduce a simulation of operations to one of
  what they call.
\<close>

section \<open>Programs that take no notice of mutexes\<close>

definition oblivious :: "('a, 'f, 'z) lockprog \<Rightarrow> bool" where
  "oblivious m \<longleftrightarrow> (\<forall>w L. m (w\<lparr>locks := L\<rparr>) = map_option (\<lambda>(r, w'). (r, w'\<lparr>locks := L\<rparr>)) (m w))"

named_theorems oblivious_intros "rules for oblivious"

lemma obliviousI: "(\<And>w L. m (w\<lparr>locks := L\<rparr>) = map_option (\<lambda>(r, w'). (r, w'\<lparr>locks := L\<rparr>)) (m w)) \<Longrightarrow> oblivious m"
  by (simp add: oblivious_def)

lemma obliviousD: "oblivious m \<Longrightarrow> m (w\<lparr>locks := L\<rparr>) = map_option (\<lambda>(r, w'). (r, w'\<lparr>locks := L\<rparr>)) (m w)"
  by (simp add: oblivious_def)

lemma oblivious_run: "oblivious m \<Longrightarrow> m w = Some (r, w') \<Longrightarrow> m (w\<lparr>locks := L\<rparr>) = Some (r, w'\<lparr>locks := L\<rparr>)"
  by (simp add: obliviousD)

lemma oblivious_basic [oblivious_intros]:
  "oblivious (returnp x)" "oblivious (exitp n)" "oblivious throwp" "oblivious (undefp u)"
  by (simp_all add: oblivious_def)

lemma oblivious_modifyp [oblivious_intros]:
  "(\<And>w L. g (w\<lparr>locks := L\<rparr>) = (g w)\<lparr>locks := L\<rparr>) \<Longrightarrow> oblivious (modifyp g)"
  by (simp add: oblivious_def)

lemma oblivious_bindp [oblivious_intros]:
  assumes "oblivious m" and "\<And>x. oblivious (k x)"
  shows "oblivious (bindp m k)"
  by (rule obliviousI)
    (simp add: bindp_def obliviousD [OF assms(1)] obliviousD [OF assms(2)] split: option.split prod.split outcome.split)

lemma oblivious_seqp [oblivious_intros]: "oblivious m \<Longrightarrow> oblivious k \<Longrightarrow> oblivious (seqp m k)"
  by (simp add: seqp_def oblivious_bindp)

lemma oblivious_if [oblivious_intros]:
  "oblivious m \<Longrightarrow> oblivious k \<Longrightarrow> oblivious (if b then m else k)"
  by simp

lemma oblivious_primitive [oblivious_intros]:
  "oblivious fresh_address" "oblivious (deref_connection c)" "oblivious (delete_connection c)"
  "oblivious (get_slots s)" "oblivious (set_slots s cs)" "oblivious (get_senders ob)"
  "oblivious (set_senders ob ss)"
  by (auto simp: oblivious_def fresh_address_def deref_connection_def delete_connection_def get_slots_def
      set_slots_def get_senders_def set_senders_def split: option.split)

lemma oblivious_elementary [oblivious_intros]:
  "oblivious (new_connection ob f)" "oblivious (connection_clone c)" "oblivious (connection_duplicate c ob)"
  "oblivious (connection_getdest c)" "oblivious (push_back s c)" "oblivious (erase_node s c)"
  "oblivious (has_slots_signal_connect ob s)" "oblivious (has_slots_signal_disconnect ob s)"
  unfolding new_connection_def connection_clone_def connection_duplicate_def connection_getdest_def
    push_back_def erase_node_def has_slots_signal_connect_def has_slots_signal_disconnect_def
  by (intro oblivious_intros; simp)+

lemma oblivious_each_node [oblivious_intros]:
  "(\<And>c. oblivious (body c)) \<Longrightarrow> oblivious (each_node body cs)"
  by (induction cs) (simp_all add: oblivious_intros)

text \<open>For programs that may not return it is enough to look at the runs that return.\<close>

lemma oblivious_of_runs:
  assumes "\<And>w r w' L. m w = Some (r, w') \<Longrightarrow> m (w\<lparr>locks := L\<rparr>) = Some (r, w'\<lparr>locks := L\<rparr>)"
  shows "oblivious m"
proof (rule obliviousI)
  fix w L
  show "m (w\<lparr>locks := L\<rparr>) = map_option (\<lambda>(r, w'). (r, w'\<lparr>locks := L\<rparr>)) (m w)"
  proof (cases "m w")
    case None
    have "m (w\<lparr>locks := L\<rparr>) \<noteq> Some (r, v)" for r v
    proof
      assume "m (w\<lparr>locks := L\<rparr>) = Some (r, v)"
      from assms [OF this, of "locks w"] None show False by simp
    qed
    then have "m (w\<lparr>locks := L\<rparr>) = None" by (cases "m (w\<lparr>locks := L\<rparr>)") auto
    with None show ?thesis by simp
  next
    case (Some y)
    obtain r v where y: "y = (r, v)" by (cases y)
    from assms [of w r v L] Some show ?thesis by (simp add: y)
  qed
qed

lemma body_then_next_locks:
  assumes "body_then_next s body it w = Some (r, w')" and "\<And>c. oblivious (body c)"
  shows "body_then_next s body it (w\<lparr>locks := L\<rparr>) = Some (r, w'\<lparr>locks := L\<rparr>)"
  using assms
proof (induction s body it w "(r, w')" arbitrary: r w' rule: body_then_next.raw_induct [rotated, consumes 1])
  case (1 f s body it w)
  then show ?case
    by (subst body_then_next.simps)
      (auto simp: obliviousD [OF 1(3)] split: option.splits prod.splits outcome.splits)
qed

lemma oblivious_body_then_next [oblivious_intros]:
  assumes "\<And>c. oblivious (body c)"
  shows "oblivious (body_then_next s body it)"
  by (rule oblivious_of_runs) (rule body_then_next_locks [OF _ assms])

lemma next_then_body_locks:
  assumes "next_then_body s body it w = Some (r, w')" and "\<And>c. oblivious (body c)"
  shows "next_then_body s body it (w\<lparr>locks := L\<rparr>) = Some (r, w'\<lparr>locks := L\<rparr>)"
  using assms
proof (induction s body it w "(r, w')" arbitrary: r w' rule: next_then_body.raw_induct [rotated, consumes 1])
  case (1 f s body it w)
  then show ?case
    by (subst next_then_body.simps)
      (auto simp: obliviousD [OF 1(3)] Let_def split: option.splits prod.splits outcome.splits if_splits)
qed

lemma oblivious_next_then_body [oblivious_intros]:
  assumes "\<And>c. oblivious (body c)"
  shows "oblivious (next_then_body s body it)"
  by (rule oblivious_of_runs) (rule next_then_body_locks [OF _ assms])

section \<open>Living objects\<close>

definition alive :: "('f, 'z) world_scheme \<Rightarrow> lockable set" where
  "alive w = {l. case l of Sig s \<Rightarrow> m_connected_slots w s \<noteq> None | Obj ob \<Rightarrow> m_senders w ob \<noteq> None}"

definition fresh_unused :: "('f, 'z) world_scheme \<Rightarrow> bool" where
  "fresh_unused w \<longleftrightarrow> (\<forall>a\<ge>brk w. Sig a \<notin> alive w \<and> Obj a \<notin> alive w)"

lemma alive_iff [simp]:
  "Sig s \<in> alive w \<longleftrightarrow> m_connected_slots w s \<noteq> None" "Obj ob \<in> alive w \<longleftrightarrow> m_senders w ob \<noteq> None"
  by (auto simp: alive_def)

lemma alive_cong:
  "m_connected_slots v = m_connected_slots w \<Longrightarrow> m_senders v = m_senders w \<Longrightarrow> alive v = alive w"
  by (auto simp: alive_def split: lockable.splits)

text \<open>Programs that start and end no lifetime, and only allocate.\<close>

definition lifetimes_kept :: "('a, 'f, 'z) sigprog \<Rightarrow> bool" where
  "lifetimes_kept m \<longleftrightarrow> (\<forall>w r w'. m w = Some (r, w') \<longrightarrow> alive w' = alive w \<and> brk w \<le> brk w')"

named_theorems lifetimes_intros "rules for lifetimes_kept"

lemma lifetimes_keptI:
  "(\<And>w r w'. m w = Some (r, w') \<Longrightarrow> alive w' = alive w \<and> brk w \<le> brk w') \<Longrightarrow> lifetimes_kept m"
  by (simp add: lifetimes_kept_def)

lemma lifetimes_keptD:
  "lifetimes_kept m \<Longrightarrow> m w = Some (r, w') \<Longrightarrow> alive w' = alive w \<and> brk w \<le> brk w'"
  by (simp add: lifetimes_kept_def)

lemma lifetimes_basic [lifetimes_intros]:
  "lifetimes_kept (returnp x)" "lifetimes_kept (exitp n)" "lifetimes_kept throwp" "lifetimes_kept (undefp u)"
  by (simp_all add: lifetimes_kept_def)

lemma lifetimes_bindp [lifetimes_intros]:
  assumes "lifetimes_kept m" and "\<And>x. lifetimes_kept (k x)"
  shows "lifetimes_kept (bindp m k)"
proof (rule lifetimes_keptI)
  fix w r w' assume "bindp m k w = Some (r, w')"
  then obtain o' v where m: "m w = Some (o', v)"
    and rest: "(\<exists>x. o' = Ret x \<and> k x v = Some (r, w')) \<or> w' = v"
    by (auto simp: bindp_def split: option.splits prod.splits outcome.splits)
  from lifetimes_keptD [OF assms(1) m] rest show "alive w' = alive w \<and> brk w \<le> brk w'"
    by (auto dest: lifetimes_keptD [OF assms(2)])
qed

lemma lifetimes_seqp [lifetimes_intros]: "lifetimes_kept m \<Longrightarrow> lifetimes_kept k \<Longrightarrow> lifetimes_kept (seqp m k)"
  by (simp add: seqp_def lifetimes_bindp)

lemma lifetimes_if [lifetimes_intros]:
  "lifetimes_kept m \<Longrightarrow> lifetimes_kept k \<Longrightarrow> lifetimes_kept (if b then m else k)"
  by simp

lemma lifetimes_primitive [lifetimes_intros]:
  "lifetimes_kept fresh_address" "lifetimes_kept (deref_connection c)" "lifetimes_kept (delete_connection c)"
  "lifetimes_kept (get_slots s)" "lifetimes_kept (get_senders ob)"
  by (auto simp: lifetimes_kept_def fresh_address_def deref_connection_def delete_connection_def get_slots_def
      get_senders_def alive_def split: option.splits)

lemma lifetimes_update [lifetimes_intros]:
  "lifetimes_kept (new_connection ob f)" "lifetimes_kept (push_back s c)" "lifetimes_kept (erase_node s c)"
  "lifetimes_kept (has_slots_signal_connect ob s)" "lifetimes_kept (has_slots_signal_disconnect ob s)"
  by (auto simp: lifetimes_kept_def elementary_defs bindp_def seqp_def alive_def split: option.splits lockable.splits)

lemma lifetimes_connection [lifetimes_intros]:
  "lifetimes_kept (connection_clone c)" "lifetimes_kept (connection_duplicate c ob)"
  "lifetimes_kept (connection_getdest c)"
  unfolding connection_clone_def connection_duplicate_def connection_getdest_def
  by (intro lifetimes_intros)+

lemma lifetimes_each_node [lifetimes_intros]:
  "(\<And>c. lifetimes_kept (body c)) \<Longrightarrow> lifetimes_kept (each_node body cs)"
  by (induction cs) (simp_all add: lifetimes_intros)

lemma lifetimes_body_then_next [lifetimes_intros]:
  assumes "\<And>c. lifetimes_kept (body c)"
  shows "lifetimes_kept (body_then_next s body it)"
proof (rule lifetimes_keptI)
  fix w r w' assume "body_then_next s body it w = Some (r, w')"
  then show "alive w' = alive w \<and> brk w \<le> brk w'"
    using assms
  proof (induction s body it w "(r, w')" arbitrary: r w' rule: body_then_next.raw_induct [rotated, consumes 1])
    case (1 f s body it w)
    show ?case
    proof (cases it)
      case None
      with 1(2) show ?thesis by simp
    next
      case (Some c)
      with 1(2) obtain x v where body: "body c w = Some (x, v)"
        and rest: "(\<exists>cs. f s body (list_next cs c) v = Some (r, w')) \<or> w' = v"
        by (auto split: option.splits prod.splits outcome.splits)
      from lifetimes_keptD [OF 1(3) body] rest 1(1) [OF _ 1(3)] show ?thesis by fastforce
    qed
  qed
qed

lemma lifetimes_next_then_body [lifetimes_intros]:
  assumes "\<And>c. lifetimes_kept (body c)"
  shows "lifetimes_kept (next_then_body s body it)"
proof (rule lifetimes_keptI)
  fix w r w' assume "next_then_body s body it w = Some (r, w')"
  then show "alive w' = alive w \<and> brk w \<le> brk w'"
    using assms
  proof (induction s body it w "(r, w')" arbitrary: r w' rule: next_then_body.raw_induct [rotated, consumes 1])
    case (1 f s body it w)
    show ?case
    proof (cases "w' = w")
      case False
      with 1(2) obtain c x v where body: "body c w = Some (x, v)" and rest: "(\<exists>n. f s body n v = Some (r, w')) \<or> w' = v"
        by (auto simp: Let_def split: option.splits prod.splits outcome.splits if_splits)
      from lifetimes_keptD [OF 1(3) body] rest 1(1) [OF _ 1(3)] show ?thesis by fastforce
    qed simp
  qed
qed

text \<open>A list or a set that was read is still there to be replaced.\<close>

lemma alive_replace:
  "Sig s \<in> alive v \<Longrightarrow> set_slots s ds v = Some (r, w') \<Longrightarrow> alive w' = alive v \<and> brk w' = brk v"
  "Obj ob \<in> alive v \<Longrightarrow> set_senders ob rs v = Some (r, w') \<Longrightarrow> alive w' = alive v \<and> brk w' = brk v"
  by (auto simp: set_slots_def set_senders_def alive_def split: lockable.splits if_splits)

lemma lifetimes_replace [lifetimes_intros]:
  assumes "\<And>x. lifetimes_kept (m x)"
  shows "lifetimes_kept (bindp (get_slots s) (\<lambda>cs. seqp (m cs) (set_slots s ds)))"
    and "lifetimes_kept (bindp (get_senders ob) (\<lambda>ss. seqp (m ss) (set_senders ob rs)))"
proof -
  have "alive w' = alive w \<and> brk w \<le> brk w'"
    if run: "bindp (get_slots s) (\<lambda>cs. seqp (m cs) (set_slots s ds)) w = Some (r, w')" for w r w'
  proof (cases "m_connected_slots w s")
    case None
    with run show ?thesis by (simp add: get_slots_def bindp_def)
  next
    case (Some cs)
    with run obtain o' v where m: "m cs w = Some (o', v)"
      and rest: "(\<exists>x. o' = Ret x \<and> set_slots s ds v = Some (r, w')) \<or> w' = v"
      by (auto simp: get_slots_def bindp_def seqp_def split: option.splits prod.splits outcome.splits)
    from lifetimes_keptD [OF assms m] have kept: "alive v = alive w" "brk w \<le> brk v" by simp_all
    have "Sig s \<in> alive w" using Some by simp
    then have "Sig s \<in> alive v" by (simp only: kept(1))
    from alive_replace(1) [OF this] kept rest show ?thesis by auto
  qed
  then show "lifetimes_kept (bindp (get_slots s) (\<lambda>cs. seqp (m cs) (set_slots s ds)))" by (rule lifetimes_keptI)
  have "alive w' = alive w \<and> brk w \<le> brk w'"
    if run: "bindp (get_senders ob) (\<lambda>ss. seqp (m ss) (set_senders ob rs)) w = Some (r, w')" for w r w'
  proof (cases "m_senders w ob")
    case None
    with run show ?thesis by (simp add: get_senders_def bindp_def)
  next
    case (Some ss)
    with run obtain o' v where m: "m ss w = Some (o', v)"
      and rest: "(\<exists>x. o' = Ret x \<and> set_senders ob rs v = Some (r, w')) \<or> w' = v"
      by (auto simp: get_senders_def bindp_def seqp_def split: option.splits prod.splits outcome.splits)
    from lifetimes_keptD [OF assms m] have kept: "alive v = alive w" "brk w \<le> brk v" by simp_all
    have "Obj ob \<in> alive w" using Some by simp
    then have "Obj ob \<in> alive v" by (simp only: kept(1))
    from alive_replace(2) [OF this] kept rest show ?thesis by auto
  qed
  then show "lifetimes_kept (bindp (get_senders ob) (\<lambda>ss. seqp (m ss) (set_senders ob rs)))" by (rule lifetimes_keptI)
qed

section \<open>Simulation\<close>

text \<open>
  \<open>ready A H L\<close>: with the objects \<open>A\<close> alive and the locks \<open>H\<close> held (the latest first), the
  mutexes are as the policy leaves them. \<open>sim ready H m0 m\<close>: where \<open>m0\<close> returns, \<open>m\<close> returns the
  same, from a ready state to a ready state with the same locks held.
\<close>

type_synonym readiness = "lockable set \<Rightarrow> lockable list \<Rightarrow> lock_state \<Rightarrow> bool"

definition sim_at ::
  "readiness \<Rightarrow> lockable list \<Rightarrow> ('f, 'z) locked_world_scheme \<Rightarrow> ('a, 'f, 'z) lockprog \<Rightarrow> ('a, 'f, 'z) lockprog \<Rightarrow> bool" where
  "sim_at ready H w m0 m \<longleftrightarrow> (\<forall>r w'. fresh_unused w \<and> ready (alive w) H (locks w) \<and> m0 w = Some (Ret r, w') \<longrightarrow>
     fresh_unused w' \<and> (\<exists>L. m w = Some (Ret r, w'\<lparr>locks := L\<rparr>) \<and> ready (alive w') H L))"

definition sim :: "readiness \<Rightarrow> lockable list \<Rightarrow> ('a, 'f, 'z) lockprog \<Rightarrow> ('a, 'f, 'z) lockprog \<Rightarrow> bool" where
  "sim ready H m0 m \<longleftrightarrow> (\<forall>w. sim_at ready H w m0 m)"

lemma sim_atI:
  "(\<And>r w'. fresh_unused w \<Longrightarrow> ready (alive w) H (locks w) \<Longrightarrow> m0 w = Some (Ret r, w') \<Longrightarrow>
     fresh_unused w' \<and> (\<exists>L. m w = Some (Ret r, w'\<lparr>locks := L\<rparr>) \<and> ready (alive w') H L)) \<Longrightarrow> sim_at ready H w m0 m"
  unfolding sim_at_def by blast

lemma sim_atD:
  "sim_at ready H w m0 m \<Longrightarrow> fresh_unused w \<Longrightarrow> ready (alive w) H (locks w) \<Longrightarrow> m0 w = Some (Ret r, w') \<Longrightarrow>
     fresh_unused w' \<and> (\<exists>L. m w = Some (Ret r, w'\<lparr>locks := L\<rparr>) \<and> ready (alive w') H L)"
  unfolding sim_at_def by blast

lemma sim_all: "(\<And>w. sim_at ready H w m0 m) \<Longrightarrow> sim ready H m0 m"
  by (simp add: sim_def)

lemma sim_atE: "sim ready H m0 m \<Longrightarrow> sim_at ready H w m0 m"
  by (simp add: sim_def)

lemma simI:
  "(\<And>w r w'. fresh_unused w \<Longrightarrow> ready (alive w) H (locks w) \<Longrightarrow> m0 w = Some (Ret r, w') \<Longrightarrow>
     fresh_unused w' \<and> (\<exists>L. m w = Some (Ret r, w'\<lparr>locks := L\<rparr>) \<and> ready (alive w') H L)) \<Longrightarrow> sim ready H m0 m"
  unfolding sim_def sim_at_def by blast

lemma simD:
  "sim ready H m0 m \<Longrightarrow> fresh_unused w \<Longrightarrow> ready (alive w) H (locks w) \<Longrightarrow> m0 w = Some (Ret r, w') \<Longrightarrow>
     fresh_unused w' \<and> (\<exists>L. m w = Some (Ret r, w'\<lparr>locks := L\<rparr>) \<and> ready (alive w') H L)"
  unfolding sim_def sim_at_def by blast

lemma locks_update_inject [simp]: "w\<lparr>locks := L\<rparr> = w\<lparr>locks := M\<rparr> \<longleftrightarrow> L = M"
  by (auto dest: arg_cong [where f = locks])

lemma alive_locks [simp]: "alive (w\<lparr>locks := L\<rparr>) = alive w"
  by (rule alive_cong) simp_all

lemma fresh_unused_locks [simp]: "fresh_unused (w\<lparr>locks := L\<rparr>) = fresh_unused w"
  by (simp add: fresh_unused_def)

lemma oblivious_locks:
  assumes "oblivious m" and "m w = Some (r, w')"
  shows "locks w' = locks w"
proof -
  have "m (w\<lparr>locks := locks w\<rparr>) = Some (r, w'\<lparr>locks := locks w\<rparr>)" using assms by (rule oblivious_run)
  with assms(2) have "w' = w'\<lparr>locks := locks w\<rparr>" by simp
  then show ?thesis by (metis locked_world.select_convs(1) locked_world.surjective locked_world.update_convs(1))
qed

lemma fresh_unused_kept: "lifetimes_kept m \<Longrightarrow> m w = Some (r, w') \<Longrightarrow> fresh_unused w \<Longrightarrow> fresh_unused w'"
  by (auto simp: fresh_unused_def dest!: lifetimes_keptD simp del: alive_iff)

lemma sim_same: "oblivious m \<Longrightarrow> lifetimes_kept m \<Longrightarrow> sim ready H m m"
  by (rule simI) (auto simp: oblivious_locks fresh_unused_kept dest: lifetimes_keptD intro!: exI [of _ "locks _"])

lemma sim_at_bindp:
  assumes m: "sim_at ready H w m0 m" and k: "\<And>x. sim ready H (k0 x) (k x)" and ob: "\<And>x. oblivious (k0 x)"
  shows "sim_at ready H w (bindp m0 k0) (bindp m k)"
proof (rule sim_atI)
  fix r w' assume w: "fresh_unused w" "ready (alive w) H (locks w)" and "bindp m0 k0 w = Some (Ret r, w')"
  then obtain x v where v: "m0 w = Some (Ret x, v)" and w': "k0 x v = Some (Ret r, w')" by (auto elim: bindp_RetE)
  from sim_atD [OF m w v] obtain L where L: "fresh_unused v" "m w = Some (Ret x, v\<lparr>locks := L\<rparr>)" "ready (alive v) H L"
    by blast
  have "fresh_unused (v\<lparr>locks := L\<rparr>)" "ready (alive (v\<lparr>locks := L\<rparr>)) H (locks (v\<lparr>locks := L\<rparr>))"
    using L by simp_all
  from simD [OF k this oblivious_run [OF ob w']] L(2)
  show "fresh_unused w' \<and> (\<exists>L. bindp m k w = Some (Ret r, w'\<lparr>locks := L\<rparr>) \<and> ready (alive w') H L)"
    by (auto simp: bindp_run)
qed

lemma sim_bindp:
  "sim ready H m0 m \<Longrightarrow> (\<And>x. sim ready H (k0 x) (k x)) \<Longrightarrow> (\<And>x. oblivious (k0 x)) \<Longrightarrow>
     sim ready H (bindp m0 k0) (bindp m k)"
  by (blast intro: sim_all sim_at_bindp sim_atE)

lemma sim_at_seqp:
  "sim_at ready H w m0 m \<Longrightarrow> sim ready H k0 k \<Longrightarrow> oblivious k0 \<Longrightarrow> sim_at ready H w (seqp m0 k0) (seqp m k)"
  by (simp add: seqp_def sim_at_bindp)

lemma sim_seqp:
  "sim ready H m0 m \<Longrightarrow> sim ready H k0 k \<Longrightarrow> oblivious k0 \<Longrightarrow> sim ready H (seqp m0 k0) (seqp m k)"
  by (simp add: seqp_def sim_bindp)

lemma sim_if: "sim ready H m0 m \<Longrightarrow> sim ready H k0 k \<Longrightarrow> sim ready H (if b then m0 else k0) (if b then m else k)"
  by simp

lemma sim_each_node:
  assumes "\<And>c. sim ready H (body0 c) (body c)" and "\<And>c. oblivious (body0 c)"
  shows "sim ready H (each_node body0 cs) (each_node body cs)"
proof (induction cs)
  case Nil
  show ?case unfolding each_node.simps by (intro sim_same oblivious_intros lifetimes_intros)
next
  case (Cons c cs)
  then show ?case by (simp add: sim_seqp assms oblivious_each_node)
qed

lemma sim_replace:
  assumes "\<And>x. sim ready H (m0 x) (m x)" and "\<And>x. lifetimes_kept (m0 x)"
  shows "sim ready H (bindp (get_slots s) (\<lambda>cs. seqp (m0 cs) (set_slots s ds)))
      (bindp (get_slots s) (\<lambda>cs. seqp (m cs) (set_slots s ds)))"
    and "sim ready H (bindp (get_senders ob) (\<lambda>ss. seqp (m0 ss) (set_senders ob rs)))
      (bindp (get_senders ob) (\<lambda>ss. seqp (m ss) (set_senders ob rs)))"
proof -
  show "sim ready H (bindp (get_slots s) (\<lambda>cs. seqp (m0 cs) (set_slots s ds)))
      (bindp (get_slots s) (\<lambda>cs. seqp (m cs) (set_slots s ds)))"
  proof (rule simI)
    fix w r w' assume w: "fresh_unused w" "ready (alive w) H (locks w)"
      and "bindp (get_slots s) (\<lambda>cs. seqp (m0 cs) (set_slots s ds)) w = Some (Ret r, w')"
    then obtain cs x v where cs: "m_connected_slots w s = Some cs" and v: "m0 cs w = Some (Ret x, v)"
      and w': "set_slots s ds v = Some (Ret r, w')"
      by (auto elim!: bindp_RetE seqp_RetE simp: get_slots_def split: option.splits)
    have "Sig s \<in> alive v" using lifetimes_keptD [OF assms(2) v] cs by (simp del: alive_iff add: alive_iff(1) [of s w])
    from alive_replace(1) [OF this w'] have same: "alive w' = alive v" "brk w' = brk v" by simp_all
    from simD [OF assms(1) w v] obtain L where "fresh_unused v" "m cs w = Some (Ret x, v\<lparr>locks := L\<rparr>)" "ready (alive v) H L"
      by blast
    with cs w' same show "fresh_unused w' \<and> (\<exists>L. bindp (get_slots s) (\<lambda>cs. seqp (m cs) (set_slots s ds)) w
        = Some (Ret r, w'\<lparr>locks := L\<rparr>) \<and> ready (alive w') H L)"
      by (intro conjI exI [of _ L]) (auto simp: fresh_unused_def prog_simps set_slots_def simp del: alive_iff)
  qed
  show "sim ready H (bindp (get_senders ob) (\<lambda>ss. seqp (m0 ss) (set_senders ob rs)))
      (bindp (get_senders ob) (\<lambda>ss. seqp (m ss) (set_senders ob rs)))"
  proof (rule simI)
    fix w r w' assume w: "fresh_unused w" "ready (alive w) H (locks w)"
      and "bindp (get_senders ob) (\<lambda>ss. seqp (m0 ss) (set_senders ob rs)) w = Some (Ret r, w')"
    then obtain ss x v where ss: "m_senders w ob = Some ss" and v: "m0 ss w = Some (Ret x, v)"
      and w': "set_senders ob rs v = Some (Ret r, w')"
      by (auto elim!: bindp_RetE seqp_RetE simp: get_senders_def split: option.splits)
    have "Obj ob \<in> alive v" using lifetimes_keptD [OF assms(2) v] ss by (simp del: alive_iff add: alive_iff(2) [of ob w])
    from alive_replace(2) [OF this w'] have same: "alive w' = alive v" "brk w' = brk v" by simp_all
    from simD [OF assms(1) w v] obtain L where "fresh_unused v" "m ss w = Some (Ret x, v\<lparr>locks := L\<rparr>)" "ready (alive v) H L"
      by blast
    with ss w' same show "fresh_unused w' \<and> (\<exists>L. bindp (get_senders ob) (\<lambda>ss. seqp (m ss) (set_senders ob rs)) w
        = Some (Ret r, w'\<lparr>locks := L\<rparr>) \<and> ready (alive w') H L)"
      by (intro conjI exI [of _ L]) (auto simp: fresh_unused_def prog_simps set_senders_def simp del: alive_iff)
  qed
qed

lemma next_then_body_sim:
  assumes "next_then_body s body0 it w = Some (Ret r, w')" and "fresh_unused w" and "ready (alive w) H L"
    and "\<And>c. sim ready H (body0 c) (body c)" and "\<And>c. oblivious (body0 c)"
  shows "fresh_unused w' \<and> (\<exists>M. next_then_body s body it (w\<lparr>locks := L\<rparr>) = Some (Ret r, w'\<lparr>locks := M\<rparr>) \<and> ready (alive w') H M)"
  using assms
proof (induction s body0 it w "(Ret r :: unit outcome, w')" arbitrary: r w' L rule: next_then_body.raw_induct [rotated, consumes 1])
  case (1 f s body0 it w)
  show ?case
  proof (cases it)
    case None
    with 1(2-4) show ?thesis by (auto simp: next_then_body.simps)
  next
    case (Some c)
    with 1(2) obtain cs u v where cs: "m_connected_slots w s = Some cs" "c \<in> set cs"
      and body: "body0 c w = Some (Ret u, v)" and rest: "f s body0 (list_next cs c) v = Some (Ret r, w')"
      by (auto simp: Let_def split: option.splits prod.splits outcome.splits if_splits)
    from simD [OF 1(5) _ _ oblivious_run [OF 1(6) body], of L] 1(3,4) obtain M where
      v: "fresh_unused v" "ready (alive v) H M" and b: "body c (w\<lparr>locks := L\<rparr>) = Some (Ret u, v\<lparr>locks := M\<rparr>)" by auto
    have "next_then_body s body it (w\<lparr>locks := L\<rparr>) = next_then_body s body (list_next cs c) (v\<lparr>locks := M\<rparr>)"
      using cs b by (subst next_then_body.simps) (simp add: Some)
    with 1(1) [OF rest v 1(5,6)] show ?thesis by simp
  qed
qed

lemma sim_next_then_body:
  assumes "\<And>c. sim ready H (body0 c) (body c)" and "\<And>c. oblivious (body0 c)"
  shows "sim ready H (next_then_body s body0 it) (next_then_body s body it)"
proof (rule simI)
  fix w r w'
  assume "next_then_body s body0 it w = Some (Ret r, w')" and "fresh_unused w" "ready (alive w) H (locks w)"
  from next_then_body_sim [where ready = ready, OF this assms]
  show "fresh_unused w' \<and> (\<exists>L. next_then_body s body it w = Some (Ret r, w'\<lparr>locks := L\<rparr>) \<and> ready (alive w') H L)"
    by simp
qed

section \<open>The operations without locks\<close>

text \<open>\<open>needs l m\<close>: \<open>m\<close> can only return when the object \<open>l\<close> is alive.\<close>

definition needs :: "lockable \<Rightarrow> ('a, 'f, 'z) sigprog \<Rightarrow> bool" where
  "needs l m \<longleftrightarrow> (\<forall>w r w'. m w = Some (Ret r, w') \<longrightarrow> l \<in> alive w)"

lemma needs_get [intro]:
  "needs (Sig s) (bindp (get_slots s) k)" "needs (Obj ob) (bindp (get_senders ob) k')"
  by (auto simp: needs_def get_slots_def get_senders_def bindp_def split: option.splits)

lemma needs_bindp:
  assumes "lifetimes_kept m" and "\<And>x. needs l (k x)"
  shows "needs l (bindp m k)"
  unfolding needs_def
proof (intro allI impI)
  fix w r w' assume "bindp m k w = Some (Ret r, w')"
  then obtain x v where "m w = Some (Ret x, v)" "k x v = Some (Ret r, w')" by (auto elim: bindp_RetE)
  with assms show "l \<in> alive w" unfolding needs_def by (metis lifetimes_keptD)
qed

lemma needs_seqp [intro]: "needs l m \<Longrightarrow> needs l (seqp m k)"
  unfolding needs_def by (auto elim!: seqp_RetE)

lemma needs_signal_connect [intro]:
  "needs (Obj ob) (has_slots_signal_connect ob s)" "needs (Obj ob) (has_slots_signal_disconnect ob s)"
  unfolding has_slots_signal_connect_def has_slots_signal_disconnect_def by (rule needs_get)+

lemma needs_push_back [intro]: "needs (Sig s) (push_back s c)"
  unfolding push_back_def by (rule needs_get)

lemmas plain_defs =
  signal0_connect_def signal_base0_disconnect_def signal_base0_disconnect_all_def
  signal_base0_slot_disconnect_def signal_base0_slot_duplicate_def locked_signal_connect_def
  locked_signal_disconnect_def locked_has_slots_disconnect_all_def virtual_same
  lock_block_single_threaded connection0_plain

lemma disconnect_loop_kept:
  "oblivious (signal_base0_disconnect_loop single_threaded s ob its)"
  "lifetimes_kept (signal_base0_disconnect_loop single_threaded s ob its)"
  by (induction its) (simp_all add: has_slots_plain connection0_plain oblivious_intros lifetimes_intros)

lemma plain_oblivious [oblivious_intros]:
  "oblivious (signal0_connect single_threaded s ob f)"
  "oblivious (signal_base0_disconnect single_threaded s ob)"
  "oblivious (signal_base0_disconnect_all single_threaded s)"
  "oblivious (signal_base0_slot_disconnect single_threaded s ob)"
  "oblivious (signal_base0_slot_duplicate single_threaded s old new)"
  "oblivious (locked_has_slots_disconnect_all K single_threaded ob)"
  unfolding plain_defs by (intro oblivious_intros disconnect_loop_kept)+

lemma plain_lifetimes [lifetimes_intros]:
  "lifetimes_kept (signal0_connect single_threaded s ob f)"
  "lifetimes_kept (signal_base0_disconnect single_threaded s ob)"
  "lifetimes_kept (signal_base0_disconnect_all single_threaded s)"
  "lifetimes_kept (signal_base0_slot_disconnect single_threaded s ob)"
  "lifetimes_kept (signal_base0_slot_duplicate single_threaded s old new)"
  "lifetimes_kept (locked_has_slots_disconnect_all K single_threaded ob)"
  unfolding plain_defs by (intro lifetimes_intros disconnect_loop_kept)+

end
