(* ===== verification/Sigslot_Locking.thy ===== *)
theory Sigslot_Locking
  imports Sigslot_Simulation
begin

text \<open>
  What the locks of a threading policy do to a single thread. A policy of the contract
  \<open>thread_policy\<close> lets the thread through every lock it does not hold yet (or through every
  lock, when its mutexes are recursive). Under the contract each locked operation does what the
  operation without locks does, and releases what it locked.
\<close>

section \<open>The contract of a policy\<close>

text \<open>
  \<open>A\<close> are the objects whose part of the policy is constructed. The copy constructor runs when
  there is an object to copy.
\<close>

locale thread_policy =
  fixes P :: "('f, 'z) locked_world_scheme mt_policy" and ready :: readiness and recursive :: bool
  assumes construct_run: "ready A H (locks w) \<Longrightarrow> l \<notin> A \<Longrightarrow>
      \<exists>L. construct P l w = Some (Ret (), w\<lparr>locks := L\<rparr>) \<and> ready (insert l A) H L"
    and copy_construct_run: "ready A H (locks w) \<Longrightarrow> l \<notin> A \<Longrightarrow> A \<noteq> {} \<Longrightarrow>
      \<exists>L. copy_construct P l w = Some (Ret (), w\<lparr>locks := L\<rparr>) \<and> ready (insert l A) H L"
    and destruct_run: "ready A H (locks w) \<Longrightarrow> l \<in> A \<Longrightarrow> l \<notin> set H \<Longrightarrow>
      \<exists>L. destruct P l w = Some (Ret (), w\<lparr>locks := L\<rparr>) \<and> ready (A - {l}) H L"
    and lock_run: "ready A H (locks w) \<Longrightarrow> l \<in> A \<Longrightarrow> recursive \<or> l \<notin> set H \<Longrightarrow>
      \<exists>L. lock P l w = Some (Ret (), w\<lparr>locks := L\<rparr>) \<and> ready A (l # H) L"
    and unlock_run: "ready A (l # H) (locks w) \<Longrightarrow> l \<in> A \<Longrightarrow>
      \<exists>L. unlock P l w = Some (Ret (), w\<lparr>locks := L\<rparr>) \<and> ready A H L"
begin

text \<open>A lock around a program that needs the object.\<close>

lemma sim_at_lock_block:
  assumes m: "sim ready (l # H) m0 m" and l: "recursive \<or> l \<notin> set H" "l \<in> alive w"
    and kept: "oblivious m0" "lifetimes_kept m0"
  shows "sim_at ready H w m0 (lock_block P l m)"
proof (rule sim_atI)
  fix r w' assume w: "fresh_unused w" "ready (alive w) H (locks w)" and run: "m0 w = Some (Ret r, w')"
  from lock_run [OF w(2) l(2,1)] obtain L where lock: "lock P l w = Some (Ret (), w\<lparr>locks := L\<rparr>)" "ready (alive w) (l # H) L"
    by blast
  let ?w = "w\<lparr>locks := L\<rparr>"
  have "fresh_unused ?w" "ready (alive ?w) (l # H) (locks ?w)" using w(1) lock(2) by simp_all
  from simD [OF m this oblivious_run [OF kept(1) run]] obtain M
    where M: "fresh_unused w'" "m ?w = Some (Ret r, w'\<lparr>locks := M\<rparr>)" "ready (alive w') (l # H) M" by auto
  have "l \<in> alive w'" using lifetimes_keptD [OF kept(2) run] l(2) by simp
  with M(3) unlock_run [of "alive w'" l H "w'\<lparr>locks := M\<rparr>"] obtain N
    where "unlock P l (w'\<lparr>locks := M\<rparr>) = Some (Ret (), w'\<lparr>locks := N\<rparr>)" "ready (alive w') H N" by auto
  with M(1,2) lock(1) show "fresh_unused w' \<and> (\<exists>L. lock_block P l m w = Some (Ret r, w'\<lparr>locks := L\<rparr>) \<and> ready (alive w') H L)"
    by (intro conjI exI [of _ N]) (simp_all add: lock_block_def prog_simps)
qed

lemma sim_lock_block:
  assumes "sim ready (l # H) m0 m" and "recursive \<or> l \<notin> set H" "needs l m0"
    and "oblivious m0" "lifetimes_kept m0"
  shows "sim ready H m0 (lock_block P l m)"
proof (rule sim_all)
  fix w show "sim_at ready H w m0 (lock_block P l m)"
    using sim_at_lock_block [OF assms(1,2) _ assms(4,5), of w] assms(3)
    unfolding sim_at_def needs_def by blast
qed

lemma sim_signal_connect:
  assumes "recursive \<or> Obj ob \<notin> set H"
  shows "sim ready H (has_slots_signal_connect ob s) (locked_signal_connect P ob s)"
    and "sim ready H (has_slots_signal_disconnect ob s) (locked_signal_disconnect P ob s)"
  unfolding locked_signal_connect_def locked_signal_disconnect_def
  using assms by (intro sim_lock_block sim_same oblivious_intros lifetimes_intros needs_signal_connect; assumption)+

text \<open>The operations on living objects.\<close>

lemma sim_connect:
  assumes "recursive \<or> Sig s \<notin> set H" and "recursive \<or> Obj ob \<notin> set H"
  shows "sim ready H (signal0_connect single_threaded s ob f) (signal0_connect P s ob f)"
  unfolding signal0_connect_def lock_block_single_threaded connection0_plain has_slots_plain
  using assms
  by (intro sim_lock_block sim_bindp sim_seqp sim_same sim_signal_connect oblivious_intros lifetimes_intros
      needs_bindp needs_seqp needs_push_back) simp_all

lemma sim_slot_disconnect:
  assumes "recursive \<or> Sig s \<notin> set H"
  shows "sim ready H (signal_base0_slot_disconnect single_threaded s ob) (signal_base0_slot_disconnect P s ob)"
    and "sim ready H (signal_base0_slot_duplicate single_threaded s old new) (signal_base0_slot_duplicate P s old new)"
  unfolding signal_base0_slot_disconnect_def signal_base0_slot_duplicate_def lock_block_single_threaded connection0_plain
  using assms by (intro sim_lock_block sim_same oblivious_intros lifetimes_intros needs_get; assumption)+

lemma sim_disconnect_loop:
  assumes "recursive \<or> Obj ob \<notin> set H"
  shows "sim ready H (signal_base0_disconnect_loop single_threaded s ob its) (signal_base0_disconnect_loop P s ob its)"
proof (induction its)
  case Nil
  show ?case unfolding signal_base0_disconnect_loop.simps by (intro sim_same oblivious_intros lifetimes_intros)
next
  case (Cons it its)
  show ?case
    unfolding signal_base0_disconnect_loop.simps has_slots_plain connection0_plain
    by (intro sim_bindp sim_if sim_seqp sim_signal_connect assms Cons sim_same oblivious_intros lifetimes_intros
        disconnect_loop_kept)
qed

lemma sim_disconnect:
  assumes "recursive \<or> Sig s \<notin> set H" and "recursive \<or> Obj ob \<notin> set H"
  shows "sim ready H (signal_base0_disconnect single_threaded s ob) (signal_base0_disconnect P s ob)"
  unfolding signal_base0_disconnect_def lock_block_single_threaded
  using assms
  by (intro sim_lock_block sim_bindp sim_disconnect_loop sim_same oblivious_intros lifetimes_intros
      disconnect_loop_kept needs_get) simp_all

lemma sim_disconnect_all:
  assumes "recursive \<or> Sig s \<notin> set H" and "\<And>ob. recursive \<or> Obj ob \<notin> set H"
  shows "sim ready H (signal_base0_disconnect_all single_threaded s) (signal_base0_disconnect_all P s)"
proof -
  have body: "sim ready (Sig s # H)
      (bindp (get_slots s) (\<lambda>cs. seqp (each_node (\<lambda>it. bindp (connection_getdest it) (\<lambda>dest.
         seqp (has_slots_signal_disconnect dest s) (delete_connection it))) cs) (set_slots s [])))
      (bindp (get_slots s) (\<lambda>cs. seqp (each_node (\<lambda>it. bindp (connection_getdest it) (\<lambda>dest.
         seqp (locked_signal_disconnect P dest s) (delete_connection it))) cs) (set_slots s [])))"
    using assms
    by (intro sim_replace sim_each_node sim_bindp sim_seqp sim_signal_connect sim_same oblivious_intros
        lifetimes_intros) simp
  show ?thesis
    unfolding signal_base0_disconnect_all_def lock_block_single_threaded has_slots_plain connection0_plain
    by (intro sim_lock_block body oblivious_intros lifetimes_intros needs_get) (use assms in simp)
qed

lemma sim_has_slots_disconnect_all:
  assumes "recursive \<or> Obj ob \<notin> set H" and "\<And>s. recursive \<or> Sig s \<notin> set H"
  shows "sim ready H (locked_has_slots_disconnect_all K single_threaded ob) (locked_has_slots_disconnect_all K P ob)"
proof -
  have body: "sim ready (Obj ob # H)
      (bindp (get_senders ob) (\<lambda>ss. seqp (each_node (\<lambda>it. signal_base0_slot_disconnect single_threaded it ob) ss) (set_senders ob [])))
      (bindp (get_senders ob) (\<lambda>ss. seqp (each_node (\<lambda>it. signal_base0_slot_disconnect P it ob) ss) (set_senders ob [])))"
    using assms
    by (intro sim_replace sim_each_node sim_slot_disconnect oblivious_intros lifetimes_intros) simp
  show ?thesis
    unfolding locked_has_slots_disconnect_all_def lock_block_single_threaded virtual_same
    by (intro sim_lock_block body oblivious_intros lifetimes_intros needs_get) (use assms in simp)
qed

text \<open>Lifetimes that end.\<close>

lemma sim_end_lifetime:
  assumes m: "sim ready H m0 m" "needs l m0" "lifetimes_kept m0" and l: "l \<notin> set H"
    and u: "\<And>v. alive (u v) = alive v - {l}" "\<And>v. brk (u v) = brk v" "\<And>v. locks (u v) = locks v"
      "\<And>v L. u (v\<lparr>locks := L\<rparr>) = (u v)\<lparr>locks := L\<rparr>"
  shows "sim ready H (seqp m0 (modifyp u)) (seqp m (seqp (modifyp u) (destruct P l)))"
proof (rule simI)
  fix w r w' assume w: "fresh_unused w" "ready (alive w) H (locks w)" and "seqp m0 (modifyp u) w = Some (Ret r, w')"
  then obtain x v where v: "m0 w = Some (Ret x, v)" and w': "w' = u v" by (auto elim!: seqp_RetE)
  from simD [OF m(1) w v] obtain L where L: "fresh_unused v" "m w = Some (Ret x, v\<lparr>locks := L\<rparr>)" "ready (alive v) H L"
    by blast
  have "l \<in> alive v" using m(2) v lifetimes_keptD [OF m(3) v] by (simp add: needs_def)
  with destruct_run [of "alive v" H "w'\<lparr>locks := L\<rparr>" l] L(3) l obtain M
    where M: "destruct P l (w'\<lparr>locks := L\<rparr>) = Some (Ret (), w'\<lparr>locks := M\<rparr>)" "ready (alive w') H M"
    by (auto simp: w' u)
  have "fresh_unused w'" using L(1) by (auto simp: fresh_unused_def w' u simp del: alive_iff)
  moreover have "seqp m (seqp (modifyp u) (destruct P l)) w = Some (Ret r, w'\<lparr>locks := M\<rparr>)"
    using L(2) M(1) by (simp add: prog_simps u w')
  ultimately show "fresh_unused w' \<and> (\<exists>L. seqp m (seqp (modifyp u) (destruct P l)) w = Some (Ret r, w'\<lparr>locks := L\<rparr>)
      \<and> ready (alive w') H L)" using M(2) by blast
qed

lemma needs_disconnect_all:
  "needs (Sig s) (signal_base0_disconnect_all single_threaded s)"
  "needs (Obj ob) (locked_has_slots_disconnect_all K single_threaded ob)"
  unfolding signal_base0_disconnect_all_def locked_has_slots_disconnect_all_def lock_block_single_threaded
  by (rule needs_get)+

lemma sim_destroy:
  "sim ready [] (signal0_destroy single_threaded s) (signal0_destroy P s)"
  "sim ready [] (locked_has_slots_destroy K single_threaded ob) (locked_has_slots_destroy K P ob)"
  unfolding signal0_destroy_def signal_base0_destroy_def locked_has_slots_destroy_def single_threaded_simps seqp_unit
  by (intro sim_end_lifetime sim_disconnect_all sim_has_slots_disconnect_all needs_disconnect_all plain_lifetimes;
      auto simp: alive_def split: lockable.splits if_splits)+

text \<open>Lifetimes that begin.\<close>

lemma sim_begin_lifetime:
  assumes con: "\<And>A v. Q A \<Longrightarrow> ready A H (locks v) \<Longrightarrow> l a \<notin> A \<Longrightarrow>
      \<exists>L. c (l a) v = Some (Ret (), v\<lparr>locks := L\<rparr>) \<and> ready (insert (l a) A) H L"
    and l: "l = Sig \<or> l = Obj" and Q: "Q (alive w)" and a: "a = brk w"
    and u: "\<And>v. alive (u v) = insert (l a) (alive v)" "\<And>v. brk (u v) = brk v" "\<And>v. locks (u v) = locks v"
      "\<And>v L. u (v\<lparr>locks := L\<rparr>) = (u v)\<lparr>locks := L\<rparr>"
    and k: "\<And>v. l a \<in> alive v \<Longrightarrow> sim_at ready H v k0 k" "oblivious k0"
    and w: "fresh_unused w" "ready (alive w) H (locks w)"
    and run: "k0 (u (w\<lparr>brk := Suc (brk w)\<rparr>)) = Some (Ret r, w')"
  shows "fresh_unused w' \<and> (\<exists>L. seqp (c (l a)) (seqp (modifyp u) k) (w\<lparr>brk := Suc (brk w)\<rparr>) = Some (Ret r, w'\<lparr>locks := L\<rparr>)
      \<and> ready (alive w') H L)"
proof -
  let ?w = "w\<lparr>brk := Suc (brk w)\<rparr>"
  have al: "alive ?w = alive w" by (rule alive_cong) simp_all
  have new: "l a \<notin> alive w" using w(1) l by (auto simp: fresh_unused_def a simp del: alive_iff)
  from con [OF Q, of ?w] new w(2) obtain L where L: "c (l a) ?w = Some (Ret (), ?w\<lparr>locks := L\<rparr>)"
    "ready (insert (l a) (alive w)) H L" by auto
  let ?v = "(u ?w)\<lparr>locks := L\<rparr>"
  have "fresh_unused ?v" using w(1) l
    by (auto simp: fresh_unused_def u al a simp del: alive_iff)
  moreover have "ready (alive ?v) H (locks ?v)" using L(2) by (simp add: u al)
  ultimately have "fresh_unused (w'\<lparr>locks := L\<rparr>) \<and> (\<exists>M. k ?v = Some (Ret r, (w'\<lparr>locks := L\<rparr>)\<lparr>locks := M\<rparr>)
      \<and> ready (alive (w'\<lparr>locks := L\<rparr>)) H M)"
    by (intro sim_atD [OF k(1) _ _ oblivious_run [OF k(2) run]]) (simp_all add: u)
  with L(1) show ?thesis by (auto simp: prog_simps u)
qed

lemma alive_begin:
  "alive (v\<lparr>m_connected_slots := (m_connected_slots v)(a \<mapsto> cs)\<rparr>) = insert (Sig a) (alive v)"
  "alive (v\<lparr>m_senders := (m_senders v)(a \<mapsto> ss)\<rparr>) = insert (Obj a) (alive v)"
  by (auto simp: alive_def split: lockable.splits if_splits)

lemma sim_begin_signal:
  assumes con: "\<And>A v l. Q A \<Longrightarrow> ready A H (locks v) \<Longrightarrow> l \<notin> A \<Longrightarrow>
      \<exists>L. c l v = Some (Ret (), v\<lparr>locks := L\<rparr>) \<and> ready (insert l A) H L"
    and Q: "Q (alive w)" and k: "\<And>a v. Sig a \<in> alive v \<Longrightarrow> sim_at ready H v (k0 a) (k a)" "\<And>a. oblivious (k0 a)"
    and w: "fresh_unused w" "ready (alive w) H (locks w)"
    and run: "bindp fresh_address (\<lambda>a. seqp (set_slots a []) (k0 a)) w = Some (Ret r, w')"
  shows "fresh_unused w' \<and> (\<exists>L. bindp fresh_address (\<lambda>a. seqp (c (Sig a)) (seqp (set_slots a []) (k a))) w
      = Some (Ret r, w'\<lparr>locks := L\<rparr>) \<and> ready (alive w') H L)"
proof -
  let ?u = "\<lambda>v. v\<lparr>m_connected_slots := (m_connected_slots v)(brk w \<mapsto> [])\<rparr>"
  have "k0 (brk w) (?u (w\<lparr>brk := Suc (brk w)\<rparr>)) = Some (Ret r, w')"
    using run by (simp add: fresh_address_def set_slots_def bindp_run seqp_run)
  from sim_begin_lifetime [where Q = Q and c = c and l = Sig and u = ?u, OF con _ Q refl _ _ _ _ k w this]
  show ?thesis by (simp add: fresh_address_def set_slots_def bindp_run alive_begin)
qed

lemma sim_begin_object:
  assumes con: "\<And>A v l. Q A \<Longrightarrow> ready A H (locks v) \<Longrightarrow> l \<notin> A \<Longrightarrow>
      \<exists>L. c l v = Some (Ret (), v\<lparr>locks := L\<rparr>) \<and> ready (insert l A) H L"
    and Q: "Q (alive w)" and k: "\<And>a v. Obj a \<in> alive v \<Longrightarrow> sim_at ready H v (k0 a) (k a)" "\<And>a. oblivious (k0 a)"
    and w: "fresh_unused w" "ready (alive w) H (locks w)"
    and run: "bindp fresh_address (\<lambda>a. seqp (set_senders a []) (k0 a)) w = Some (Ret r, w')"
  shows "fresh_unused w' \<and> (\<exists>L. bindp fresh_address (\<lambda>a. seqp (c (Obj a)) (seqp (set_senders a []) (k a))) w
      = Some (Ret r, w'\<lparr>locks := L\<rparr>) \<and> ready (alive w') H L)"
proof -
  let ?u = "\<lambda>v. v\<lparr>m_senders := (m_senders v)(brk w \<mapsto> [])\<rparr>"
  have "k0 (brk w) (?u (w\<lparr>brk := Suc (brk w)\<rparr>)) = Some (Ret r, w')"
    using run by (simp add: fresh_address_def set_senders_def bindp_run seqp_run)
  from sim_begin_lifetime [where Q = Q and c = c and l = Obj and u = ?u, OF con _ Q refl _ _ _ _ k w this]
  show ?thesis by (simp add: fresh_address_def set_senders_def bindp_run alive_begin)
qed

lemma new_run:
  assumes w: "fresh_unused w" "ready (alive w) H (locks w)"
  shows "signal0_new single_threaded w = Some (Ret r, w') \<Longrightarrow> fresh_unused w'
       \<and> (\<exists>L. signal0_new P w = Some (Ret r, w'\<lparr>locks := L\<rparr>) \<and> ready (alive w') H L)"
    and "locked_has_slots_new single_threaded w = Some (Ret r, w') \<Longrightarrow> fresh_unused w'
       \<and> (\<exists>L. locked_has_slots_new P w = Some (Ret r, w'\<lparr>locks := L\<rparr>) \<and> ready (alive w') H L)"
  unfolding signal0_new_def signal_base0_new_def locked_has_slots_new_def single_threaded_simps seqp_returnp
  by (rule sim_begin_signal [where Q = "\<lambda>_. True", OF construct_run _ _ _ w]
      sim_begin_object [where Q = "\<lambda>_. True", OF construct_run _ _ _ w];
      simp add: sim_same sim_atE oblivious_intros lifetimes_intros)+

lemma signal_copy_run_locked:
  assumes w: "fresh_unused w" "ready (alive w) [] (locks w)" and s: "Sig s \<in> alive w"
    and run: "signal0_copy single_threaded s w = Some (Ret r, w')"
  shows "fresh_unused w' \<and> (\<exists>L. signal0_copy P s w = Some (Ret r, w'\<lparr>locks := L\<rparr>) \<and> ready (alive w') [] L)"
  unfolding signal0_copy_def signal_base0_copy_def
proof (rule sim_begin_signal [where Q = "\<lambda>A. A \<noteq> {}", OF _ _ _ _ w run [unfolded signal0_copy_def signal_base0_copy_def single_threaded_simps seqp_returnp]])
  show "\<exists>L. copy_construct P l v = Some (Ret (), v\<lparr>locks := L\<rparr>) \<and> ready (insert l A) [] L"
    if "A \<noteq> {}" "ready A [] (locks v)" "l \<notin> A" for A v l
    using copy_construct_run [OF that(2,3,1)] .
  show "alive w \<noteq> {}" using s by blast
next
  fix a v
  assume a: "Sig a \<in> alive (v :: ('f, 'z) locked_world_scheme)"
  show "sim_at ready [] v
     (seqp (lock_block single_threaded (Sig a) (bindp (get_slots s) (each_node (\<lambda>it. bindp (connection0_getdest it)
        (\<lambda>dest. seqp (locked_signal_connect single_threaded dest a) (bindp (connection0_clone it) (push_back a))))))) (returnp a))
     (seqp (lock_block P (Sig a) (bindp (get_slots s) (each_node (\<lambda>it. bindp (connection0_getdest it)
        (\<lambda>dest. seqp (locked_signal_connect P dest a) (bindp (connection0_clone it) (push_back a))))))) (returnp a))"
    unfolding lock_block_single_threaded has_slots_plain connection0_plain
    by (intro sim_at_seqp sim_at_lock_block sim_bindp sim_each_node sim_seqp sim_signal_connect a
        sim_same oblivious_intros lifetimes_intros) simp_all
next
  fix a
  show "oblivious (seqp (lock_block single_threaded (Sig a) (bindp (get_slots s) (each_node (\<lambda>it. bindp (connection0_getdest it)
        (\<lambda>dest. seqp (locked_signal_connect single_threaded dest a) (bindp (connection0_clone it) (push_back a))))))) (returnp a))"
    unfolding lock_block_single_threaded has_slots_plain connection0_plain by (intro oblivious_intros)
qed

lemma has_slots_copy_run_locked:
  assumes w: "fresh_unused w" "ready (alive w) [] (locks w)" and ob: "Obj ob \<in> alive w"
    and run: "locked_has_slots_copy K single_threaded ob w = Some (Ret r, w')"
  shows "fresh_unused w' \<and> (\<exists>L. locked_has_slots_copy K P ob w = Some (Ret r, w'\<lparr>locks := L\<rparr>) \<and> ready (alive w') [] L)"
  unfolding locked_has_slots_copy_def
proof (rule sim_begin_object [where Q = "\<lambda>A. A \<noteq> {}", OF _ _ _ _ w run [unfolded locked_has_slots_copy_def single_threaded_simps seqp_returnp]])
  show "\<exists>L. copy_construct P l v = Some (Ret (), v\<lparr>locks := L\<rparr>) \<and> ready (insert l A) [] L"
    if "A \<noteq> {}" "ready A [] (locks v)" "l \<notin> A" for A v l
    using copy_construct_run [OF that(2,3,1)] .
  show "alive w \<noteq> {}" using ob by blast
next
  fix a v
  assume a: "Obj a \<in> alive (v :: ('f, 'z) locked_world_scheme)"
  show "sim_at ready [] v
     (seqp (lock_block single_threaded (Obj a) (bindp (get_senders ob) (each_node (\<lambda>it.
        seqp (virtual_slot_duplicate K single_threaded it ob a)
        (bindp (get_senders a) (\<lambda>m_senders. set_senders a (insort_insert it m_senders))))))) (returnp a))
     (seqp (lock_block P (Obj a) (bindp (get_senders ob) (each_node (\<lambda>it.
        seqp (virtual_slot_duplicate K P it ob a)
        (bindp (get_senders a) (\<lambda>m_senders. set_senders a (insort_insert it m_senders))))))) (returnp a))"
    unfolding lock_block_single_threaded virtual_same has_slots_signal_connect_def [symmetric]
    by (intro sim_at_seqp sim_at_lock_block sim_bindp sim_each_node sim_seqp sim_slot_disconnect a
        sim_same oblivious_intros lifetimes_intros) simp_all
next
  fix a
  show "oblivious (seqp (lock_block single_threaded (Obj a) (bindp (get_senders ob) (each_node (\<lambda>it.
        seqp (virtual_slot_duplicate K single_threaded it ob a)
        (bindp (get_senders a) (\<lambda>m_senders. set_senders a (insort_insert it m_senders))))))) (returnp a))"
    unfolding lock_block_single_threaded virtual_same by (intro oblivious_intros)
qed

text \<open>An emission whose slots, run with the lock of the signal held, do what they do without locks.\<close>

lemma sim_emit:
  assumes "recursive \<or> Sig s \<notin> set H" and slots: "\<And>f ob. sim ready (Sig s # H) (invoke0 f ob) (invoke f ob)"
    and kept: "\<And>f ob. oblivious (invoke0 f ob)" "\<And>f ob. lifetimes_kept (invoke0 f ob)"
  shows "sim ready H (signal0_emit single_threaded invoke0 s) (signal0_emit P invoke s)"
  unfolding signal0_emit_def lock_block_single_threaded connection0_emit_def
  using assms
  by (intro sim_lock_block sim_bindp sim_next_then_body sim_same oblivious_intros lifetimes_intros needs_get kept slots)

end

end
