(* ===== verification/Sigslot_Calls.thy ===== *)
theory Sigslot_Calls
  imports Sigslot_Locking
begin

text \<open>
  Sequences of calls of the library under a threading policy, and the four policies that meet
  the contract \<open>thread_policy\<close>. The fifth, the global policy on POSIX threads, does not.
\<close>

section \<open>Sequences of calls\<close>

text \<open>The objects a call names.\<close>

fun names :: "'f call \<Rightarrow> lockable set" where
  "names (New_signal k) = {}"
| "names New_object = {}"
| "names (Connect s ob f) = {Sig s, Obj ob}"
| "names (Disconnect s ob) = {Sig s, Obj ob}"
| "names (Disconnect_all s) = {Sig s}"
| "names (Copy_signal s) = {Sig s}"
| "names (Destroy_signal s) = {Sig s}"
| "names (Disconnect_object ob) = {Obj ob}"
| "names (Copy_object ob) = {Obj ob}"
| "names (Destroy_object ob) = {Obj ob}"

fun run_calls :: "('f call \<Rightarrow> (unit, 's) prog) \<Rightarrow> 'f call list \<Rightarrow> (unit, 's) prog" where
  "run_calls e [] = returnp ()"
| "run_calls e (c # cs) = seqp (e c) (run_calls e cs)"

text \<open>Every call names living objects only.\<close>

fun well_used :: "'f call list \<Rightarrow> ('f, 'z) world_scheme \<Rightarrow> bool" where
  "well_used [] w = True"
| "well_used (c # cs) w =
     (names c \<subseteq> alive w \<and> (case exec_plain c w of Some (Ret u, w') \<Rightarrow> well_used cs w' | _ \<Rightarrow> False))"

text \<open>
  A program that keeps to the rules: every call names living objects only, and an object is not
  disconnected from a signal it was connected to twice. That the calls return is not assumed.
\<close>

fun allowed :: "'f call \<Rightarrow> ('f, 'z) world_scheme \<Rightarrow> bool" where
  "allowed (Disconnect s ob) w = (names (Disconnect s ob :: 'f call) \<subseteq> alive w \<and> connected_once w s ob)"
| "allowed c w = (names c \<subseteq> alive w)"

fun careful :: "'f call list \<Rightarrow> ('f, 'z) world_scheme \<Rightarrow> bool" where
  "careful [] w = True"
| "careful (c # cs) w =
     (allowed c w \<and> (case exec_plain c w of Some (Ret u, w') \<Rightarrow> careful cs w' | _ \<Rightarrow> True))"

lemma allowed_names: "allowed c w \<Longrightarrow> names c \<subseteq> alive w"
  by (cases c) simp_all

text \<open>In a consistent world such a call returns, and is a step of the library.\<close>

lemma allowed_step:
  assumes con: "consistent w" and "allowed c w"
  shows "\<exists>w'. exec_plain c w = Some (Ret (), w') \<and> sig_step w w'"
proof (cases c)
  case (New_signal k)
  obtain s w' where "signal_new w = Some (Ret s, w')"
    by (simp add: signal_new_def fresh_address_def set_slots_def prog_simps)
  then show ?thesis by (auto simp: New_signal ignore_result_def prog_simps intro: sig_step.new_signal)
next
  case New_object
  obtain ob w' where "has_slots_new w = Some (Ret ob, w')"
    by (simp add: has_slots_new_def fresh_address_def set_senders_def prog_simps)
  then show ?thesis by (auto simp: New_object ignore_result_def prog_simps intro: sig_step.new_object)
next
  case (Connect s ob f)
  with assms(2) obtain cs ss where "m_connected_slots w s = Some cs" "m_senders w ob = Some ss" by auto
  then show ?thesis using signal_connect_with [of w s cs ob ss f] by (auto simp: Connect intro: sig_step.connect)
next
  case (Disconnect s ob)
  with assms(2) obtain cs ss where "m_connected_slots w s = Some cs" "m_senders w ob = Some ss" "connected_once w s ob"
    by auto
  then show ?thesis
    using signal_disconnect_returns [OF con, of s cs ob ss] by (auto simp: Disconnect intro: sig_step.disconnect)
next
  case (Disconnect_all s)
  with assms(2) obtain cs where "m_connected_slots w s = Some cs" by auto
  then show ?thesis
    using signal_disconnect_all_run [OF con, of s cs] by (auto simp: Disconnect_all intro: sig_step.disconnect_all)
next
  case (Copy_signal s)
  with assms(2) obtain cs where "m_connected_slots w s = Some cs" by auto
  then show ?thesis
    using signal_copy_run [OF con, of s cs]
    by (auto simp: Copy_signal ignore_result_def prog_simps intro: sig_step.copy_signal)
next
  case (Destroy_signal s)
  with assms(2) obtain cs where cs: "m_connected_slots w s = Some cs" by auto
  then obtain w' where "signal_destroy s w = Some (Ret (), w')"
    using signal_disconnect_all_run [OF con cs] by (simp add: signal_destroy_def prog_simps)
  with cs show ?thesis by (auto simp: Destroy_signal intro: sig_step.destroy_signal)
next
  case (Disconnect_object ob)
  with assms(2) obtain ss where "m_senders w ob = Some ss" by auto
  then show ?thesis
    using has_slots_disconnect_all_run [OF con, of ob ss]
    by (auto simp: Disconnect_object intro: sig_step.object_disconnect_all)
next
  case (Copy_object ob)
  with assms(2) obtain ss where "m_senders w ob = Some ss" by auto
  then show ?thesis
    using has_slots_copy_run [OF con, of ob ss]
    by (auto simp: Copy_object ignore_result_def prog_simps intro: sig_step.copy_object)
next
  case (Destroy_object ob)
  with assms(2) obtain ss where ss: "m_senders w ob = Some ss" by auto
  then obtain w' where "has_slots_destroy ob w = Some (Ret (), w')"
    using has_slots_disconnect_all_run [OF con ss] by (simp add: has_slots_destroy_def prog_simps)
  with ss show ?thesis by (auto simp: Destroy_object intro: sig_step.destroy_object)
qed

lemma careful_runs:
  assumes "consistent w" and "careful cs w"
  shows "well_used cs w \<and> (\<exists>w'. run_calls exec_plain cs w = Some (Ret (), w') \<and> consistent w')"
  using assms
proof (induction cs arbitrary: w)
  case Nil
  then show ?case by simp
next
  case (Cons c cs)
  from Cons.prems have ok: "allowed c w" by simp
  from allowed_step [OF Cons.prems(1) this] obtain v where v: "exec_plain c w = Some (Ret (), v)" "sig_step w v" by blast
  with Cons.prems have "consistent v" "careful cs v" by (auto intro: sig_step_consistent)
  from Cons.IH [OF this] v allowed_names [OF ok] show ?case by (simp add: seqp_run)
qed

lemma oblivious_exec: "oblivious (exec_plain c)"
proof -
  have "oblivious (exec K single_threaded c)" for K
    by (cases c)
      (auto simp: any_class ignore_result_def signal0_new_def signal_base0_new_def locked_has_slots_new_def
        signal0_copy_def signal_base0_copy_def locked_has_slots_copy_def signal0_destroy_def signal_base0_destroy_def
        locked_has_slots_destroy_def virtual_same has_slots_plain connection0_plain seqp_unit
        intro!: oblivious_intros)
  then show ?thesis by (simp add: exec_single_threaded)
qed

lemma oblivious_calls: "oblivious (run_calls exec_plain cs)"
  by (induction cs) (unfold run_calls.simps, (intro oblivious_intros oblivious_exec; assumption)+)

lemma well_used_locks: "well_used cs (w\<lparr>locks := L\<rparr>) = well_used cs w"
proof (induction cs arbitrary: w)
  case Nil
  show ?case by simp
next
  case (Cons c cs)
  show ?case
    by (simp add: obliviousD [OF oblivious_exec] Cons split: option.split outcome.split prod.split)
qed

context thread_policy
begin

lemma exec_sim:
  assumes "names c \<subseteq> alive w" and w: "fresh_unused w" "ready (alive w) [] (locks w)"
    and run: "exec_plain c w = Some (Ret u, w')"
  shows "fresh_unused w' \<and> (\<exists>L. exec K P c w = Some (Ret u, w'\<lparr>locks := L\<rparr>) \<and> ready (alive w') [] L)"
proof -
  note run' = run [folded exec_single_threaded [of K]]
  have simple: ?thesis if "exec K single_threaded c = m0" "exec K P c = m" "sim ready [] m0 m" for m0 m
    using simD [OF that(3) w] run' that(1,2) by simp
  show ?thesis
  proof (cases c)
    case (New_signal k)
    with run' obtain s where "signal0_new single_threaded w = Some (Ret s, w')"
      by (auto simp: any_class ignore_result_def elim!: bindp_RetE)
    from new_run(1) [OF w this] show ?thesis by (auto simp: New_signal any_class ignore_result_def prog_simps)
  next
    case New_object
    with run' obtain ob where "locked_has_slots_new single_threaded w = Some (Ret ob, w')"
      by (auto simp: ignore_result_def elim!: bindp_RetE)
    from new_run(2) [OF w this] show ?thesis by (auto simp: New_object ignore_result_def prog_simps)
  next
    case (Copy_signal s)
    with run' obtain a where a: "signal0_copy single_threaded s w = Some (Ret a, w')"
      by (auto simp: any_class ignore_result_def elim!: bindp_RetE)
    have "Sig s \<in> alive w" using assms(1) Copy_signal by simp
    from signal_copy_run_locked [OF w this a] show ?thesis
      by (auto simp: Copy_signal any_class ignore_result_def prog_simps)
  next
    case (Copy_object ob)
    with run' obtain a where a: "locked_has_slots_copy K single_threaded ob w = Some (Ret a, w')"
      by (auto simp: ignore_result_def elim!: bindp_RetE)
    have "Obj ob \<in> alive w" using assms(1) Copy_object by simp
    from has_slots_copy_run_locked [OF w this a] show ?thesis
      by (auto simp: Copy_object ignore_result_def prog_simps)
  next
    case (Connect s ob f)
    then show ?thesis by (intro simple [OF _ _ sim_connect [of s "[]" ob f]]) (simp_all add: any_class)
  next
    case (Disconnect s ob)
    then show ?thesis by (intro simple [OF _ _ sim_disconnect [of s "[]" ob]]) (simp_all add: any_class)
  next
    case (Disconnect_all s)
    then show ?thesis by (intro simple [OF _ _ sim_disconnect_all [of s "[]"]]) (simp_all add: any_class)
  next
    case (Destroy_signal s)
    then show ?thesis by (intro simple [OF _ _ sim_destroy(1)]) (simp_all add: any_class)
  next
    case (Disconnect_object ob)
    then show ?thesis by (intro simple [OF _ _ sim_has_slots_disconnect_all [of ob "[]"]]) simp_all
  next
    case (Destroy_object ob)
    then show ?thesis by (intro simple [OF _ _ sim_destroy(2)]) simp_all
  qed
qed

text \<open>A sequence of calls under the policy ends where it ends without locks, with no lock held.\<close>

lemma calls_sim:
  assumes "well_used cs w" and "fresh_unused w" "ready (alive w) [] (locks w)"
    and "run_calls exec_plain cs w = Some (Ret u, w')"
  shows "fresh_unused w' \<and> (\<exists>L. run_calls (exec K P) cs w = Some (Ret u, w'\<lparr>locks := L\<rparr>) \<and> ready (alive w') [] L)"
  using assms
proof (induction cs arbitrary: w w')
  case Nil
  then show ?case by (auto intro!: exI [of _ "locks w"])
next
  case (Cons c cs)
  from Cons.prems(1) obtain v where v: "exec_plain c w = Some (Ret (), v)" "well_used cs v" "names c \<subseteq> alive w"
    by (auto split: option.splits prod.splits outcome.splits)
  from exec_sim [OF v(3) Cons.prems(2,3) v(1)] obtain L where L: "fresh_unused v"
    "exec K P c w = Some (Ret (), v\<lparr>locks := L\<rparr>)" "ready (alive v) [] L" by blast
  have rest: "run_calls exec_plain cs v = Some (Ret u, w')" using Cons.prems(4) v(1) by (simp add: seqp_run)
  from oblivious_run [OF oblivious_calls rest] have "run_calls exec_plain cs (v\<lparr>locks := L\<rparr>) = Some (Ret u, w'\<lparr>locks := L\<rparr>)" .
  with L v(2) have "fresh_unused (w'\<lparr>locks := L\<rparr>)
      \<and> (\<exists>M. run_calls (exec K P) cs (v\<lparr>locks := L\<rparr>) = Some (Ret u, (w'\<lparr>locks := L\<rparr>)\<lparr>locks := M\<rparr>)
      \<and> ready (alive (w'\<lparr>locks := L\<rparr>)) [] M)"
    by (intro Cons.IH) (simp_all add: well_used_locks)
  with L(2) show ?case by (simp add: seqp_run)
qed

end

section \<open>The policies that meet the contract\<close>

lemma locks_kept [simp]: "w = w\<lparr>locks := L\<rparr> \<longleftrightarrow> L = locks w"
proof
  assume "w = w\<lparr>locks := L\<rparr>"
  from arg_cong [OF this, of locks] show "L = locks w" by simp
next
  assume L: "L = locks w"
  have "w\<lparr>locks := locks w\<rparr> = w" by simp
  with L show "w = w\<lparr>locks := L\<rparr>" by metis
qed

interpretation unlocked: thread_policy single_threaded "\<lambda>A H L. True" True
  by unfold_locales simp_all

text \<open>With a mutex in each object, those of living objects are free unless the thread holds them.\<close>

definition posix_local_ready :: readiness where
  "posix_local_ready A H L \<longleftrightarrow> set H \<subseteq> A \<and> distinct H \<and> mutexes L Static_mutex = Not_set_up
     \<and> (\<forall>l. mutexes L (Mutex_of l) = (if l \<notin> A then Not_set_up else if l \<in> set H then Locked 1 else Unlocked))"

definition win32_local_ready :: readiness where
  "win32_local_ready A H L \<longleftrightarrow> set H \<subseteq> A \<and> mutexes L Static_mutex = Not_set_up
     \<and> (\<forall>l. mutexes L (Mutex_of l) =
           (if l \<notin> A then Not_set_up else if l \<in> set H then Locked (count_list H l) else Unlocked))"

text \<open>The static critical section counts all locks together; the first object sets it up.\<close>

definition win32_global_ready :: readiness where
  "win32_global_ready A H L \<longleftrightarrow> (\<forall>l. mutexes L (Mutex_of l) = Not_set_up) \<and>
     (if isinitialised L then mutexes L Static_mutex = (if H = [] then Unlocked else Locked (length H))
      else mutexes L Static_mutex = Not_set_up \<and> A = {} \<and> H = [])"

lemma mutex_primitives [simp]:
  "get_mutex m w = Some (Ret (mutexes (locks w) m), w)"
  "set_mutex m st w = Some (Ret (), w\<lparr>locks := (locks w)\<lparr>mutexes := (mutexes (locks w))(m := st)\<rparr>\<rparr>)"
  by (simp_all add: get_mutex_def set_mutex_def)

interpretation posix_local: thread_policy posix_local posix_local_ready False
  by unfold_locales
    (auto simp: posix_local_def posix_local_ready_def pthread_mutex_init_def pthread_mutex_destroy_def
      pthread_mutex_lock_def pthread_mutex_unlock_def bindp_run split: if_splits)

interpretation win32_local: thread_policy win32_local win32_local_ready True
  by unfold_locales
    (auto simp: win32_local_def win32_local_ready_def InitializeCriticalSection_def DeleteCriticalSection_def
      EnterCriticalSection_def LeaveCriticalSection_def bindp_run count_list_0_iff split: if_splits)

interpretation win32_global: thread_policy win32_global win32_global_ready True
  by unfold_locales
    (auto simp: win32_global_def win32_global_ready_def win32_global_construct_def InitializeCriticalSection_def
      EnterCriticalSection_def LeaveCriticalSection_def bindp_run seqp_run split: if_splits)

end
