(* ===== verification/Sigslot_Threads.thy ===== *)
theory Sigslot_Threads
  imports Sigslot_Calls
begin

text \<open>
  Several threads that use the library at once, seen through the locks they take: a policy that
  records which objects a call locks, and threads that run such records against shared mutexes.
\<close>

section \<open>Recording locks\<close>

definition record_event :: "lock_event \<Rightarrow> (unit, 'f, 'z) lockprog" where
  "record_event e = modifyp (\<lambda>w. w\<lparr>locks := (locks w)\<lparr>events := events (locks w) @ [e]\<rparr>\<rparr>)"

definition recording :: "('f, 'z) locked_world_scheme mt_policy" where
  "recording =
     \<lparr>construct = (\<lambda>this. returnp ()), copy_construct = (\<lambda>this. returnp ()), destruct = (\<lambda>this. returnp ()),
      lock = (\<lambda>this. record_event (Acquire this)), unlock = (\<lambda>this. record_event (Release this))\<rparr>"

text \<open>The locks held after some events, the latest first; releases must come in the opposite order.\<close>

fun replay :: "lockable list \<Rightarrow> lock_event list \<Rightarrow> lockable list option" where
  "replay H [] = Some H"
| "replay H (Acquire l # es) = replay (l # H) es"
| "replay [] (Release l # es) = None"
| "replay (h # H) (Release l # es) = (if h = l then replay H es else None)"

lemma replay_append: "replay H (es @ fs) = (case replay H es of None \<Rightarrow> None | Some H' \<Rightarrow> replay H' fs)"
  by (induction H es rule: replay.induct) simp_all

definition recorded_ready :: readiness where
  "recorded_ready A H L \<longleftrightarrow> replay [] (events L) = Some H"

interpretation recorded: thread_policy recording recorded_ready True
  by unfold_locales (auto simp: recording_def record_event_def recorded_ready_def replay_append)

section \<open>Threads\<close>

text \<open>
  A mutex is owned by a thread, with the number of times it was locked. \<open>recursive\<close> mutexes may
  be locked again by their owner; otherwise the owner waits, for itself, like any other thread.
\<close>

record threads =
  owner :: "mutex \<Rightarrow> (nat \<times> nat) option"
  todo :: "nat \<Rightarrow> lock_event list"

inductive thread_step :: "(lockable \<Rightarrow> mutex) \<Rightarrow> bool \<Rightarrow> threads \<Rightarrow> threads \<Rightarrow> bool" for mutex_of recursive where
  acquire: "todo T i = Acquire l # es \<Longrightarrow> owner T (mutex_of l) = None \<Longrightarrow>
     thread_step mutex_of recursive T (T\<lparr>owner := (owner T)(mutex_of l \<mapsto> (i, 0)), todo := (todo T)(i := es)\<rparr>)"
| acquire_again: "recursive \<Longrightarrow> todo T i = Acquire l # es \<Longrightarrow> owner T (mutex_of l) = Some (i, n) \<Longrightarrow>
     thread_step mutex_of recursive T (T\<lparr>owner := (owner T)(mutex_of l \<mapsto> (i, Suc n)), todo := (todo T)(i := es)\<rparr>)"
| release: "todo T i = Release l # es \<Longrightarrow> owner T (mutex_of l) = Some (i, n) \<Longrightarrow>
     thread_step mutex_of recursive T (T\<lparr>owner := (owner T)(mutex_of l := (if n = 0 then None else Some (i, n - 1))),
        todo := (todo T)(i := es)\<rparr>)"

definition threads_start :: "(nat \<Rightarrow> lock_event list) \<Rightarrow> threads" where
  "threads_start es = \<lparr>owner = Map.empty, todo = es\<rparr>"

definition deadlocked :: "(lockable \<Rightarrow> mutex) \<Rightarrow> bool \<Rightarrow> threads \<Rightarrow> bool" where
  "deadlocked mutex_of recursive T \<longleftrightarrow> (\<exists>i. todo T i \<noteq> []) \<and> (\<forall>T'. \<not> thread_step mutex_of recursive T T')"

section \<open>One recursive mutex\<close>

text \<open>With one mutex for all objects, its owner has the locks its remaining events release.\<close>

definition depth :: "threads \<Rightarrow> nat \<Rightarrow> nat" where
  "depth T i = (case owner T Static_mutex of Some (j, n) \<Rightarrow> if i = j then Suc n else 0 | None \<Rightarrow> 0)"

definition well_nested :: "threads \<Rightarrow> bool" where
  "well_nested T \<longleftrightarrow> (\<forall>i. \<exists>H. replay H (todo T i) = Some [] \<and> length H = depth T i)"

lemma replay_AcquireD: "replay H (Acquire l # es) = Some H' \<Longrightarrow> replay (l # H) es = Some H'"
  by (cases H) simp_all

lemma replay_ReleaseD: "replay H (Release l # es) = Some H' \<Longrightarrow> \<exists>G. H = l # G \<and> replay G es = Some H'"
  by (cases H) (auto split: if_splits)

lemma replay_first: "replay [] es = Some H \<Longrightarrow> es \<noteq> [] \<Longrightarrow> \<exists>l fs. es = Acquire l # fs"
  by (cases es; cases "hd es") auto

lemma well_nested_step:
  assumes "thread_step (\<lambda>_. Static_mutex) True T T'" and inv: "well_nested T"
  shows "well_nested T'"
  unfolding well_nested_def
proof
  fix k
  from inv obtain H where H: "replay H (todo T k) = Some []" "length H = depth T k"
    unfolding well_nested_def by blast
  from assms(1) show "\<exists>H. replay H (todo T' k) = Some [] \<and> length H = depth T' k"
  proof cases
    case (acquire i l es)
    show ?thesis
      using H acquire by (cases "k = i") (auto simp: depth_def dest!: replay_AcquireD intro!: exI [of _ "l # H"])
  next
    case (acquire_again i l es n)
    show ?thesis
      using H acquire_again by (cases "k = i") (auto simp: depth_def dest!: replay_AcquireD intro!: exI [of _ "l # H"])
  next
    case (release i l es n)
    show ?thesis
      using H release by (cases "k = i") (auto simp: depth_def dest!: replay_ReleaseD)
  qed
qed

lemma well_nested_progress:
  assumes inv: "well_nested T" and work: "todo T i \<noteq> []"
  shows "\<exists>T'. thread_step (\<lambda>_. Static_mutex) True T T'"
proof (cases "owner T Static_mutex")
  case None
  with inv have "replay [] (todo T i) = Some []" by (auto simp: well_nested_def depth_def)
  with work obtain l es where "todo T i = Acquire l # es" by (blast dest: replay_first)
  with None show ?thesis by (blast intro: thread_step.acquire)
next
  case (Some jn)
  then obtain j n where j: "owner T Static_mutex = Some (j, n)" by (cases jn) auto
  with inv obtain H where H: "replay H (todo T j) = Some []" "length H = Suc n"
    unfolding well_nested_def depth_def by force
  then obtain e es where e: "todo T j = e # es" by (cases "todo T j") auto
  show ?thesis
  proof (cases e)
    case (Acquire l)
    with e j show ?thesis by (blast intro: thread_step.acquire_again)
  next
    case (Release l)
    with e j show ?thesis by (blast intro: thread_step.release)
  qed
qed

lemma threads_start_nested:
  "(\<And>i. replay [] (es i) = Some []) \<Longrightarrow> well_nested (threads_start es)"
  by (simp add: well_nested_def threads_start_def depth_def)

interpretation one_mutex: invariant_system
  "\<lambda>T. \<exists>es. (\<forall>i. replay [] (es i) = Some []) \<and> T = threads_start es"
  "thread_step (\<lambda>_. Static_mutex) True" well_nested
  by unfold_locales (auto intro: threads_start_nested well_nested_step)

lemma one_mutex_no_deadlock:
  assumes "\<And>i. replay [] (es i) = Some []" and "(thread_step (\<lambda>_. Static_mutex) True)\<^sup>*\<^sup>* (threads_start es) T"
  shows "\<not> deadlocked (\<lambda>_. Static_mutex) True T"
proof -
  have "well_nested T" by (rule one_mutex.inv_reachable [OF _ assms(2)]) (use assms(1) in blast)
  then show ?thesis unfolding deadlocked_def by (blast dest: well_nested_progress)
qed

section \<open>A mutex in each object\<close>

text \<open>Two threads that take the same two mutexes in opposite orders can wait for each other.\<close>

lemma opposite_orders_deadlock:
  assumes one: "es i = Acquire a # Acquire b # xs" and two: "es j = Acquire b # Acquire a # ys"
    and "a \<noteq> b" and "i \<noteq> j" and others: "\<And>k. k \<noteq> i \<Longrightarrow> k \<noteq> j \<Longrightarrow> es k = []"
  shows "\<exists>T. (thread_step Mutex_of recursive)\<^sup>*\<^sup>* (threads_start es) T \<and> deadlocked Mutex_of recursive T"
proof -
  let ?T0 = "threads_start es"
  let ?T1 = "?T0\<lparr>owner := [Mutex_of a \<mapsto> (i, 0)], todo := es(i := Acquire b # xs)\<rparr>"
  let ?T2 = "?T1\<lparr>owner := [Mutex_of a \<mapsto> (i, 0), Mutex_of b \<mapsto> (j, 0)],
     todo := es(i := Acquire b # xs, j := Acquire a # ys)\<rparr>"
  have "thread_step Mutex_of recursive ?T0 ?T1"
    using thread_step.acquire [of ?T0 i a "Acquire b # xs" Mutex_of] one by (simp add: threads_start_def)
  moreover have "thread_step Mutex_of recursive ?T1 ?T2"
    using thread_step.acquire [of ?T1 j b "Acquire a # ys" Mutex_of] two assms(3,4) by simp
  ultimately have reach: "(thread_step Mutex_of recursive)\<^sup>*\<^sup>* ?T0 ?T2"
    by (blast intro: rtranclp.rtrancl_into_rtrancl)
  have "\<not> thread_step Mutex_of recursive ?T2 T'" for T'
    using assms(3,4) others by (auto elim!: thread_step.cases split: if_splits) 
  then have "deadlocked Mutex_of recursive ?T2" unfolding deadlocked_def using assms(4) by auto
  with reach show ?thesis by blast
qed

section \<open>What the calls record\<close>

definition records :: "('a, 'f, 'z) lockprog \<Rightarrow> lock_event list \<Rightarrow> bool" where
  "records m es \<longleftrightarrow> (\<forall>w r w'. m w = Some (Ret r, w') \<longrightarrow> events (locks w') = events (locks w) @ es)"

lemma records_oblivious: "oblivious m \<Longrightarrow> records m []"
  by (auto simp: records_def oblivious_locks)

lemma records_bindp: "records m es \<Longrightarrow> (\<And>x. records (k x) fs) \<Longrightarrow> records (bindp m k) (es @ fs)"
  unfolding records_def by (fastforce elim!: bindp_RetE)

lemma records_seqp: "records m es \<Longrightarrow> records k fs \<Longrightarrow> records (seqp m k) (es @ fs)"
  by (simp add: seqp_def records_bindp)

lemma records_each_node:
  "(\<And>c. records (body c) (f c)) \<Longrightarrow> records (each_node body cs) (concat (map f cs))"
proof (induction cs)
  case Nil
  show ?case by (simp add: records_def)
next
  case (Cons c cs)
  then show ?case by (simp add: records_seqp)
qed

lemma records_lock_block:
  assumes "records m es"
  shows "records (lock_block recording l m) (Acquire l # es @ [Release l])"
proof -
  have "records (lock recording l) [Acquire l]" "records (unlock recording l) [Release l]"
    by (simp_all add: records_def recording_def record_event_def)
  from records_seqp [OF this(1) records_bindp [OF assms records_seqp [OF this(2) records_oblivious [OF oblivious_basic(1)]]]]
  show ?thesis by (simp add: lock_block_def)
qed

lemma connect_records:
  "records (signal0_connect recording s ob f) [Acquire (Sig s), Acquire (Obj ob), Release (Obj ob), Release (Sig s)]"
proof -
  have "records (locked_signal_connect recording ob s) [Acquire (Obj ob), Release (Obj ob)]"
    unfolding locked_signal_connect_def
    using records_lock_block [OF records_oblivious [OF oblivious_elementary(7)]] by simp
  from records_bindp [OF records_oblivious [OF oblivious_elementary(1)]
      records_seqp [OF records_oblivious [OF oblivious_elementary(5)] this]]
  have "records (bindp (connection0_new ob f) (\<lambda>conn. seqp (push_back s conn) (locked_signal_connect recording ob s)))
      [Acquire (Obj ob), Release (Obj ob)]" by (simp add: connection0_plain)
  from records_lock_block [OF this, of "Sig s"] show ?thesis by (simp add: signal0_connect_def)
qed

lemma slot_disconnect_records:
  "records (signal_base0_slot_disconnect recording s ob) [Acquire (Sig s), Release (Sig s)]"
  using records_lock_block [OF records_oblivious [OF plain_oblivious(4) [of s ob]], of "Sig s"]
  by (simp add: signal_base0_slot_disconnect_def)

lemma destroy_object_records:
  assumes run: "locked_has_slots_destroy K recording ob w = Some (Ret u, w')" and ss: "m_senders w ob = Some ss"
  shows "events (locks w') = events (locks w) @ Acquire (Obj ob)
      # concat (map (\<lambda>s. [Acquire (Sig s), Release (Sig s)]) ss) @ [Release (Obj ob)]"
proof -
  let ?w = "w\<lparr>locks := (locks w)\<lparr>events := events (locks w) @ [Acquire (Obj ob)]\<rparr>\<rparr>"
  have "records (seqp (each_node (\<lambda>it. signal_base0_slot_disconnect recording it ob) ss) (set_senders ob []))
      (concat (map (\<lambda>s. [Acquire (Sig s), Release (Sig s)]) ss) @ [])"
    by (intro records_seqp records_each_node slot_disconnect_records records_oblivious oblivious_intros)
  moreover obtain x v where v: "seqp (each_node (\<lambda>it. signal_base0_slot_disconnect recording it ob) ss) (set_senders ob []) ?w
      = Some (Ret x, v)" and w': "locks w' = (locks v)\<lparr>events := events (locks v) @ [Release (Obj ob)]\<rparr>"
    using run ss
    by (auto simp: locked_has_slots_destroy_def locked_has_slots_disconnect_all_def virtual_same lock_block_def
        recording_def record_event_def seqp_run get_senders_def elim!: seqp_RetE bindp_RetE)
  ultimately have "events (locks v) = events (locks ?w) @ concat (map (\<lambda>s. [Acquire (Sig s), Release (Sig s)]) ss)"
    unfolding records_def append_Nil2 by blast
  with w' show ?thesis by simp
qed

end
