(* ===== verification/Sigslot_Policy_Properties.thy ===== *)
theory Sigslot_Policy_Properties
  imports Sigslot_Threads Sigslot_Properties
begin

text \<open>
  What holds of the nine copies of the signal classes, and of the threading policies.
\<close>

section \<open>The nine classes\<close>

text \<open>
  C14: in pure ISO mode, which the header switches on, the policy is the one without threads. With
  it each call of the library on signals and objects is the operation of the theory Sigslot,
  whatever the classes of the signals are, and the emissions of all classes, by name and by
  operator, are the emission of that theory.
\<close>

theorem classes_behave_alike:
  "default_mt_policy (thread_support True win32 gnug posix) = single_threaded
   \<and> exec K single_threaded c = exec_plain c
   \<and> signal0_emit single_threaded g0 s = signal_emit (\<lambda>k. g0 (m_pmemfun k) (m_pobject k)) s
   \<and> signal0_call single_threaded g0 s = signal_emit (\<lambda>k. g0 (m_pmemfun k) (m_pobject k)) s
   \<and> signal1_emit single_threaded g1 s a1 = signal_emit (\<lambda>k. g1 (m_pmemfun k) (m_pobject k) a1) s
   \<and> signal1_call single_threaded g1 s a1 = signal_emit (\<lambda>k. g1 (m_pmemfun k) (m_pobject k) a1) s
   \<and> signal2_emit single_threaded g2 s a1 a2 = signal_emit (\<lambda>k. g2 (m_pmemfun k) (m_pobject k) a1 a2) s
   \<and> signal2_call single_threaded g2 s a1 a2 = signal_emit (\<lambda>k. g2 (m_pmemfun k) (m_pobject k) a1 a2) s
   \<and> signal3_emit single_threaded g3 s a1 a2 a3 = signal_emit (\<lambda>k. g3 (m_pmemfun k) (m_pobject k) a1 a2 a3) s
   \<and> signal3_call single_threaded g3 s a1 a2 a3 = signal_emit (\<lambda>k. g3 (m_pmemfun k) (m_pobject k) a1 a2 a3) s
   \<and> signal4_emit single_threaded g4 s a1 a2 a3 a4 = signal_emit (\<lambda>k. g4 (m_pmemfun k) (m_pobject k) a1 a2 a3 a4) s
   \<and> signal4_call single_threaded g4 s a1 a2 a3 a4 = signal_emit (\<lambda>k. g4 (m_pmemfun k) (m_pobject k) a1 a2 a3 a4) s
   \<and> signal5_emit single_threaded g5 s a1 a2 a3 a4 a5 = signal_emit (\<lambda>k. g5 (m_pmemfun k) (m_pobject k) a1 a2 a3 a4 a5) s
   \<and> signal5_call single_threaded g5 s a1 a2 a3 a4 a5 = signal_emit (\<lambda>k. g5 (m_pmemfun k) (m_pobject k) a1 a2 a3 a4 a5) s
   \<and> signal6_emit single_threaded g6 s a1 a2 a3 a4 a5 a6 = signal_emit (\<lambda>k. g6 (m_pmemfun k) (m_pobject k) a1 a2 a3 a4 a5 a6) s
   \<and> signal6_call single_threaded g6 s a1 a2 a3 a4 a5 a6 = signal_emit (\<lambda>k. g6 (m_pmemfun k) (m_pobject k) a1 a2 a3 a4 a5 a6) s
   \<and> signal7_emit single_threaded g7 s a1 a2 a3 a4 a5 a6 a7
       = signal_emit (\<lambda>k. g7 (m_pmemfun k) (m_pobject k) a1 a2 a3 a4 a5 a6 a7) s
   \<and> signal7_call single_threaded g7 s a1 a2 a3 a4 a5 a6 a7
       = signal_emit (\<lambda>k. g7 (m_pmemfun k) (m_pobject k) a1 a2 a3 a4 a5 a6 a7) s
   \<and> signal8_emit single_threaded g8 s a1 a2 a3 a4 a5 a6 a7 a8
       = signal_emit (\<lambda>k. g8 (m_pmemfun k) (m_pobject k) a1 a2 a3 a4 a5 a6 a7 a8) s
   \<and> signal8_call single_threaded g8 s a1 a2 a3 a4 a5 a6 a7 a8
       = signal_emit (\<lambda>k. g8 (m_pmemfun k) (m_pobject k) a1 a2 a3 a4 a5 a6 a7 a8) s"
  by (simp add: pure_iso_single_threaded exec_single_threaded class_same signal0_emit_plain)

section \<open>One thread\<close>

text \<open>A start of the library with nothing set up.\<close>

definition nothing_set_up :: "('f, 'z) locked_world_scheme \<Rightarrow> bool" where
  "nothing_set_up w \<longleftrightarrow> sig_start w \<and> (\<forall>m. mutexes (locks w) m = Not_set_up) \<and> \<not> isinitialised (locks w)"

text \<open>No mutex is held.\<close>

definition nothing_locked :: "lock_state \<Rightarrow> bool" where
  "nothing_locked L \<longleftrightarrow> (\<forall>m n. mutexes L m \<noteq> Locked n)"

lemma nothing_set_up_start:
  assumes "nothing_set_up w"
  shows "consistent w" and "alive w = {}" and "fresh_unused w"
proof -
  show "consistent w" using assms by (simp add: nothing_set_up_def sig_start_consistent)
  show "alive w = {}" using assms by (auto simp: nothing_set_up_def sig_start_def alive_def split: lockable.splits)
  then show "fresh_unused w" by (simp add: fresh_unused_def del: alive_iff)
qed

text \<open>
  C15: any sequence of calls that make, copy, connect, disconnect and destroy signals and objects, and
  keep to the rules of \<open>careful\<close> (living objects, no disconnect after a double connect), runs to its
  end, in one thread, and leaves the same consistent world under the local POSIX policy and both
  Win32 policies as without threads, and no mutex held. Emissions, during which a signal is locked,
  are not among the calls: C19 and C20 show where the policies differ there.
\<close>

theorem policies_behave_alike:
  assumes start: "nothing_set_up w" and use: "careful cs w"
  shows "\<exists>w'. consistent w' \<and> run_calls (exec K single_threaded) cs w = Some (Ret (), w')
     \<and> (\<exists>L. run_calls (exec K posix_local) cs w = Some (Ret (), w'\<lparr>locks := L\<rparr>) \<and> nothing_locked L)
     \<and> (\<exists>L. run_calls (exec K win32_local) cs w = Some (Ret (), w'\<lparr>locks := L\<rparr>) \<and> nothing_locked L)
     \<and> (\<exists>L. run_calls (exec K win32_global) cs w = Some (Ret (), w'\<lparr>locks := L\<rparr>) \<and> nothing_locked L)"
proof -
  note init = nothing_set_up_start [OF start]
  from careful_runs [OF init(1) use] obtain w' where
    w': "well_used cs w" "run_calls exec_plain cs w = Some (Ret (), w')" "consistent w'" by blast
  have "posix_local_ready (alive w) [] (locks w)" "win32_local_ready (alive w) [] (locks w)"
    "win32_global_ready (alive w) [] (locks w)"
    using start by (simp_all add: init(2) nothing_set_up_def posix_local_ready_def win32_local_ready_def win32_global_ready_def)
  note runs = posix_local.calls_sim [OF w'(1) init(3) this(1) w'(2), of K] win32_local.calls_sim [OF w'(1) init(3) this(2) w'(2), of K]
    win32_global.calls_sim [OF w'(1) init(3) this(3) w'(2), of K]
  have free: "nothing_locked L"
    if "posix_local_ready A [] L \<or> win32_local_ready A [] L \<or> win32_global_ready A [] L" for A L
    unfolding nothing_locked_def
  proof (intro allI)
    fix m n show "mutexes L m \<noteq> Locked n"
      using that unfolding posix_local_ready_def win32_local_ready_def win32_global_ready_def
      by (cases m) (auto split: if_splits, (metis mutex_state.distinct(3,5))+)
  qed
  have "run_calls (exec K single_threaded) cs = run_calls exec_plain cs"
    by (simp only: exec_single_threaded [abs_def])
  with w' runs free show ?thesis by metis
qed

definition empty_locked_world :: "'f locked_world" where
  "empty_locked_world = \<lparr>brk = 10, indet = (\<lambda>k i. 0), can_alloc = (\<lambda>n. True), string_limit = 4096, files = Map.empty,
     fds = Map.empty, fd_limit = 16, file_locks = [], conn_heap = Map.empty, m_connected_slots = Map.empty,
     m_senders = Map.empty, locks = \<lparr>mutexes = (\<lambda>_. Not_set_up), isinitialised = False, events = []\<rparr>\<rparr>"

definition sample_calls :: "nat call list" where
  "sample_calls = [New_signal Class3, New_object, Connect 10 11 7, Disconnect 10 11, Destroy_object 11]"

lemma sample_calls_careful: "careful sample_calls empty_locked_world"
  by (simp add: sample_calls_def empty_locked_world_def elementary_defs ignore_result_def signal_new_def has_slots_new_def
      signal_connect_def signal_disconnect_def has_slots_destroy_def has_slots_disconnect_all_def insort_insert_key_def
      connected_once_def slot_of_def dest_of_def prog_simps)

theorem policies_behave_alike_witness:
  "\<exists>w'. (\<exists>L. run_calls (exec (\<lambda>_. Class3) posix_local) sample_calls empty_locked_world
     = Some (Ret (), w'\<lparr>locks := L\<rparr>) \<and> nothing_locked L)"
proof -
  have "nothing_set_up (empty_locked_world :: nat locked_world)"
    by (simp add: nothing_set_up_def sig_start_def empty_locked_world_def)
  from policies_behave_alike [OF this sample_calls_careful, of "\<lambda>_. Class3"] show ?thesis by blast
qed

text \<open>
  C21: under the global policy on POSIX threads the library cannot be used at all: the second
  object sets up the static mutex once more, and connecting waits for ever, because the object
  locks the mutex that the signal holds.
\<close>

theorem posix_global_unusable:
  assumes "mutexes (locks v) Static_mutex = Not_set_up"
    and "m_connected_slots w s = Some cs" and "mutexes (locks w) Static_mutex = Unlocked"
  shows "(\<exists>v'. run_calls (exec K posix_global) [New_object, New_object] v = Some (Undefined Mutex_misuse, v'))
     \<and> exec K posix_global (Connect s ob f) w = None"
proof
  show "\<exists>v'. run_calls (exec K posix_global) [New_object, New_object] v = Some (Undefined Mutex_misuse, v')"
    using assms(1)
    by (simp add: ignore_result_def locked_has_slots_new_def posix_global_def pthread_mutex_init_def
        fresh_address_def set_senders_def prog_simps)
  show "exec K posix_global (Connect s ob f) w = None"
    using assms(2,3)
    by (simp add: any_class signal0_connect_def locked_signal_connect_def lock_block_def posix_global_def
        pthread_mutex_lock_def connection0_plain new_connection_def fresh_address_def push_back_def
        get_slots_def set_slots_def prog_simps)
qed

theorem posix_global_unusable_witness:
  "(\<exists>v'. run_calls (exec (\<lambda>_. Class0) posix_global) [New_object, New_object] (empty_locked_world :: nat locked_world)
       = Some (Undefined Mutex_misuse, v'))
   \<and> exec (\<lambda>_. Class0) posix_global (Connect 1 2 7)
       ((empty_locked_world :: nat locked_world)\<lparr>m_connected_slots := [1 \<mapsto> []],
          locks := \<lparr>mutexes = (\<lambda>_. Unlocked), isinitialised = False, events = []\<rparr>\<rparr>) = None"
  by (rule posix_global_unusable [where cs = "[]"]) (simp_all add: empty_locked_world_def)

text \<open>
  C20: a slot that disconnects its object from the signal that calls it works without threads, but
  under the local POSIX policy the emission waits for ever for the mutex it holds itself.
\<close>

theorem posix_local_self_disconnect_hangs:
  assumes con: "consistent w" and cs: "m_connected_slots w s = Some (c # cs)"
    and free: "mutexes (locks w) (Mutex_of (Sig s)) = Unlocked"
  shows "signal0_emit posix_local (\<lambda>f ob. signal_base0_disconnect posix_local s ob) s w = None"
proof -
  from consistent_slotD [OF con cs, of c] obtain k ss where k: "conn_heap w c = Some k" "m_senders w (m_pobject k) = Some ss"
    by auto
  let ?w = "w\<lparr>locks := (locks w)\<lparr>mutexes := (mutexes (locks w))(Mutex_of (Sig s) := Locked 1)\<rparr>\<rparr>"
  have lock: "lock posix_local (Sig s) w = Some (Ret (), ?w)"
    using free by (simp add: posix_local_def pthread_mutex_lock_def bindp_run)
  have again: "signal_base0_disconnect posix_local s ob ?w = None" for ob
    by (simp add: signal_base0_disconnect_def lock_block_def posix_local_def pthread_mutex_lock_def prog_simps)
  have "connection0_emit (\<lambda>f ob. signal_base0_disconnect posix_local s ob) c ?w = None"
    using k again by (simp add: connection0_emit_def deref_connection_def get_senders_def bindp_run)
  then have "next_then_body s (\<lambda>c. connection0_emit (\<lambda>f ob. signal_base0_disconnect posix_local s ob) c) (Some c) ?w = None"
    using cs by (subst next_then_body.simps) simp
  with cs lock show ?thesis
    by (simp add: signal0_emit_def lock_block_def seqp_run bindp_run get_slots_def)
qed

definition sample_locked :: "nat locked_world" where
  "sample_locked = empty_locked_world\<lparr>conn_heap := [5 \<mapsto> \<lparr>m_pobject = 2, m_pmemfun = 7\<rparr>],
     m_connected_slots := [1 \<mapsto> [5]], m_senders := [2 \<mapsto> [1]],
     locks := \<lparr>mutexes = (\<lambda>m. if m = Mutex_of (Sig 1) \<or> m = Mutex_of (Obj 2) then Unlocked else Not_set_up),
       isinitialised = False, events = []\<rparr>\<rparr>"

lemma sample_locked_fields:
  "brk sample_locked = 10" "conn_heap sample_locked = [5 \<mapsto> \<lparr>m_pobject = 2, m_pmemfun = 7\<rparr>]"
  "m_connected_slots sample_locked = [1 \<mapsto> [5]]" "m_senders sample_locked = [2 \<mapsto> [1]]"
  "mutexes (locks sample_locked) m = (if m = Mutex_of (Sig 1) \<or> m = Mutex_of (Obj 2) then Unlocked else Not_set_up)"
  by (simp_all add: sample_locked_def empty_locked_world_def)

lemma sample_locked_links:
  "slot_of sample_locked s c \<longleftrightarrow> s = 1 \<and> c = 5" "dest_of sample_locked c = (if c = 5 then Some 2 else None)"
  "connected sample_locked s ob \<longleftrightarrow> s = 1 \<and> ob = 2"
  by (auto simp: slot_of_def dest_of_def connected_def sample_locked_fields)

lemma sample_locked_consistent: "consistent sample_locked"
  unfolding consistent_def slots_allocated_def slots_disjoint_def no_leaks_def links_agree_def
    addresses_used_def sample_locked_links
  by (auto simp: sample_locked_fields split: if_splits)

lemma sample_locked_alive: "alive sample_locked = {Sig 1, Obj 2}"
proof (rule set_eqI)
  fix l show "l \<in> alive sample_locked \<longleftrightarrow> l \<in> {Sig 1, Obj 2}"
    by (cases l) (simp_all add: alive_def sample_locked_fields)
qed

theorem posix_local_self_disconnect_hangs_witness:
  "signal0_emit posix_local (\<lambda>f ob. signal_base0_disconnect posix_local 1 ob) 1 sample_locked = None"
  by (rule posix_local_self_disconnect_hangs [OF sample_locked_consistent]) (simp_all add: sample_locked_fields)

lemma consistent_locks: "consistent (w\<lparr>locks := L\<rparr>) = consistent w"
  by (simp add: consistent_defs slot_of_def dest_of_def connected_def)

lemma consistent_fresh_unused: "consistent w \<Longrightarrow> fresh_unused w"
  by (fastforce simp: fresh_unused_def consistent_def addresses_used_def)

text \<open>
  C19: under both Win32 policies a slot that disconnects its object from the signal that calls it
  works as without threads: the emission returns and leaves the signal empty.
\<close>

theorem win32_self_disconnect:
  assumes con: "consistent w" and cs: "m_connected_slots w s = Some cs"
    and dest: "distinct (map m_pobject (connections_at w cs))"
    and P: "P = win32_local \<and> win32_local_ready (alive w) [] (locks w)
       \<or> P = win32_global \<and> win32_global_ready (alive w) [] (locks w)"
  shows "\<exists>w'. signal0_emit P (\<lambda>f ob. signal_base0_disconnect P s ob) s w = Some (Ret (), w')
     \<and> consistent w' \<and> m_connected_slots w' s = Some []"
proof -
  let ?plain = "signal0_emit single_threaded (\<lambda>f ob. signal_base0_disconnect single_threaded s ob) s"
  have plain: "?plain = signal_emit (\<lambda>k. signal_disconnect s (m_pobject k)) s"
    by (simp add: signal0_emit_plain signal0_plain)
  obtain w' where w': "?plain w = Some (Ret (), w')" "consistent w'" "m_connected_slots w' s = Some []"
    using run_self_disconnecting [OF con cs dest] self_disconnect.emit_runs_slots [OF con cs]
    unfolding plain by auto
  note fresh = consistent_fresh_unused [OF con]
  have local: "sim win32_local_ready [] ?plain (signal0_emit win32_local (\<lambda>f ob. signal_base0_disconnect win32_local s ob) s)"
    by (intro win32_local.sim_emit win32_local.sim_disconnect plain_oblivious plain_lifetimes) simp_all
  have global: "sim win32_global_ready [] ?plain (signal0_emit win32_global (\<lambda>f ob. signal_base0_disconnect win32_global s ob) s)"
    by (intro win32_global.sim_emit win32_global.sim_disconnect plain_oblivious plain_lifetimes) simp_all
  obtain L where "signal0_emit P (\<lambda>f ob. signal_base0_disconnect P s ob) s w = Some (Ret (), w'\<lparr>locks := L\<rparr>)"
    using P simD [OF local fresh _ w'(1)] simD [OF global fresh _ w'(1)] by blast
  with w' show ?thesis by (auto simp: consistent_locks)
qed

lemma sample_locked_ready: "win32_local_ready (alive sample_locked) [] (locks sample_locked)"
  by (auto simp: win32_local_ready_def sample_locked_alive sample_locked_fields)

theorem win32_self_disconnect_witness:
  "\<exists>w'. signal0_emit win32_local (\<lambda>f ob. signal_base0_disconnect win32_local 1 ob) 1 sample_locked = Some (Ret (), w')
     \<and> m_connected_slots w' 1 = Some []"
  using win32_self_disconnect [OF sample_locked_consistent, of 1 "[5]" win32_local] sample_locked_ready
  by (auto simp: sample_locked_fields connections_at_def)

section \<open>Several threads\<close>

text \<open>A world in which no lock was recorded yet.\<close>

lemma recorded_exec:
  assumes "consistent w" and "events (locks w) = []" and "names c \<subseteq> alive w" and "exec_plain c w = Some (Ret (), w')"
  shows "\<exists>v. exec K recording c w = Some (Ret (), v)"
proof -
  have "recorded_ready (alive w) [] (locks w)" using assms(2) by (simp add: recorded_ready_def)
  from recorded.exec_sim [OF assms(3) consistent_fresh_unused [OF assms(1)] this assms(4)] show ?thesis by blast
qed

text \<open>
  C17: with a mutex in each object the library can deadlock: one thread connects a signal to an
  object, which locks the signal first, while another destroys the object, which locks the object
  first. Recursive mutexes do not help.
\<close>

theorem local_locks_deadlock:
  assumes con: "consistent w" and cs: "m_connected_slots w s = Some cs"
    and ss: "m_senders w ob = Some (s # ss)" and none: "events (locks w) = []"
  shows "\<exists>v1 v2 T. exec K recording (Connect s ob f) w = Some (Ret (), v1)
     \<and> exec K recording (Destroy_object ob) w = Some (Ret (), v2)
     \<and> (thread_step Mutex_of recursive)\<^sup>*\<^sup>* (threads_start
          (\<lambda>i. if i = 0 then events (locks v1) else if i = 1 then events (locks v2) else [])) T
     \<and> deadlocked Mutex_of recursive T"
proof -
  have alive: "names (Connect s ob f) \<subseteq> alive w" "names (Destroy_object ob :: 'a call) \<subseteq> alive w"
    using cs ss by simp_all
  obtain v1 where v1: "exec K recording (Connect s ob f) w = Some (Ret (), v1)"
    using recorded_exec [OF con none alive(1)] signal_connect_with [OF cs ss, of f] by auto
  have "\<exists>w'. has_slots_destroy ob w = Some (Ret (), w')"
    using has_slots_disconnect_all_run [OF con ss] by (simp add: has_slots_destroy_def prog_simps)
  then obtain v2 where v2: "exec K recording (Destroy_object ob) w = Some (Ret (), v2)"
    using recorded_exec [OF con none alive(2)] by auto
  have e1: "events (locks v1) = Acquire (Sig s) # Acquire (Obj ob) # [Release (Obj ob), Release (Sig s)]"
    using connect_records [of s ob f] v1 none unfolding records_def exec.simps any_class by fastforce
  have "locked_has_slots_destroy K recording ob w = Some (Ret (), v2)" using v2 by simp
  from destroy_object_records [OF this ss] none
  have e2: "events (locks v2) = Acquire (Obj ob) # Acquire (Sig s) # Release (Sig s)
      # concat (map (\<lambda>s. [Acquire (Sig s), Release (Sig s)]) ss) @ [Release (Obj ob)]" by simp
  from opposite_orders_deadlock [of "\<lambda>i. if i = 0 then events (locks v1) else if i = 1 then events (locks v2) else []"
      0 "Sig s" "Obj ob" _ 1] e1 e2
  show ?thesis using v1 v2 by fastforce
qed

theorem local_locks_deadlock_witness:
  "\<exists>v1 v2 T. exec (\<lambda>_. Class3) recording (Connect 1 2 7) sample_locked = Some (Ret (), v1)
     \<and> exec (\<lambda>_. Class3) recording (Destroy_object 2) sample_locked = Some (Ret (), v2)
     \<and> (thread_step Mutex_of True)\<^sup>*\<^sup>* (threads_start
          (\<lambda>i. if i = 0 then events (locks v1) else if i = 1 then events (locks v2) else [])) T
     \<and> deadlocked Mutex_of True T"
  by (rule local_locks_deadlock [OF sample_locked_consistent])
    (simp_all add: sample_locked_fields, simp add: sample_locked_def empty_locked_world_def)

lemma recorded_calls_replay:
  assumes start: "nothing_set_up w" and none: "events (locks w) = []" and use: "careful cs w"
  shows "\<exists>v. run_calls (exec K recording) cs w = Some (Ret (), v) \<and> replay [] (events (locks v)) = Some []"
proof -
  note init = nothing_set_up_start [OF start]
  from careful_runs [OF init(1) use] obtain w' where
    w': "well_used cs w" "run_calls exec_plain cs w = Some (Ret (), w')" by blast
  from recorded.calls_sim [OF w'(1) init(3) _ w'(2), of K] none show ?thesis by (auto simp: recorded_ready_def)
qed

text \<open>
  C18: with one recursive mutex for all objects, threads that each use objects of their own by the
  rules of \<open>careful\<close> never wait for each other in a cycle: as long as a thread has locks to take or release, one of
  them can go on.
\<close>

theorem one_recursive_mutex_no_deadlock:
  assumes start: "\<And>i. nothing_set_up (w i)" "\<And>i. events (locks (w i)) = []" and use: "\<And>i. careful (cs i) (w i)"
  shows "\<exists>v. (\<forall>i. run_calls (exec K recording) (cs i) (w i) = Some (Ret (), v i))
     \<and> (\<forall>T. (thread_step (\<lambda>_. Static_mutex) True)\<^sup>*\<^sup>* (threads_start (\<lambda>i. events (locks (v i)))) T
          \<longrightarrow> \<not> deadlocked (\<lambda>_. Static_mutex) True T)"
proof -
  have "\<forall>i. \<exists>v. run_calls (exec K recording) (cs i) (w i) = Some (Ret (), v) \<and> replay [] (events (locks v)) = Some []"
    using recorded_calls_replay [OF start use] by blast
  then obtain v where "\<And>i. run_calls (exec K recording) (cs i) (w i) = Some (Ret (), v i)"
    and "\<And>i. replay [] (events (locks (v i))) = Some []" by metis
  with one_mutex_no_deadlock [of "\<lambda>i. events (locks (v i))"] show ?thesis by (intro exI [of _ v]) simp
qed

theorem one_recursive_mutex_no_deadlock_witness:
  "\<exists>v. (\<forall>i. run_calls (exec (\<lambda>_. Class3) recording) sample_calls (empty_locked_world :: nat locked_world) = Some (Ret (), v i))
     \<and> (\<forall>T. (thread_step (\<lambda>_. Static_mutex) True)\<^sup>*\<^sup>* (threads_start (\<lambda>i::nat. events (locks (v i)))) T
          \<longrightarrow> \<not> deadlocked (\<lambda>_. Static_mutex) True T)"
  by (rule one_recursive_mutex_no_deadlock [OF _ _ sample_calls_careful])
    (simp_all add: nothing_set_up_def sig_start_def empty_locked_world_def)

end
