(* ===== verification/Blockstorage.thy ===== *)
theory Blockstorage
  imports Machine
begin

text \<open>
  \<open>src/blockstorage.cpp\<close>: the file of blocks behind a server. \<open>BLOCK_SIZE\<close> is fixed when
  the server is built (\<open>configure.sh\<close> asks for it and offers 4096); it is the parameter \<open>BS\<close>
  of the definitions. Offsets are computed in \<open>uint64_t\<close> and wrap around.
\<close>

section \<open>The class\<close>

record Blockstorage =
  bs_path :: string
  bs_fileLength :: u64

definition Blockstorage_new :: "string \<Rightarrow> (Blockstorage, 'z machine_scheme) prog" where
  "Blockstorage_new path =
     bindp (posix_stat_size path) (\<lambda>size.
     returnp \<lparr>bs_path = path, bs_fileLength = of_nat size\<rparr>)"

definition isBlockAvailable :: "nat \<Rightarrow> Blockstorage \<Rightarrow> u64 \<Rightarrow> bool" where
  "isBlockAvailable BS st num \<longleftrightarrow> num * of_nat BS \<le> bs_fileLength st - of_nat BS"

definition getBlock :: "nat \<Rightarrow> Blockstorage \<Rightarrow> u64 \<Rightarrow> (u8 list option, 'z machine_scheme) prog" where
  "getBlock BS st num =
     (if \<not> isBlockAvailable BS st num then returnp None
      else
        bindp (posix_open_rdonly (bs_path st)) (\<lambda>fd.
        seqp (posix_lseek fd (sint (num * of_nat BS)))
        (seqp (posix_lockf fd F_LOCK BS)
        (bindp (new_bytes BS) (\<lambda>block.
        bindp (posix_read fd BS) (\<lambda>bytes.
        seqp (posix_lseek fd (sint (num * of_nat BS)))
        (seqp (posix_lockf fd F_ULOCK BS)
        (seqp (posix_close fd)
        (returnp (Some (overwrite block bytes)))))))))))"

text \<open>\<open>storeBlock\<close> has an empty body.\<close>

definition storeBlock :: "nat \<Rightarrow> Blockstorage \<Rightarrow> u64 \<Rightarrow> u8 list \<Rightarrow> (unit, 'z machine_scheme) prog" where
  "storeBlock BS st num bytes = returnp ()"

section \<open>Offsets\<close>

text \<open>The byte the code seeks to for a block, and the block a file has there.\<close>

definition block_offset :: "nat \<Rightarrow> u64 \<Rightarrow> nat" where
  "block_offset BS num = (unat num * BS) mod 2 ^ 64"

definition block_at :: "nat \<Rightarrow> u8 list \<Rightarrow> u64 \<Rightarrow> u8 list" where
  "block_at BS content num = take BS (drop (block_offset BS num) content)"

lemma unat_offset: "unat (num * of_nat BS :: u64) = block_offset BS num"
  by (simp add: block_offset_def unat_word_ariths unat_of_nat mod_mult_right_eq)

lemma unat_last_offset:
  assumes "BS \<le> unat len" 
  shows "unat (len - of_nat BS :: u64) = unat len - BS"
proof -
  have "BS < 2 ^ 64" using assms unat_bound [of len] by simp
  then have "unat (of_nat BS :: u64) = BS" by (simp add: unat_of_nat)
  then show ?thesis using assms by (simp add: unat_sub word_le_nat_alt)
qed

lemma isBlockAvailable_offset:
  assumes "BS \<le> unat (bs_fileLength st)"
  shows "isBlockAvailable BS st num \<longleftrightarrow> block_offset BS num + BS \<le> unat (bs_fileLength st)"
  using assms
  by (auto simp: isBlockAvailable_def word_le_nat_alt unat_offset unat_last_offset)

lemma length_block_at:
  "block_offset BS num + BS \<le> length content \<Longrightarrow> length (block_at BS content num) = BS"
  by (simp add: block_at_def)

section \<open>Reading a block\<close>

text \<open>
  \<open>serves m BS st content\<close>: the file is the one whose length the object remembers, and the
  process has a descriptor and memory left.
\<close>

definition serves :: "'z machine_scheme \<Rightarrow> nat \<Rightarrow> Blockstorage \<Rightarrow> u8 list \<Rightarrow> bool" where
  "serves m BS st content \<longleftrightarrow>
     files m (bs_path st) = Some content \<and> length content = unat (bs_fileLength st)
     \<and> BS \<le> length content \<and> length content < 2 ^ 63
     \<and> can_alloc m BS \<and> file_locks m = [] \<and> free_fd (fds m) 0 (fd_limit m) \<noteq> -1"

lemma sint_small: "unat (w :: u64) < 2 ^ 63 \<Longrightarrow> sint w = int (unat w)"
proof -
  assume "unat w < 2 ^ 63"
  then have "int (unat w) < int (2 ^ 63)" by (simp only: of_nat_less_iff)
  then have "uint w < 2 ^ 63" by simp
  moreover have "- (2 ^ 63) \<le> uint w" by (rule order_trans [OF _ unsigned_greater_eq]) simp
  ultimately have "signed_take_bit 63 (uint w) = uint w" by (intro signed_take_bit_int_eq_self) auto
  then show ?thesis by (simp add: sint_uint)
qed

lemma seek_block:
  assumes "block_offset BS num < 2 ^ 63" and "fds m fd = Some d"
  shows "posix_lseek fd (sint (num * of_nat BS)) m
     = Some (Ret (), m\<lparr>fds := (fds m)(fd \<mapsto> d\<lparr>d_pos := block_offset BS num\<rparr>)\<rparr>)"
  using assms sint_small [of "num * of_nat BS"] by (simp add: posix_lseek_def unat_offset)

lemma getBlock_serves:
  assumes serves: "serves m BS st content" and avail: "isBlockAvailable BS st num"
  shows "getBlock BS st num m = Some (Ret (Some (block_at BS content num)), m\<lparr>brk := Suc (brk m)\<rparr>)"
proof -
  let ?fd = "free_fd (fds m) 0 (fd_limit m)" and ?off = "block_offset BS num"
  from serves avail have off: "?off + BS \<le> length content" "?off < 2 ^ 63"
    by (auto simp: serves_def isBlockAvailable_offset)
  from serves have fd: "fds m ?fd = None" by (auto simp: serves_def intro: free_fd_free)
  then have close: "(fds m)(?fd := None) = fds m" by auto
  have full: "overwrite (junk m BS) (take BS (drop ?off content)) = block_at BS content num"
    using off by (simp add: overwrite_def block_at_def)
  show ?thesis
    using serves avail off(2) close full
    by (simp add: getBlock_def serves_def prog_simps posix_open_rdonly_def seek_block Let_def
        posix_lockf_def posix_read_def posix_close_def junk_def)
qed


lemma getBlock_unavailable:
  "\<not> isBlockAvailable BS st num \<Longrightarrow> getBlock BS st num m = Some (Ret None, m)"
  by (simp add: getBlock_def)

text \<open>
  When the file cannot be opened, every later call works on descriptor -1 and fails; the
  caller gets the block of memory as \<open>new\<close> returned it.
\<close>

lemma getBlock_no_file:
  assumes "isBlockAvailable BS st num" and "files m (bs_path st) = None"
    and "can_alloc m BS" and "fds m (-1) = None"
  shows "getBlock BS st num m = Some (Ret (Some (junk m BS)), m\<lparr>brk := Suc (brk m)\<rparr>)"
proof -
  have "(fds m)(-1 := None) = fds m" using assms(4) by auto
  with assms show ?thesis
    by (simp add: getBlock_def prog_simps posix_open_rdonly_def posix_lseek_def posix_lockf_def
        posix_read_def posix_close_def junk_def)
qed

section \<open>The interface the protocol handler uses\<close>

text \<open>
  \<open>block n\<close> is the abstract content of block \<open>n\<close>; \<open>good\<close> the states in which the store can
  serve; \<open>tick\<close> what reading a block changes in them (it allocates).
\<close>

locale block_source =
  fixes avail :: "u64 \<Rightarrow> bool" and get :: "u64 \<Rightarrow> (u8 list option, 's) prog"
    and store :: "u64 \<Rightarrow> u8 list \<Rightarrow> (unit, 's) prog"
    and block :: "u64 \<Rightarrow> u8 list" and size :: nat and good :: "'s \<Rightarrow> bool" and tick :: "'s \<Rightarrow> 's"
  assumes get_available: "good s \<Longrightarrow> avail n \<Longrightarrow> get n s = Some (Ret (Some (block n)), tick s)"
    and get_unavailable: "good s \<Longrightarrow> \<not> avail n \<Longrightarrow> get n s = Some (Ret None, s)"
    and block_size: "good s \<Longrightarrow> avail n \<Longrightarrow> length (block n) = size"
    and store_runs: "good s \<Longrightarrow> store n bytes s = Some (Ret (), s)"

interpretation file_blocks: block_source
  "isBlockAvailable BS st" "getBlock BS st" "storeBlock BS st" "block_at BS content" BS
  "\<lambda>m. serves m BS st content" "\<lambda>m. m\<lparr>brk := Suc (brk m)\<rparr>"
  for BS st content
  by unfold_locales
    (auto simp: getBlock_serves getBlock_unavailable storeBlock_def serves_def
      isBlockAvailable_offset length_block_at)

end
