(* ===== verification/Wire.thy ===== *)
theory Wire
  imports Shepoo_Prelude "HOL-Library.Numeral_Type"
begin

unbundle bit_operations_syntax

text \<open>
  The structs that cross the network: \<open>SecNet::Packet\<close> and the WebSocket frame header of
  \<open>include/secnet.h\<close>, as the bytes they occupy in the memory of a little-endian machine,
  and the masking loop of \<open>SecNet::handleWebSocketFrame\<close>.
\<close>

section \<open>Packet\<close>

record Packet =
  version :: u8
  command :: u8
  payloadLength :: u64

definition sizeof_Packet :: nat where
  "sizeof_Packet = 10"

text \<open>The struct is packed, so its bytes are those of its fields.\<close>

definition bytes_of_Packet :: "Packet \<Rightarrow> u8 list" where
  "bytes_of_Packet p = version p # command p # le_of_word (payloadLength p)"

definition Packet_of_bytes :: "u8 list \<Rightarrow> Packet" where
  "Packet_of_bytes bs =
     \<lparr>version = bs ! 0, command = bs ! 1, payloadLength = word_of_le (take 8 (drop 2 bs))\<rparr>"

interpretation packet: fixed_codec bytes_of_Packet Packet_of_bytes 10
proof
  fix p :: Packet
  show "length (bytes_of_Packet p) = 10"
    by (simp add: bytes_of_Packet_def le64.length_enc)
  show "Packet_of_bytes (bytes_of_Packet p) = p"
    by (simp add: Packet_of_bytes_def bytes_of_Packet_def le64.length_enc le64.dec_enc)
next
  fix bs :: "u8 list"
  assume len: "length bs = 10"
  then obtain a b cs where bs: "bs = a # b # cs" and "length cs = 8"
    by (auto simp: length_Suc_conv eval_nat_numeral)
  then show "bytes_of_Packet (Packet_of_bytes bs) = bs"
    by (simp add: Packet_of_bytes_def bytes_of_Packet_def le64.enc_dec)
qed

text \<open>
  \<open>*(int*)&packet == 0x20544547\<close>: the first four bytes, read as a little-endian number.
\<close>

definition starts_with_GET :: "u8 list \<Rightarrow> bool" where
  "starts_with_GET bs \<longleftrightarrow> (word_of_le (take 4 bs) :: u32) = 0x20544547"

lemma starts_with_GET_iff:
  assumes "4 \<le> length bs"
  shows "starts_with_GET bs \<longleftrightarrow> take 4 bs = [0x47, 0x45, 0x54, 0x20]"
proof -
  have "word_of_le [0x47, 0x45, 0x54, 0x20] = (0x20544547 :: u32)"
    by (simp add: word_of_le_def)
  moreover have "length (take 4 bs) = 4" using assms by simp
  ultimately show ?thesis
    unfolding starts_with_GET_def using le32.dec_inject [of "take 4 bs" "[0x47, 0x45, 0x54, 0x20]"] by simp
qed

lemma first_byte_not_GET:
  assumes "b \<noteq> 0x47" and "3 \<le> length bs"
  shows "\<not> starts_with_GET (b # bs)"
proof -
  have "starts_with_GET (b # bs) \<Longrightarrow> hd (take 4 (b # bs)) = 0x47"
    using assms(2) by (simp add: starts_with_GET_iff)
  then show ?thesis using assms(1) by (auto simp: hd_take)
qed

section \<open>WebSocket frame header\<close>

text \<open>
  The bit fields in the order of their declaration, which is the order in which the compiler
  allocates them from the least significant bit of the 16-bit unit.
\<close>

record WebSocketFrameHeader =
  opcode :: "4 word"
  rsvd :: "3 word"
  fin :: "1 word"
  payloadLen :: "7 word"
  maskFlag :: "1 word"

definition unit_of_header :: "WebSocketFrameHeader \<Rightarrow> u16" where
  "unit_of_header h =
     ucast (opcode h) OR push_bit 4 (ucast (rsvd h)) OR push_bit 7 (ucast (fin h))
     OR push_bit 8 (ucast (payloadLen h)) OR push_bit 15 (ucast (maskFlag h))"

definition header_of_unit :: "u16 \<Rightarrow> WebSocketFrameHeader" where
  "header_of_unit u =
     \<lparr>opcode = ucast u, rsvd = ucast (drop_bit 4 u), fin = ucast (drop_bit 7 u),
      payloadLen = ucast (drop_bit 8 u), maskFlag = ucast (drop_bit 15 u)\<rparr>"

definition bytes_of_header :: "WebSocketFrameHeader \<Rightarrow> u8 list" where
  "bytes_of_header h = le_of_word (unit_of_header h)"

definition header_of_bytes :: "u8 list \<Rightarrow> WebSocketFrameHeader" where
  "header_of_bytes bs = header_of_unit (word_of_le bs)"

lemma bit_outside: "LENGTH('w) \<le> n \<Longrightarrow> \<not> bit (w :: 'w::len word) n"
  using bit_imp_le_length by (metis not_le)

lemma header_of_unit_of_header: "header_of_unit (unit_of_header h) = h"
proof (cases h)
  case (fields op rs fi pl mf)
  have "header_of_unit (unit_of_header h)
      = \<lparr>opcode = op, rsvd = rs, fin = fi, payloadLen = pl, maskFlag = mf\<rparr>"
    by (auto simp: fields header_of_unit_def unit_of_header_def bit_simps bit_outside
        intro!: bit_word_eqI)
  then show ?thesis by (simp add: fields)
qed

lemma unit_of_header_of_unit: "unit_of_header (header_of_unit u) = u"
proof (rule bit_word_eqI)
  fix n assume "n < LENGTH(16)"
  then have "n < 4 \<or> 4 \<le> n \<and> n < 7 \<or> n = 7 \<or> 8 \<le> n \<and> n < 15 \<or> n = 15" by auto
  then show "bit (unit_of_header (header_of_unit u)) n = bit u n"
    by (elim disjE) (auto simp: header_of_unit_def unit_of_header_def bit_simps)
qed


interpretation frame_header: fixed_codec bytes_of_header header_of_bytes 2
  by unfold_locales
    (simp_all add: bytes_of_header_def header_of_bytes_def le16.length_enc le16.dec_enc le16.enc_dec
      header_of_unit_of_header unit_of_header_of_unit)

text \<open>
  What RFC 6455 draws for the first two bytes of a frame: FIN and the opcode in the first,
  the mask flag and the seven length bits in the second.
\<close>

lemma bytes_of_header_layout:
  "bytes_of_header h =
     [push_bit 7 (ucast (fin h)) OR push_bit 4 (ucast (rsvd h)) OR ucast (opcode h),
      push_bit 7 (ucast (maskFlag h)) OR ucast (payloadLen h)]"
proof -
  have split: "le_of_word (u :: u16) = [ucast u, ucast (drop_bit 8 u)]" for u
  proof -
    have "unat u div 256 = unat (drop_bit 8 u)" 
      by (subst unat_drop_bit_eq) (simp add: drop_bit_eq_div)
    moreover have "le_of_word u = [of_nat (unat u), of_nat (unat u div 256)]"
      by (simp add: le_of_word_def numeral_2_eq_2)
    ultimately show ?thesis by (simp only: of_nat_unat)
  qed
  show ?thesis
    unfolding bytes_of_header_def split list.inject
    by (auto simp: unit_of_header_def bit_simps bit_outside intro!: bit_word_eqI)
qed

section \<open>Masking\<close>

text \<open>
  \<open>payload[i] = payload[i] ^ ((uint8_t* )&maskingKey)[i % 4]\<close> for \<open>i\<close> from 0 up to the
  payload's length; \<open>key\<close> is the four bytes of \<open>maskingKey\<close> in memory.
\<close>

function unmask_loop :: "nat \<Rightarrow> nat \<Rightarrow> u8 list \<Rightarrow> u8 list \<Rightarrow> u8 list" where
  "unmask_loop i n key payload =
     (if i < n then unmask_loop (Suc i) n key (payload[i := payload ! i XOR key ! (i mod 4)])
      else payload)"
  by pat_completeness auto
termination
  by (relation "measure (\<lambda>(i, n, key, payload). n - i)") auto

declare unmask_loop.simps [simp del]

definition unmask :: "nat \<Rightarrow> u8 list \<Rightarrow> u8 list \<Rightarrow> u8 list" where
  "unmask n key payload = unmask_loop 0 n key payload"

lemma length_unmask_loop [simp]: "length (unmask_loop i n key payload) = length payload"
proof (induction i n key payload rule: unmask_loop.induct)
  case (1 i n key payload)
  then show ?case by (simp add: unmask_loop.simps [of i])
qed

lemma unmask_loop_nth:
  assumes "n \<le> length payload" and "j < length payload"
  shows "unmask_loop i n key payload ! j
     = (if i \<le> j \<and> j < n then payload ! j XOR key ! (j mod 4) else payload ! j)"
  using assms
proof (induction i n key payload rule: unmask_loop.induct)
  case (1 i n key payload)
  show ?case
  proof (cases "i < n")
    case True
    with 1 show ?thesis by (auto simp: unmask_loop.simps [of i] nth_list_update)
  next
    case False
    then show ?thesis by (auto simp: unmask_loop.simps [of i])
  qed
qed

lemma unmask_nth:
  "n \<le> length payload \<Longrightarrow> j < length payload \<Longrightarrow>
     unmask n key payload ! j = (if j < n then payload ! j XOR key ! (j mod 4) else payload ! j)"
  by (simp add: unmask_def unmask_loop_nth)

lemma length_unmask [simp]: "length (unmask n key payload) = length payload"
  by (simp add: unmask_def)

lemma unmask_unmask: "n \<le> length payload \<Longrightarrow> unmask n key (unmask n key payload) = payload"
  by (rule nth_equalityI) (simp_all add: unmask_nth xor.assoc)

end
