(* ===== verification/Formatting.thy ===== *)
theory Formatting
  imports Shepoo_Prelude
begin

text \<open>
  Numbers as the stream \<open>std::cout\<close> writes them, in base ten or, after \<open>std::hex\<close>, in base
  sixteen with small letters; and a reader that gets the number back.
\<close>

definition digit_char :: "nat \<Rightarrow> char" where
  "digit_char d = ''0123456789abcdef'' ! d"

fun digits :: "nat \<Rightarrow> nat \<Rightarrow> string" where
  "digits b n = (if n < b \<or> b < 2 then [digit_char n] else digits b (n div b) @ [digit_char (n mod b)])"

declare digits.simps [simp del]

definition decimal :: "nat \<Rightarrow> string" where
  "decimal n = digits 10 n"

definition hexadecimal :: "nat \<Rightarrow> string" where
  "hexadecimal n = digits 16 n"

section \<open>Reading numbers\<close>

definition digit_value :: "char \<Rightarrow> nat" where
  "digit_value c = (if 97 \<le> (of_char c :: nat) then of_char c - 87 else of_char c - 48)"

definition number_value :: "nat \<Rightarrow> string \<Rightarrow> nat" where
  "number_value b s = foldl (\<lambda>n c. b * n + digit_value c) 0 s"

lemma digit_value_char: "d < 16 \<Longrightarrow> digit_value (digit_char d) = d"
proof -
  have "\<forall>d\<in>set [0..<16]. digit_value (digit_char d) = d" by code_simp
  then show "d < 16 \<Longrightarrow> digit_value (digit_char d) = d" by simp
qed

lemma number_value_digits:
  assumes "2 \<le> b" and "b \<le> 16"
  shows "number_value b (digits b n) = n"
  using assms
proof (induction b n rule: digits.induct)
  case (1 b n)
  note assms = "1.prems"
  show ?case
  proof (cases "n < b")
    case True
    with assms show ?thesis by (simp add: digits.simps [of b n] number_value_def digit_value_char)
  next
    case False
    with 1 have "number_value b (digits b (n div b)) = n div b" by simp
    moreover have "n mod b < 16" using assms by (simp add: order.strict_trans2 [of _ b])
    ultimately show ?thesis
      using False assms by (simp add: digits.simps [of b n] number_value_def digit_value_char)
  qed
qed

text \<open>Different numbers are written differently.\<close>

lemma digits_inject:
  assumes "2 \<le> b" and "b \<le> 16"
  shows "digits b m = digits b n \<longleftrightarrow> m = n"
proof
  assume "digits b m = digits b n"
  then have "number_value b (digits b m) = number_value b (digits b n)" by (rule arg_cong)
  then show "m = n" unfolding number_value_digits [OF assms] .
qed simp

lemma decimal_inject: "decimal m = decimal n \<longleftrightarrow> m = n"
  unfolding decimal_def by (rule digits_inject) simp_all

lemma hexadecimal_inject: "hexadecimal m = hexadecimal n \<longleftrightarrow> m = n"
  unfolding hexadecimal_def by (rule digits_inject) simp_all

end
