(* ===== verification/Protocol.thy ===== *)
theory Protocol
  imports Blockstorage Wire Formatting
begin

text \<open>
  \<open>src/protocol.cpp\<close>: the handler of one request packet. It works on a block storage and on
  the connection that delivered the packet; the storage's three methods, the connection's
  \<open>sendPacket\<close> and the printing of a line are arguments, so that the lemmas about the handler rest on
  the contract of \<open>block_source\<close> alone.
\<close>

section \<open>Constants\<close>

text \<open>\<open>configure.sh\<close> puts version 0.1 on the compiler's command line.\<close>

definition VERSION_MAJOR :: int where
  "VERSION_MAJOR = 0"

definition VERSION_MINOR :: int where
  "VERSION_MINOR = 1"

definition protocol_version :: int where
  "protocol_version = push_bit 4 VERSION_MAJOR OR VERSION_MINOR"

datatype Commands =
    COMMAND_READ_BLOCK | COMMAND_WRITE_BLOCK | COMMAND_LOCK_BLOCKS | COMMAND_GET_MAPPING
  | COMMAND_BLOCK_ANSWER | COMMAND_IS_BLOCK_AVAILABLE | COMMAND_OK | COMMAND_NOK

primrec command_code :: "Commands \<Rightarrow> u8" where
  "command_code COMMAND_READ_BLOCK = 1"
| "command_code COMMAND_WRITE_BLOCK = 2"
| "command_code COMMAND_LOCK_BLOCKS = 3"
| "command_code COMMAND_GET_MAPPING = 4"
| "command_code COMMAND_BLOCK_ANSWER = 5"
| "command_code COMMAND_IS_BLOCK_AVAILABLE = 6"
| "command_code COMMAND_OK = 7"
| "command_code COMMAND_NOK = 8"

lemma protocol_version_value [simp]: "protocol_version = 1"
  by (simp add: protocol_version_def VERSION_MAJOR_def VERSION_MINOR_def)

section \<open>Block numbers\<close>

text \<open>The eight bytes of a big-endian number; a shorter buffer is read past its end.\<close>

definition extractUint64FromPayload :: "u8 list \<Rightarrow> (u64, 's) prog" where
  "extractUint64FromPayload payload =
     (if length payload < 8 then undefp Out_of_bounds
      else returnp
        (push_bit 56 (ucast (payload ! 0)) OR push_bit 48 (ucast (payload ! 1))
         OR push_bit 40 (ucast (payload ! 2)) OR push_bit 32 (ucast (payload ! 3))
         OR push_bit 24 (ucast (payload ! 4)) OR push_bit 16 (ucast (payload ! 5))
         OR push_bit 8 (ucast (payload ! 6)) OR ucast (payload ! 7)))"

text \<open>The client's side: a number in network byte order.\<close>

definition be_of_word :: "u64 \<Rightarrow> u8 list" where
  "be_of_word w = map (\<lambda>i. ucast (drop_bit (8 * i) w)) [7, 6, 5, 4, 3, 2, 1, 0]"

lemma length_be_of_word [simp]: "length (be_of_word w) = 8"
  by (simp add: be_of_word_def)

lemma bit_push_byte: "bit (push_bit k (ucast (b :: u8)) :: u64) n \<longleftrightarrow> k \<le> n \<and> n < k + 8 \<and> n < 64 \<and> bit b (n - k)"
  by (auto simp: bit_simps bit_outside dest: bit_imp_le_length)

lemma bit_byte: "bit (ucast (drop_bit k (w :: u64)) :: u8) i \<longleftrightarrow> i < 8 \<and> bit w (k + i)"
  by (auto simp: bit_simps)

lemma byte_window: "bit (push_bit k (ucast (ucast (drop_bit k w) :: u8)) :: u64) n \<longleftrightarrow> k \<le> n \<and> n < k + 8 \<and> bit w n" for w :: u64
  by (auto simp: bit_push_byte bit_byte dest: bit_imp_le_length)

lemma byte_window0: "bit (ucast (ucast w :: u8) :: u64) n \<longleftrightarrow> n < 8 \<and> bit w n" for w :: u64
  by (auto simp: bit_simps)

lemma be_bytes_combine:
  fixes w :: u64
  shows "push_bit 56 (ucast (ucast (drop_bit 56 w) :: u8)) OR push_bit 48 (ucast (ucast (drop_bit 48 w) :: u8))
       OR push_bit 40 (ucast (ucast (drop_bit 40 w) :: u8)) OR push_bit 32 (ucast (ucast (drop_bit 32 w) :: u8))
       OR push_bit 24 (ucast (ucast (drop_bit 24 w) :: u8)) OR push_bit 16 (ucast (ucast (drop_bit 16 w) :: u8))
       OR push_bit 8 (ucast (ucast (drop_bit 8 w) :: u8)) OR ucast (ucast w :: u8) = w"
proof (rule bit_word_eqI)
  fix n assume "n < LENGTH(64)"
  then show "bit (push_bit 56 (ucast (ucast (drop_bit 56 w) :: u8)) OR push_bit 48 (ucast (ucast (drop_bit 48 w) :: u8))
       OR push_bit 40 (ucast (ucast (drop_bit 40 w) :: u8)) OR push_bit 32 (ucast (ucast (drop_bit 32 w) :: u8))
       OR push_bit 24 (ucast (ucast (drop_bit 24 w) :: u8)) OR push_bit 16 (ucast (ucast (drop_bit 16 w) :: u8))
       OR push_bit 8 (ucast (ucast (drop_bit 8 w) :: u8)) OR ucast (ucast w :: u8) :: u64) n = bit w n"
    unfolding bit_or_iff byte_window byte_window0 by (cases "bit w n") (simp_all, arith)
qed

lemma extract_be_of_word:
  "extractUint64FromPayload (be_of_word w @ rest) s = Some (Ret w, s)"
  using be_bytes_combine [of w] by (simp add: extractUint64FromPayload_def be_of_word_def)

section \<open>The handler\<close>

definition answer_packet :: "Packet \<Rightarrow> Commands \<Rightarrow> u64 \<Rightarrow> Packet" where
  "answer_packet packet c len =
     \<lparr>version = version packet, command = command_code c, payloadLength = len\<rparr>"

text \<open>The first eight bytes of the packet, as a number.\<close>

definition unsupported_version :: "Packet \<Rightarrow> string" where
  "unsupported_version packet =
     ''Unsupported Packet-version: '' @ hexadecimal (unat (word_of_le (take 8 (bytes_of_Packet packet)) :: u64))"

definition packetReceived ::
  "nat \<Rightarrow> (string \<Rightarrow> (unit, 's) prog) \<Rightarrow> (u64 \<Rightarrow> bool) \<Rightarrow> (u64 \<Rightarrow> (u8 list option, 's) prog) \<Rightarrow> (u64 \<Rightarrow> u8 list \<Rightarrow> (unit, 's) prog) \<Rightarrow>
   (Packet \<Rightarrow> u8 list option \<Rightarrow> (unit, 's) prog) \<Rightarrow> Packet \<Rightarrow> u8 list \<Rightarrow> (unit, 's) prog" where
  "packetReceived BS out avail get store send packet payload =
     (if uint (version packet) \<noteq> protocol_version
      then seqp (out (unsupported_version packet)) (exitp (-1))
      else if command packet = command_code COMMAND_READ_BLOCK then
        (if payloadLength packet \<noteq> 8 then exitp (-1)
         else
           bindp (extractUint64FromPayload payload) (\<lambda>blockNumber.
           bindp (get blockNumber) (\<lambda>blockData.
           send (answer_packet packet COMMAND_BLOCK_ANSWER (of_nat BS)) blockData)))
      else if command packet = command_code COMMAND_WRITE_BLOCK then
        (if payloadLength packet \<noteq> of_nat (8 + BS) then exitp (-1)
         else
           bindp (extractUint64FromPayload payload) (\<lambda>blockNumber.
           seqp (store blockNumber (drop 8 payload))
           (send (answer_packet packet COMMAND_OK 0) None)))
      else if command packet = command_code COMMAND_LOCK_BLOCKS then returnp ()
      else if command packet = command_code COMMAND_GET_MAPPING then returnp ()
      else if command packet = command_code COMMAND_IS_BLOCK_AVAILABLE then
        bindp (extractUint64FromPayload payload) (\<lambda>blockNumber.
        send (answer_packet packet (if avail blockNumber then COMMAND_OK else COMMAND_NOK) 0) None)
      else exitp (-1))"

section \<open>What a server promises\<close>

text \<open>
  The requests a client can make, their packets, and the reply to each, over an abstract
  store that has a block for some numbers.
\<close>

datatype request =
    Read_block u64
  | Write_block u64 "u8 list"
  | Lock_blocks "u8 list"
  | Get_mapping "u8 list"
  | Is_available u64

primrec request_command :: "request \<Rightarrow> Commands" where
  "request_command (Read_block n) = COMMAND_READ_BLOCK"
| "request_command (Write_block n bs) = COMMAND_WRITE_BLOCK"
| "request_command (Lock_blocks bs) = COMMAND_LOCK_BLOCKS"
| "request_command (Get_mapping bs) = COMMAND_GET_MAPPING"
| "request_command (Is_available n) = COMMAND_IS_BLOCK_AVAILABLE"

primrec request_payload :: "request \<Rightarrow> u8 list" where
  "request_payload (Read_block n) = be_of_word n"
| "request_payload (Write_block n bs) = be_of_word n @ bs"
| "request_payload (Lock_blocks bs) = bs"
| "request_payload (Get_mapping bs) = bs"
| "request_payload (Is_available n) = be_of_word n"

definition request_packet :: "request \<Rightarrow> Packet" where
  "request_packet r = \<lparr>version = 1, command = command_code (request_command r),
     payloadLength = of_nat (length (request_payload r))\<rparr>"

primrec request_ok :: "nat \<Rightarrow> request \<Rightarrow> bool" where
  "request_ok BS (Read_block n) = True"
| "request_ok BS (Write_block n bs) = (length bs = BS)"
| "request_ok BS (Lock_blocks bs) = True"
| "request_ok BS (Get_mapping bs) = True"
| "request_ok BS (Is_available n) = True"

text \<open>
  The reply as the packet and the data handed to \<open>sendPacket\<close>. A read of a block the store
  does not have is answered with the null pointer.
\<close>

primrec reply :: "nat \<Rightarrow> (u64 \<rightharpoonup> u8 list) \<Rightarrow> request \<Rightarrow> (Packet \<times> u8 list option) option" where
  "reply BS blocks (Read_block n) =
     Some (\<lparr>version = 1, command = 5, payloadLength = of_nat BS\<rparr>, blocks n)"
| "reply BS blocks (Write_block n bs) =
     Some (\<lparr>version = 1, command = 7, payloadLength = 0\<rparr>, None)"
| "reply BS blocks (Lock_blocks bs) = None"
| "reply BS blocks (Get_mapping bs) = None"
| "reply BS blocks (Is_available n) =
     Some (\<lparr>version = 1, command = (if blocks n = None then 8 else 7), payloadLength = 0\<rparr>, None)"

text \<open>Only a read that finds its block allocates.\<close>

primrec reply_state :: "(u64 \<rightharpoonup> u8 list) \<Rightarrow> ('s \<Rightarrow> 's) \<Rightarrow> request \<Rightarrow> 's \<Rightarrow> 's" where
  "reply_state blocks tick (Read_block n) s = (if blocks n = None then s else tick s)"
| "reply_state blocks tick (Write_block n bs) s = s"
| "reply_state blocks tick (Lock_blocks bs) s = s"
| "reply_state blocks tick (Get_mapping bs) s = s"
| "reply_state blocks tick (Is_available n) s = s"

context block_source
begin

lemma handler_replies:
  assumes "good s" and "request_ok size r"
  shows "packetReceived size out avail get store send (request_packet r) (request_payload r @ rest) s =
    (case reply size (\<lambda>n. if avail n then Some (block n) else None) r of
       None \<Rightarrow> Some (Ret (), s)
     | Some (p, d) \<Rightarrow> send p d (reply_state (\<lambda>n. if avail n then Some (block n) else None) tick r s))"
proof (cases r)
  case (Read_block n)
  with assms show ?thesis
    by (cases "avail n")
      (simp_all add: packetReceived_def request_packet_def answer_packet_def prog_simps
        get_available get_unavailable extract_be_of_word)
next
  case (Write_block n bs)
  with assms show ?thesis
    by (simp add: packetReceived_def request_packet_def answer_packet_def prog_simps
        extract_be_of_word store_runs)
next
  case (Is_available n)
  then show ?thesis
    by (simp add: packetReceived_def request_packet_def answer_packet_def prog_simps
        extract_be_of_word)
qed (simp_all add: packetReceived_def request_packet_def)

end

end
