(* ===== verification/Protocol_Properties.thy ===== *)
theory Protocol_Properties
  imports Protocol
begin

text \<open>
  What the block storage, the wire formats and the request handler guarantee, and where the
  arithmetic of the storage goes wrong.
\<close>

section \<open>An example machine\<close>

text \<open>A file of two blocks of four bytes.\<close>

definition sample_file :: "u8 list" where
  "sample_file = [1, 2, 3, 4, 5, 6, 7, 8]"

definition sample_machine :: machine where
  "sample_machine = \<lparr>brk = 0, indet = (\<lambda>k i. 170), can_alloc = (\<lambda>n. True), string_limit = 4096,
     files = [''/blocks'' \<mapsto> sample_file], fds = Map.empty, fd_limit = 16, file_locks = []\<rparr>"

definition sample_storage :: Blockstorage where
  "sample_storage = \<lparr>bs_path = ''/blocks'', bs_fileLength = 8\<rparr>"

lemma sample_serves: "serves sample_machine 4 sample_storage sample_file"
  by (simp add: serves_def sample_machine_def sample_storage_def sample_file_def free_fd_first)

section \<open>The block storage\<close>

lemma block_offset_exact: "unat num * BS < 2 ^ 64 \<Longrightarrow> block_offset BS num = unat num * BS"
  by (simp add: block_offset_def)

text \<open>
  In a file that is at least one block long, and for block numbers whose offset fits
  into 64 bits, a block is available exactly when the whole of it lies inside the file.
\<close>

lemma available_iff_inside:
  assumes "BS \<le> unat (bs_fileLength st)" and "unat num * BS < 2 ^ 64"
  shows "isBlockAvailable BS st num \<longleftrightarrow> (unat num + 1) * BS \<le> unat (bs_fileLength st)"
  using assms by (simp add: isBlockAvailable_offset block_offset_exact add.commute)

lemma available_iff_inside_witness:
  "isBlockAvailable 4 sample_storage 1 \<and> \<not> isBlockAvailable 4 sample_storage 2"
  using available_iff_inside [of 4 sample_storage 1] available_iff_inside [of 4 sample_storage 2]
  by (simp add: sample_storage_def)

text \<open>
  C8: while the file is the one whose length the object remembers, at least a block long, and memory
  and a descriptor are free: for every block number, with the offset computed as the source does, modulo \<open>2 ^ 64\<close>: when a
  block at this offset is inside the file, its bytes are read, at the cost of one allocation;
  otherwise the null pointer is returned. Descriptors, file positions and locks are afterwards as
  they were. So a number whose offset fits into 64 bits gets the block of that number or the null
  pointer, and a larger number the block its offset wraps around to.
\<close>

theorem getBlock_reads_block:
  assumes "serves m BS st content"
  shows "getBlock BS st num m =
     (let offset = unat num * BS mod 2 ^ 64 in
      if offset + BS \<le> length content
      then Some (Ret (Some (take BS (drop offset content))), m\<lparr>brk := Suc (brk m)\<rparr>)
      else Some (Ret None, m))"
proof -
  have len: "length content = unat (bs_fileLength st)" "BS \<le> unat (bs_fileLength st)"
    using assms by (auto simp: serves_def)
  show ?thesis
    using getBlock_serves [OF assms, of num] getBlock_unavailable [of BS st num m] isBlockAvailable_offset [OF len(2), of num]
    by (cases "isBlockAvailable BS st num") (simp_all add: block_at_def block_offset_def len(1) Let_def)
qed

theorem getBlock_reads_block_witness:
  "(\<exists>m'. getBlock 4 sample_storage 1 sample_machine = Some (Ret (Some [5, 6, 7, 8]), m'))
   \<and> (\<exists>m'. getBlock 4 sample_storage 4611686018427387905 sample_machine = Some (Ret (Some [5, 6, 7, 8]), m'))
   \<and> getBlock 4 sample_storage 2 sample_machine = Some (Ret None, sample_machine)"
  using getBlock_reads_block [OF sample_serves, of 1] getBlock_reads_block [OF sample_serves, of 2]
    getBlock_reads_block [OF sample_serves, of 4611686018427387905]
  by (simp add: sample_file_def)

text \<open>
  Offsets wrap around: with blocks of 4096 bytes, block number \<open>2 ^ 52 + n\<close> is served as
  block \<open>n\<close>.
\<close>

lemma block_numbers_wrap:
  "getBlock 4096 st (num + 4503599627370496) m = getBlock 4096 st num m
   \<and> isBlockAvailable 4096 st (num + 4503599627370496) = isBlockAvailable 4096 st num"
proof -
  have "(4503599627370496 :: u64) * of_nat 4096 = 0"
    by (rule word_unat_eq_iff [THEN iffD2]) (simp add: unat_word_ariths)
  then have same: "(num + 4503599627370496) * of_nat 4096 = num * of_nat 4096"
    by (simp only: distrib_right add_0_right)
  show ?thesis unfolding getBlock_def isBlockAvailable_def same by (rule conjI) (rule refl)+
qed

lemma short_available:
  assumes short: "unat (bs_fileLength st) < BS" and num: "(unat num + 1) * BS \<le> 2 ^ 64"
    and small: "BS < 2 ^ 64"
  shows "isBlockAvailable BS st num"
proof -
  have "0 < BS" using short by simp
  with num have off: "unat num * BS < 2 ^ 64" by (simp add: distrib_right)
  have BS: "unat (of_nat BS :: u64) = BS" using small by (simp add: unat_of_nat)
  have "\<not> (of_nat BS :: u64) \<le> bs_fileLength st" using short BS by (simp add: word_le_nat_alt)
  then have "unat (bs_fileLength st - of_nat BS) = unat (bs_fileLength st) + 2 ^ 64 - BS"
    using BS short by (simp add: unat_sub_if')
  moreover have "unat (num * of_nat BS) = unat num * BS"
    by (simp add: unat_offset block_offset_exact [OF off])
  ultimately show ?thesis
    using num by (simp add: isBlockAvailable_def word_le_nat_alt distrib_right)
qed

text \<open>
  When the file is shorter than a block, for instance when there is none,
  \<open>_fileLength - BLOCK_SIZE\<close> wraps around, and every block whose end fits into 64 bits
  counts as available.
\<close>

lemma short_file_all_available:
  assumes "unat (bs_fileLength st) < BS" and "(unat num + 1) * BS \<le> 2 ^ 64" and "BS < 2 ^ 64"
  shows "isBlockAvailable BS st num"
  using assms by (rule short_available)

lemma short_file_all_available_witness:
  "isBlockAvailable 4096 \<lparr>bs_path = '''', bs_fileLength = 0\<rparr> 12345"
  by (rule short_file_all_available) simp_all



text \<open>
  \<open>getBlock\<close> opens the file for reading only, so its \<open>lockf\<close> call never obtains a lock,
  and no lock is left behind.
\<close>

lemma getBlock_takes_no_lock:
  assumes "getBlock BS st num m = Some (r, m')" and "file_locks m = []" and "fds m (-1) = None"
  shows "file_locks m' = []"
  using assms
  by (auto simp: getBlock_def bindp_def seqp_def posix_open_rdonly_def posix_lseek_def posix_lockf_def
      posix_read_def posix_close_def new_bytes_def local_bytes_def Let_def
      split: if_splits option.splits)

lemma getBlock_takes_no_lock_witness:
  "\<exists>r m'. getBlock 4 sample_storage 0 sample_machine = Some (r, m') \<and> file_locks m' = []"
proof -
  have "isBlockAvailable 4 sample_storage 0"
    by (simp add: isBlockAvailable_offset block_offset_exact sample_storage_def)
  from getBlock_serves [OF sample_serves this] show ?thesis
    using getBlock_takes_no_lock [of 4 sample_storage 0 sample_machine] by (fastforce simp: sample_machine_def)
qed

section \<open>Bytes on the wire\<close>

text \<open>A packet header is ten bytes, and reading what was written gives the packet back.\<close>

lemma packet_round_trip:
  "length (bytes_of_Packet p) = sizeof_Packet
   \<and> Packet_of_bytes (take sizeof_Packet (bytes_of_Packet p @ rest)) = p"
  by (simp add: packet.length_enc packet.dec_enc sizeof_Packet_def)

text \<open>
  The bit fields of the frame header occupy the two bytes as RFC 6455 draws them, and
  reading them back gives the header.
\<close>

lemma frame_header_layout:
  "bytes_of_header h =
     [push_bit 7 (ucast (fin h)) OR push_bit 4 (ucast (rsvd h)) OR ucast (opcode h),
      push_bit 7 (ucast (maskFlag h)) OR ucast (payloadLen h)]
   \<and> header_of_bytes (bytes_of_header h) = h"
  by (simp only: bytes_of_header_layout frame_header.dec_enc [unfolded bytes_of_header_layout])

section \<open>Requests\<close>

text \<open>A block number is sent in network byte order and read back from the payload.\<close>

lemma block_number_round_trip:
  "extractUint64FromPayload (be_of_word num @ rest) s = Some (Ret num, s)"
  by (rule extract_be_of_word)

text \<open>
  C5: over a file that can be served, a well-formed request is handled as the abstract
  server prescribes: at most one answer, the one \<open>reply\<close> gives, is handed to \<open>sendPacket\<close>,
  in a state that differs from the one before at most by one allocation.
\<close>

theorem handler_refines_reply:
  assumes "serves s BS st content" and "request_ok BS r"
  shows "packetReceived BS out (isBlockAvailable BS st) (getBlock BS st) (storeBlock BS st) send
      (request_packet r) (request_payload r @ rest) s =
    (case reply BS (\<lambda>n. if isBlockAvailable BS st n then Some (block_at BS content n) else None) r of
       None \<Rightarrow> Some (Ret (), s)
     | Some (p, d) \<Rightarrow> send p d
         (reply_state (\<lambda>n. if isBlockAvailable BS st n then Some (block_at BS content n) else None)
            (\<lambda>m. m\<lparr>brk := Suc (brk m)\<rparr>) r s))"
  by (rule file_blocks.handler_replies [OF assms])

theorem handler_refines_reply_witness:
  "\<exists>m. packetReceived 4 (\<lambda>msg. returnp ()) (isBlockAvailable 4 sample_storage) (getBlock 4 sample_storage) (storeBlock 4 sample_storage)
      (\<lambda>p d. if p = \<lparr>version = 1, command = 5, payloadLength = 4\<rparr> \<and> d = Some [5, 6, 7, 8] then returnp () else throwp)
      (request_packet (Read_block 1)) (be_of_word 1) sample_machine = Some (Ret (), m)"
proof -
  have "isBlockAvailable 4 sample_storage 1"
    by (simp add: isBlockAvailable_offset block_offset_exact sample_storage_def)
  moreover have "block_at 4 sample_file 1 = [5, 6, 7, 8]"
    by (simp add: block_at_def block_offset_exact sample_file_def)
  ultimately show ?thesis
    using handler_refines_reply [OF sample_serves, where r = "Read_block 1" and rest = "[]"] by simp
qed

text \<open>Packets no handler accepts.\<close>

definition bad_packet :: "nat \<Rightarrow> Packet \<Rightarrow> bool" where
  "bad_packet BS p \<longleftrightarrow> version p \<noteq> 1
     \<or> command p \<notin> command_code ` {COMMAND_READ_BLOCK, COMMAND_WRITE_BLOCK, COMMAND_LOCK_BLOCKS,
          COMMAND_GET_MAPPING, COMMAND_IS_BLOCK_AVAILABLE}
     \<or> (command p = command_code COMMAND_READ_BLOCK \<and> payloadLength p \<noteq> 8)
     \<or> (command p = command_code COMMAND_WRITE_BLOCK \<and> payloadLength p \<noteq> of_nat (8 + BS))"

text \<open>
  C25: a packet of another version, with a command that is not a request, or with the wrong
  length for a read or a write ends the process before anything is read, stored or sent; only
  the unsupported version is reported, with the first eight bytes of the packet.
\<close>

theorem bad_packet_ends_process:
  assumes "bad_packet BS p"
  shows "packetReceived BS out avail get store send p payload s =
    (if version p = 1 then Some (Exit (-1), s) else seqp (out (unsupported_version p)) (exitp (-1)) s)"
proof (cases "version p = 1")
  case False
  then have "uint (version p) \<noteq> 1" using uint_1 word_uint_eq_iff by metis
  with False show ?thesis by (simp add: packetReceived_def)
next
  case True
  with assms show ?thesis by (auto simp: packetReceived_def bad_packet_def)
qed

theorem bad_packet_ends_process_witness:
  "packetReceived 4 (\<lambda>msg. modifyp (\<lambda>ls. ls @ [msg])) (\<lambda>n. True) (\<lambda>n. throwp) (\<lambda>n bs. throwp) (\<lambda>p d. throwp)
     \<lparr>version = 2, command = 1, payloadLength = 8\<rparr> [] [] = Some (Exit (-1), [''Unsupported Packet-version: 80102''])"
proof -
  have "digits 16 524546 = ''80102''" by (simp add: digits.simps digit_char_def)
  moreover have "take 6 (le_bytes 8 8) = [8, 0, 0, 0, 0, 0]" by code_simp
  ultimately have "unsupported_version \<lparr>version = 2, command = 1, payloadLength = 8\<rparr> = ''Unsupported Packet-version: 80102''"
    by (simp add: unsupported_version_def hexadecimal_def bytes_of_Packet_def le_of_word_def word_of_le_def)
  then show ?thesis
    by (subst bad_packet_ends_process) (simp_all add: bad_packet_def seqp_run)
qed

text \<open>
  The availability request is the one whose length is not checked: with fewer than eight
  bytes of payload the handler reads past the end of the buffer.
\<close>

lemma short_availability_request_overreads:
  assumes "version p = 1" and "command p = command_code COMMAND_IS_BLOCK_AVAILABLE" and "length payload < 8"
  shows "packetReceived BS out avail get store send p payload s = Some (Undefined Out_of_bounds, s)"
  using assms by (simp add: packetReceived_def extractUint64FromPayload_def prog_simps)

lemma short_availability_request_overreads_witness:
  "packetReceived 4 (\<lambda>msg. returnp ()) (\<lambda>n. True) (\<lambda>n. throwp) (\<lambda>n bs. throwp) (\<lambda>p d. throwp)
     \<lparr>version = 1, command = 6, payloadLength = 0\<rparr> [0] () = Some (Undefined Out_of_bounds, ())"
  by (rule short_availability_request_overreads) simp_all

text \<open>
  A write is acknowledged, and the state in which the acknowledgement is sent is the one
  in which the request arrived: every later read returns what was there before the write.
\<close>

lemma acknowledged_write_is_lost:
  assumes "length bs = BS"
  shows "packetReceived BS out (isBlockAvailable BS st) (getBlock BS st) (storeBlock BS st)
      (\<lambda>p d. if p = \<lparr>version = 1, command = command_code COMMAND_OK, payloadLength = 0\<rparr> \<and> d = None
             then returnp () else throwp)
      (request_packet (Write_block num bs)) (be_of_word num @ bs) m = Some (Ret (), m)"
  using assms
  by (simp add: packetReceived_def request_packet_def answer_packet_def extract_be_of_word storeBlock_def prog_simps)

lemma acknowledged_write_is_lost_witness:
  "packetReceived 4 (\<lambda>msg. returnp ()) (isBlockAvailable 4 sample_storage) (getBlock 4 sample_storage) (storeBlock 4 sample_storage)
      (\<lambda>p d. if p = \<lparr>version = 1, command = command_code COMMAND_OK, payloadLength = 0\<rparr> \<and> d = None
             then returnp () else throwp)
      (request_packet (Write_block 0 [9, 9, 9, 9])) (be_of_word 0 @ [9, 9, 9, 9]) sample_machine
     = Some (Ret (), sample_machine)"
  by (rule acknowledged_write_is_lost) simp

section \<open>The type of an answer\<close>

text \<open>
  A well-typed answer: either a block with as many bytes as announced, or a status without
  data. \<open>checked_send\<close> fails when it is handed anything else.
\<close>

definition well_typed_answer :: "Packet \<Rightarrow> u8 list option \<Rightarrow> bool" where
  "well_typed_answer p d \<longleftrightarrow> version p = 1 \<and>
     (case d of None \<Rightarrow> command p \<in> {command_code COMMAND_OK, command_code COMMAND_NOK} \<and> payloadLength p = 0
      | Some bs \<Rightarrow> command p = command_code COMMAND_BLOCK_ANSWER \<and> payloadLength p = of_nat (length bs))"

definition checked_send :: "(Packet \<Rightarrow> u8 list option \<Rightarrow> (unit, 's) prog) \<Rightarrow> Packet \<Rightarrow> u8 list option \<Rightarrow> (unit, 's) prog" where
  "checked_send send p d = (if well_typed_answer p d then send p d else undefp Out_of_bounds)"

lemma extract_cases:
  obtains "(extractUint64FromPayload payload :: (u64, 's) prog) = undefp Out_of_bounds"
  | n where "(extractUint64FromPayload payload :: (u64, 's) prog) = returnp n"
  by (cases "length payload < 8") (simp_all add: extractUint64FromPayload_def)

lemma version_checked: "uint (v :: u8) = 1 \<longleftrightarrow> v = 1"
  by (simp add: word_uint_eq_iff)

text \<open>
  C16: whatever packet a client sends, every answer the handler hands to \<open>sendPacket\<close> is well
  typed, except the one to a read of a block that is not available: with an \<open>sendPacket\<close> that
  checks the type of its arguments the handler does the same.
\<close>

theorem answers_well_typed:
  fixes m :: "'z machine_scheme"
  assumes serves: "serves m BS st content"
    and read: "\<And>n. command packet = command_code COMMAND_READ_BLOCK \<Longrightarrow>
      extractUint64FromPayload payload m = Some (Ret n, m) \<Longrightarrow> isBlockAvailable BS st n"
  shows "packetReceived BS out (isBlockAvailable BS st) (getBlock BS st) (storeBlock BS st) (checked_send send) packet payload m
     = packetReceived BS out (isBlockAvailable BS st) (getBlock BS st) (storeBlock BS st) send packet payload m"
proof (cases "version packet = 1")
  case version: True
  show ?thesis
  proof (cases payload rule: extract_cases [where 's = "'z machine_scheme"])
    case 1
    then show ?thesis by (simp add: packetReceived_def)
  next
    case n: (2 n)
    show ?thesis
    proof (cases "command packet = command_code COMMAND_READ_BLOCK")
      case True
      then have "isBlockAvailable BS st n" by (intro read) (simp_all add: n)
      from file_blocks.get_available [OF serves this] file_blocks.block_size [OF serves this] True version
      show ?thesis
        by (simp add: packetReceived_def n bindp_run checked_send_def well_typed_answer_def answer_packet_def)
    qed (simp add: packetReceived_def n storeBlock_def checked_send_def well_typed_answer_def
        answer_packet_def version)
  qed
qed (simp add: packetReceived_def version_checked)

theorem answers_well_typed_witness:
  "packetReceived 4 (\<lambda>msg. returnp ()) (isBlockAvailable 4 sample_storage) (getBlock 4 sample_storage) (storeBlock 4 sample_storage)
       (checked_send (\<lambda>p d. returnp ())) \<lparr>version = 1, command = 1, payloadLength = 8\<rparr> (be_of_word 1) sample_machine
     = Some (Ret (), sample_machine\<lparr>brk := 1\<rparr>)"
proof -
  have one: "extractUint64FromPayload (be_of_word 1) s = Some (Ret 1, s)" for s :: machine
    using extract_be_of_word [of 1 "[]" s] by simp
  have avail: "isBlockAvailable 4 sample_storage 1" by (simp add: isBlockAvailable_def sample_storage_def)
  have brk: "brk sample_machine = 0" by (simp add: sample_machine_def)
  have "packetReceived 4 (\<lambda>msg. returnp ()) (isBlockAvailable 4 sample_storage) (getBlock 4 sample_storage) (storeBlock 4 sample_storage)
       (\<lambda>p d. returnp ()) \<lparr>version = 1, command = 1, payloadLength = 8\<rparr> (be_of_word 1) sample_machine
     = Some (Ret (), sample_machine\<lparr>brk := 1\<rparr>)"
    using getBlock_serves [OF sample_serves avail]
    by (simp add: packetReceived_def bindp_run one brk)
  with answers_well_typed [OF sample_serves, where packet = "\<lparr>version = 1, command = 1, payloadLength = 8\<rparr>"
      and payload = "be_of_word 1" and send = "\<lambda>p d. returnp ()" and out = "\<lambda>msg. returnp ()"] one [of sample_machine] avail show ?thesis by auto
qed

end
