(* ===== verification/Openssl.thy ===== *)
theory Openssl
  imports Shepoo_Prelude
begin

text \<open>
  OpenSSL and the resolver library are not part of the program: what the server uses of
  them is an argument \<open>L\<close> of the definitions. \<open>'c\<close> is the library's own state of one TLS
  connection.
  \<^item> \<open>SSL_read L c n\<close> gives the bytes one call of \<open>SSL_read\<close> for \<open>n\<close> bytes puts into the
    caller's buffer (none when the call fails) and the connection afterwards;
  \<^item> \<open>SSL_write L c n bs\<close> is the connection after a call of \<open>SSL_write\<close> for the \<open>n\<close> bytes \<open>bs\<close>;
  \<^item> \<open>SSL_accept L c\<close> is the return value of the handshake and the connection after it;
  \<^item> \<open>SSL_shutdown L c\<close> and \<open>SSL_free L c\<close> are the connection after it is closed and released;
  \<^item> \<open>ERR_reported L c\<close> are the messages for which \<open>ERR_print_errors_cb\<close> calls a callback that
    returns 0;
  \<^item> \<open>SHA1 L bs\<close> is the digest of \<open>bs\<close>, and \<open>b64_ntop L bs n\<close> the C string \<open>b64_ntop\<close> leaves
    in a zeroed buffer for which it is told the size \<open>n\<close>.
\<close>

record 'c openssl =
  SSL_new_fails :: bool
  SSL_accept :: "'c \<Rightarrow> int \<times> 'c"
  SSL_read :: "'c \<Rightarrow> int \<Rightarrow> u8 list \<times> 'c"
  SSL_write :: "'c \<Rightarrow> int \<Rightarrow> u8 list \<Rightarrow> 'c"
  SSL_shutdown :: "'c \<Rightarrow> 'c"
  SSL_free :: "'c \<Rightarrow> 'c"
  ERR_reported :: "'c \<Rightarrow> string list"
  SHA1 :: "u8 list \<Rightarrow> u8 list"
  b64_ntop :: "u8 list \<Rightarrow> nat \<Rightarrow> string"

section \<open>Documented behaviour\<close>

text \<open>
  The manual of \<open>SSL_read\<close>: a call returns bytes of at most one TLS record, and what is left
  of the record is there for the next call. \<open>tls_take n rs\<close> is what a call for \<open>n\<close> bytes
  returns, and leaves, when the records \<open>rs\<close> are still to be read; with no record left the
  peer has closed the connection and the call fails.
\<close>

fun tls_take :: "nat \<Rightarrow> u8 list list \<Rightarrow> u8 list \<times> u8 list list" where
  "tls_take n [] = ([], [])"
| "tls_take n (r # rs) =
     (if n = 0 then ([], r # rs)
      else if r = [] then tls_take n rs
      else (take n r, if length r \<le> n then rs else drop n r # rs))"

text \<open>
  \<open>pending c\<close> are the records the peer has sent and the server has not read; \<open>sent c\<close> the
  bytes the server has written so far. Calls for no bytes transfer nothing.
\<close>

definition openssl_behaves ::
  "'c openssl \<Rightarrow> ('c \<Rightarrow> u8 list list) \<Rightarrow> ('c \<Rightarrow> u8 list) \<Rightarrow> bool" where
  "openssl_behaves L pending sent \<longleftrightarrow>
     (\<forall>c n. fst (SSL_read L c n) = fst (tls_take (nat n) (pending c))
          \<and> pending (snd (SSL_read L c n)) = snd (tls_take (nat n) (pending c))
          \<and> sent (snd (SSL_read L c n)) = sent c) \<and>
     (\<forall>c n bs. pending (SSL_write L c n bs) = pending c
          \<and> sent (SSL_write L c n bs) = sent c @ bs) \<and>
     (\<forall>c. pending (snd (SSL_accept L c)) = pending c \<and> sent (snd (SSL_accept L c)) = sent c)"

lemma openssl_readD:
  assumes "openssl_behaves L pending sent"
  shows "\<exists>c'. SSL_read L c n = (fst (tls_take (nat n) (pending c)), c')
     \<and> pending c' = snd (tls_take (nat n) (pending c)) \<and> sent c' = sent c"
  using assms unfolding openssl_behaves_def by (metis prod.collapse)

lemma openssl_writeD:
  "openssl_behaves L pending sent \<Longrightarrow>
     pending (SSL_write L c n bs) = pending c \<and> sent (SSL_write L c n bs) = sent c @ bs"
  unfolding openssl_behaves_def by blast

lemma openssl_acceptD:
  "openssl_behaves L pending sent \<Longrightarrow> SSL_accept L c = (v, c') \<Longrightarrow>
     pending c' = pending c \<and> sent c' = sent c"
  unfolding openssl_behaves_def by (metis snd_conv)

lemma length_tls_take: "length (fst (tls_take n rs)) \<le> n"
  by (induction n rs rule: tls_take.induct) auto

lemma tls_take_0 [simp]: "tls_take 0 rs = ([], rs)"
  by (cases rs) auto

text \<open>Reading within one record.\<close>

lemma tls_take_prefix:
  "xs \<noteq> [] \<Longrightarrow> length xs = n \<Longrightarrow>
     tls_take n ((xs @ ys) # rs) = (xs, if ys = [] then rs else ys # rs)"
  by auto

text \<open>The bytes still to come, whatever the records they are in.\<close>

lemma tls_take_one: "fst (tls_take 1 rs) = take 1 (concat rs)"
proof (induction rs)
  case (Cons r rs)
  then show ?case by (cases r) auto
qed simp

lemma tls_take_one_rest: "concat (snd (tls_take 1 rs)) = tl (concat rs)"
proof (induction rs)
  case (Cons r rs)
  then show ?case by (cases r) auto
qed simp

end
