(* ===== verification/Process.thy ===== *)
theory Process
  imports Sigslot_System Openssl Blockstorage
begin

text \<open>
  The state of one process of the server, what it does with \<open>std::cout\<close>, and its calls of
  OpenSSL. The listening process is an extension of it, and the processes it forks are such
  states.
\<close>

section \<open>State\<close>

text \<open>
  \<open>receivedPacket\<close> is the address of the static signal, \<open>protocols\<close> the \<open>Protocol\<close> objects
  with the storage each works on. \<open>webSocket\<close> is set only when a WebSocket handshake has
  succeeded; until then it is what the memory of the object held before.
  \<open>sockets\<close> are the descriptors that are sockets, the others are in \<open>fds\<close>.

  \<open>std::cout\<close> writes through a buffer: to descriptor 1, or to the descriptor of the log file that
  \<open>daemonize\<close> puts in its place, -1 if that could not be opened. When a write fails the stream is
  no longer \<open>cout_good\<close> and takes nothing any more. \<open>printed\<close> is what the process wrote, and where
  to. The offset of a descriptor that two processes share after \<open>fork\<close> is copied: a process sees in
  the log what it has written itself.
\<close>

datatype member_function = Protocol_packetReceived

datatype stream_buffer = Stdout_buffer | Log_buffer int

datatype target = Standard_output | Socket int | Log_file string

record 'c proc = "member_function world" +
  ssl :: 'c
  webSocket :: bool
  sockets :: "int list"
  serverSocket :: int
  receivedPacket :: nat
  protocols :: "nat \<rightharpoonup> Blockstorage"
  cout_buffer :: stream_buffer
  cout_good :: bool
  printed :: "(target \<times> string) list"

type_synonym ('a, 'c) netprog = "('a, 'c proc) prog"

section \<open>Calls of OpenSSL\<close>

text \<open>The third argument of \<open>SSL_read\<close> and \<open>SSL_write\<close> is an \<open>int\<close>; a \<open>uint64_t\<close> is cut to it.\<close>

definition int_argument :: "u64 \<Rightarrow> int" where
  "int_argument w = sint (ucast w :: u32)"

definition ssl_read :: "'c openssl \<Rightarrow> u8 list \<Rightarrow> int \<Rightarrow> (u8 list, 'c) netprog" where
  "ssl_read L buf n = (\<lambda>p.
     let (bs, c') = SSL_read L (ssl p) n
     in if length buf < length bs then Some (Undefined Out_of_bounds, p\<lparr>ssl := c'\<rparr>)
        else Some (Ret (overwrite buf bs), p\<lparr>ssl := c'\<rparr>))"

definition ssl_write :: "'c openssl \<Rightarrow> int \<Rightarrow> u8 list \<Rightarrow> (unit, 'c) netprog" where
  "ssl_write L n bs = modifyp (\<lambda>p. p\<lparr>ssl := SSL_write L (ssl p) n bs\<rparr>)"

definition ssl_write_all :: "'c openssl \<Rightarrow> u8 list \<Rightarrow> (unit, 'c) netprog" where
  "ssl_write_all L bs = ssl_write L (int (length bs)) bs"

definition ssl_accept :: "'c openssl \<Rightarrow> (int, 'c) netprog" where
  "ssl_accept L = (\<lambda>p. let (v, c') = SSL_accept L (ssl p) in Some (Ret v, p\<lparr>ssl := c'\<rparr>))"

section \<open>The console\<close>

definition cout_fd :: "('c, 'z) proc_scheme \<Rightarrow> int" where
  "cout_fd p = (case cout_buffer p of Stdout_buffer \<Rightarrow> 1 | Log_buffer fd \<Rightarrow> fd)"

text \<open>
  Where a line goes. A daemon closes descriptor 1, and the kernel may give the number to a
  socket: the stream then writes to that socket.
\<close>

definition cout_target :: "('c, 'z) proc_scheme \<Rightarrow> target option" where
  "cout_target p =
     (if cout_fd p < 0 then None
      else if cout_fd p \<in> set (sockets p) then Some (Socket (cout_fd p))
      else case fds p (cout_fd p) of
          None \<Rightarrow> None
        | Some d \<Rightarrow>
            if d_writable d
            then Some (if cout_buffer p = Stdout_buffer then Standard_output else Log_file (d_path d))
            else None)"

text \<open>The state of the stream, without the descriptors.\<close>

definition console :: "('c, 'z) proc_scheme \<Rightarrow> stream_buffer \<times> bool \<times> (target \<times> string) list" where
  "console p = (cout_buffer p, cout_good p, printed p)"

text \<open>The state after a line and \<open>std::endl\<close>, which flushes the buffer.\<close>

definition line_bytes :: "string \<Rightarrow> u8 list" where
  "line_bytes msg = map char_byte (msg @ [CHR 0x0A])"

definition said :: "string \<Rightarrow> ('c, 'z) proc_scheme \<Rightarrow> ('c, 'z) proc_scheme" where
  "said msg p =
     (if cout_good p then
        (case cout_target p of
           None \<Rightarrow> p\<lparr>cout_good := False\<rparr>
         | Some t \<Rightarrow>
             (case t of Socket n \<Rightarrow> p | _ \<Rightarrow> posix_write (cout_fd p) (line_bytes msg) p)
               \<lparr>printed := printed p @ [(t, msg)]\<rparr>)
      else p)"

definition print :: "string \<Rightarrow> (unit, ('c, 'z) proc_scheme) prog" where
  "print msg = modifyp (said msg)"

text \<open>The pattern of most errors: print a message and end the process.\<close>

definition fail :: "string \<Rightarrow> ('a, ('c, 'z) proc_scheme) prog" where
  "fail msg = seqp (print msg) (exitp (-1))"

lemma print_run [prog_simps]: "print msg p = Some (Ret (), said msg p)"
  by (simp add: print_def)

lemma fail_run [prog_simps]: "fail msg p = Some (Exit (-1), said msg p)"
  by (simp add: fail_def prog_simps)

lemma posix_write_fields [simp]:
  fixes p :: "('c, 'z) proc_scheme"
  shows "brk (posix_write fd bs p) = brk p" "indet (posix_write fd bs p) = indet p"
  "can_alloc (posix_write fd bs p) = can_alloc p" "string_limit (posix_write fd bs p) = string_limit p"
  "fd_limit (posix_write fd bs p) = fd_limit p"
  "file_locks (posix_write fd bs p) = file_locks p" "conn_heap (posix_write fd bs p) = conn_heap p"
  "m_connected_slots (posix_write fd bs p) = m_connected_slots p" "m_senders (posix_write fd bs p) = m_senders p"
  "ssl (posix_write fd bs p) = ssl p" "webSocket (posix_write fd bs p) = webSocket p"
  "sockets (posix_write fd bs p) = sockets p" "serverSocket (posix_write fd bs p) = serverSocket p"
  "receivedPacket (posix_write fd bs p) = receivedPacket p" "protocols (posix_write fd bs p) = protocols p"
  "cout_buffer (posix_write fd bs p) = cout_buffer p" "cout_good (posix_write fd bs p) = cout_good p"
  "printed (posix_write fd bs p) = printed p" "proc.more (posix_write fd bs p) = proc.more p"
  by (simp_all add: posix_write_def split: option.split)

lemma said_fields [simp]:
  "brk (said msg p) = brk p" "indet (said msg p) = indet p" "can_alloc (said msg p) = can_alloc p"
  "string_limit (said msg p) = string_limit p" "fd_limit (said msg p) = fd_limit p"
  "file_locks (said msg p) = file_locks p" "conn_heap (said msg p) = conn_heap p"
  "m_connected_slots (said msg p) = m_connected_slots p" "m_senders (said msg p) = m_senders p"
  "ssl (said msg p) = ssl p" "webSocket (said msg p) = webSocket p" "sockets (said msg p) = sockets p"
  "serverSocket (said msg p) = serverSocket p" "receivedPacket (said msg p) = receivedPacket p"
  "protocols (said msg p) = protocols p" "cout_buffer (said msg p) = cout_buffer p"
  "proc.more (said msg p) = proc.more p"
  by (simp_all add: said_def split: option.split target.split)

text \<open>Descriptors stay open, for the same files; only the position of the one behind the stream moves.\<close>

lemma said_fds:
  "fds (said msg p) fd = None \<longleftrightarrow> fds p fd = None"
  "fds (said msg p) fd = Some d' \<Longrightarrow> \<exists>d. fds p fd = Some d \<and> d_path d = d_path d' \<and> d_writable d = d_writable d'"
  by (auto simp: said_def posix_write_def split: option.splits target.splits if_splits)

lemma free_fd_said [simp]: "free_fd (fds (said msg p)) n limit = free_fd (fds p) n limit"
  by (rule free_fd_cong) (rule said_fds)

lemma cout_fd_said [simp]: "cout_fd (said msg p) = cout_fd p"
  by (simp add: cout_fd_def)

lemma cout_target_said [simp]: "cout_target (said msg p) = cout_target p"
proof (cases "fds (said msg p) (cout_fd p)")
  case None
  moreover from None have "fds p (cout_fd p) = None" by (simp only: said_fds(1))
  ultimately show ?thesis by (simp add: cout_target_def)
next
  case (Some d')
  from said_fds(2) [OF this] Some show ?thesis by (auto simp: cout_target_def)
qed

lemma printed_said:
  "cout_good p \<Longrightarrow> cout_target p = Some t \<Longrightarrow> printed (said msg p) = printed p @ [(t, msg)] \<and> cout_good (said msg p)"
  "cout_good p \<Longrightarrow> cout_target p = None \<Longrightarrow> printed (said msg p) = printed p \<and> \<not> cout_good (said msg p)"
  "\<not> cout_good p \<Longrightarrow> said msg p = p"
  by (simp_all add: said_def split: target.split)

text \<open>A file the stream does not write to is not touched.\<close>

definition log_apart :: "('c, 'z) proc_scheme \<Rightarrow> string \<Rightarrow> bool" where
  "log_apart p path \<longleftrightarrow> (\<forall>d. 0 \<le> cout_fd p \<longrightarrow> fds p (cout_fd p) = Some d \<longrightarrow> d_writable d \<longrightarrow> d_path d \<noteq> path)"

lemma log_apart_said [simp]: "log_apart (said msg p) path = log_apart p path"
proof (cases "fds (said msg p) (cout_fd p)")
  case None
  moreover from None have "fds p (cout_fd p) = None" by (simp only: said_fds(1))
  ultimately show ?thesis by (simp add: log_apart_def)
next
  case (Some d')
  from said_fds(2) [OF this] Some show ?thesis by (auto simp: log_apart_def)
qed

lemma files_said: "log_apart p path \<Longrightarrow> files (said msg p) path = files p path"
  by (auto simp: said_def posix_write_def log_apart_def cout_target_def split: option.split target.split)

end
