(* ===== verification/SecNet.thy ===== *)
theory SecNet
  imports Process Protocol
begin

text \<open>
  \<open>src/secnet.cpp\<close>: one connection, handled by one forked process. The state of the process
  is the machine, the signal/slot objects and the fields of the one \<open>SecNet\<close> object (Process);
  the object passes itself to the slots, so the pointer \<open>secnet\<close> that a slot receives is not
  written as an argument.
\<close>

section \<open>sendPacket\<close>

definition answer_header :: "u64 \<Rightarrow> WebSocketFrameHeader" where
  "answer_header len =
     \<lparr>opcode = 2, rsvd = 0, fin = 1,
      payloadLen = (if len < 126 then ucast len else if len < 65535 then 126 else 127),
      maskFlag = 0\<rparr>"

definition write_payload :: "'c openssl \<Rightarrow> u8 list option \<Rightarrow> u64 \<Rightarrow> (unit, 'c) netprog" where
  "write_payload L payload len =
     (let n = int_argument len
      in if n \<le> 0 then ssl_write L n []
         else case payload of
           None \<Rightarrow> undefp Null_pointer
         | Some buf \<Rightarrow>
             if length buf < nat n then undefp Out_of_bounds
             else ssl_write L n (take (nat n) buf))"

definition sendPacket :: "'c openssl \<Rightarrow> Packet \<Rightarrow> u8 list option \<Rightarrow> (unit, 'c) netprog" where
  "sendPacket L packet payload =
     bindp (getp webSocket) (\<lambda>ws.
     seqp
       (if ws then
          (let len = of_nat sizeof_Packet + payloadLength packet;
               header = answer_header len
           in seqp (ssl_write_all L (bytes_of_header header))
                (if payloadLen header = 126 then ssl_write_all L (le_of_word (ucast len :: u16))
                 else if payloadLen header = 127 then ssl_write_all L (le_of_word len)
                 else returnp ()))
        else returnp ())
     (seqp (ssl_write_all L (bytes_of_Packet packet))
     (write_payload L payload (payloadLength packet))))"

section \<open>The signal receivedPacket\<close>

text \<open>
  Calling \<open>Protocol::packetReceived\<close> on a destination object, and emitting the static signal
  with a packet and its payload.
\<close>

definition call_slot ::
  "nat \<Rightarrow> 'c openssl \<Rightarrow> Packet \<Rightarrow> u8 list \<Rightarrow> member_function connection \<Rightarrow> (unit, 'c) netprog" where
  "call_slot BS L packet payload k =
     (case m_pmemfun k of
        Protocol_packetReceived \<Rightarrow>
          bindp (getp (\<lambda>p. protocols p (m_pobject k))) (\<lambda>pr.
          case pr of
            None \<Rightarrow> undefp Dangling_pointer
          | Some st \<Rightarrow>
              packetReceived BS print (isBlockAvailable BS st) (getBlock BS st) (storeBlock BS st)
                (sendPacket L) packet payload))"

definition emit_receivedPacket ::
  "nat \<Rightarrow> 'c openssl \<Rightarrow> Packet \<Rightarrow> u8 list \<Rightarrow> (unit, 'c) netprog" where
  "emit_receivedPacket BS L packet payload =
     bindp (getp receivedPacket) (signal_emit (call_slot BS L packet payload))"

text \<open>The signal is a static object: \<open>exit\<close> runs its destructor.\<close>

definition destroy_receivedPacket :: "(unit, 'c) netprog" where
  "destroy_receivedPacket = bindp (getp receivedPacket) signal_destroy"

section \<open>WebSocket frames\<close>

definition read_payloadLength ::
  "'c openssl \<Rightarrow> WebSocketFrameHeader \<Rightarrow> (u64, 'c) netprog" where
  "read_payloadLength L header =
     (if payloadLen header = 126 then
        bindp (local_bytes 2) (\<lambda>payloadLen16.
        bindp (ssl_read L payloadLen16 2) (\<lambda>bs.
        returnp (ucast (word_of_le bs :: u16))))
      else if payloadLen header = 127 then
        bindp (local_bytes 8) (\<lambda>payloadLen64.
        bindp (ssl_read L payloadLen64 8) (\<lambda>bs.
        returnp (word_of_le bs)))
      else returnp (ucast (payloadLen header)))"

definition handleWebSocketFrame :: "nat \<Rightarrow> 'c openssl \<Rightarrow> (unit, 'c) netprog" where
  "handleWebSocketFrame BS L =
     bindp (ssl_read L (replicate 2 0) 2) (\<lambda>hdr.
     let header = header_of_bytes hdr in
     bindp (read_payloadLength L header) (\<lambda>len.
     bindp (if maskFlag header \<noteq> 0 then ssl_read L (replicate 4 0) 4 else returnp (replicate 4 0)) (\<lambda>maskingKey.
     bindp (new_bytes (unat (len + 1))) (\<lambda>payload.
     if length payload \<le> unat len then undefp Out_of_bounds
     else
       bindp (ssl_read L (payload[unat len := 0]) (int_argument len)) (\<lambda>payload.
       let payload = (if maskFlag header \<noteq> 0 then unmask (unat len) maskingKey payload else payload) in
       if opcode header \<noteq> 2 then fail ''We only support binary packages!''
       else if len < of_nat sizeof_Packet then fail ''WebSocket Payload must contain at least one Shepoo Packet Header''
       else
         let packet = Packet_of_bytes (take sizeof_Packet payload) in
         if len < of_nat sizeof_Packet + payloadLength packet then
           (if fin header = 0 then fail ''Fragmented WebSocket message!''
            else fail ''WebSocket frame truncated but not fragmented!'')
         else emit_receivedPacket BS L packet (drop sizeof_Packet payload))))))"

section \<open>The WebSocket handshake\<close>

definition MaxHeaders :: nat where
  "MaxHeaders = 15"

abbreviation CR :: char where
  "CR \<equiv> CHR 0x0D"

abbreviation LF :: char where
  "LF \<equiv> CHR 0x0A"

text \<open>
  The request is collected in the array \<open>headerLines\<close> of \<open>MaxHeaders\<close> strings; \<open>headers\<close> is
  the index of the line that is being read. Appending a byte to a line throws when the string
  cannot grow. (The strings made of the lines later are no longer than these, or short.) The bytes that were read as a packet header come first.
\<close>

definition append_char :: "string list \<Rightarrow> nat \<Rightarrow> char \<Rightarrow> (string list, 'z machine_scheme) prog" where
  "append_char headerLines headers c = (\<lambda>m.
     if \<not> headers < length headerLines then Some (Undefined Out_of_bounds, m)
     else if string_limit m \<le> length (headerLines ! headers) then Some (Uncaught, m)
     else Some (Ret (headerLines[headers := headerLines ! headers @ [c]]), m))"

fun initial_lines :: "string \<Rightarrow> string list \<Rightarrow> nat \<Rightarrow> (string list \<times> nat, 'z machine_scheme) prog" where
  "initial_lines [] headerLines headers = returnp (headerLines, headers)"
| "initial_lines (c # cs) headerLines headers =
     (if c \<noteq> CR \<and> c \<noteq> LF then
        bindp (append_char headerLines headers c) (\<lambda>headerLines. initial_lines cs headerLines headers)
      else if c = CR then
        (if Suc headers < length headerLines
         then initial_lines cs (headerLines[Suc headers := []]) (Suc headers)
         else undefp Out_of_bounds)
      else initial_lines cs headerLines headers)"

text \<open>
  The rest is read byte by byte up to an empty line. A byte that cannot be read is the
  zero the variable was set to, so on a closed connection the loop goes on until the string
  cannot grow. An empty line ends the loop with \<open>headers--\<close>; \<open>headers\<close> is positive there,
  because line 0 starts with \<open>GET\<close> and a blank.
\<close>

partial_function (option) read_lines ::
  "'c openssl \<Rightarrow> string list \<Rightarrow> nat \<Rightarrow> 'c proc \<Rightarrow> ((string list \<times> nat) outcome \<times> 'c proc) option" where
  "read_lines L headerLines headers p =
     (if headers < MaxHeaders then
        (case ssl_read L [0] 1 p of
           None \<Rightarrow> None
         | Some (Exit n, p') \<Rightarrow> Some (Exit n, p')
         | Some (Uncaught, p') \<Rightarrow> Some (Uncaught, p')
         | Some (Undefined u, p') \<Rightarrow> Some (Undefined u, p')
         | Some (Ret buf, p') \<Rightarrow>
             (let c = byte_char (buf ! 0) in
              if c \<noteq> CR \<and> c \<noteq> LF then
                (if \<not> headers < length headerLines then Some (Undefined Out_of_bounds, p')
                 else if string_limit p' \<le> length (headerLines ! headers) then Some (Uncaught, p')
                 else read_lines L (headerLines[headers := headerLines ! headers @ [c]]) headers p')
              else if c = CR then
                (if \<not> headers < length headerLines then Some (Undefined Out_of_bounds, p')
                 else if headerLines ! headers = [] then Some (Ret (headerLines, headers - 1), p')
                 else if Suc headers < length headerLines
                 then read_lines L (headerLines[Suc headers := []]) (Suc headers) p'
                 else Some (Undefined Out_of_bounds, p'))
              else read_lines L headerLines headers p'))
      else Some (Ret (headerLines, headers), p))"

record handshake =
  hs_protocol :: string
  hs_key :: string
  hs_version :: string

definition headerName :: "string \<Rightarrow> string" where
  "headerName line = takeWhile (\<lambda>c. c \<noteq> CHR '':'') line"

text \<open>The colon and the character after it are skipped.\<close>

definition headerContent :: "string \<Rightarrow> string" where
  "headerContent line = drop (length (headerName line) + 2) line"

definition note_header :: "string \<Rightarrow> handshake \<Rightarrow> handshake" where
  "note_header line hs =
     (if headerName line = ''Sec-WebSocket-Protocol'' then hs\<lparr>hs_protocol := headerContent line\<rparr>
      else if headerName line = ''Sec-WebSocket-Version'' then hs\<lparr>hs_version := headerContent line\<rparr>
      else if headerName line = ''Sec-WebSocket-Key'' then hs\<lparr>hs_key := headerContent line\<rparr>
      else hs)"

definition scan_headers :: "string list \<Rightarrow> nat \<Rightarrow> handshake" where
  "scan_headers headerLines headers =
     fold (\<lambda>i. note_header (headerLines ! i)) [1..<headers]
       \<lparr>hs_protocol = [], hs_key = [], hs_version = []\<rparr>"

definition bytes_of_string :: "string \<Rightarrow> u8 list" where
  "bytes_of_string s = map char_byte s"

definition websocket_guid :: string where
  "websocket_guid = ''258EAFA5-E914-47DA-95CA-C5AB0DC85B11''"

definition acceptKey :: "'c openssl \<Rightarrow> string \<Rightarrow> string" where
  "acceptKey L key = b64_ntop L (SHA1 L (bytes_of_string key @ bytes_of_string websocket_guid)) 29"

definition handshake_answer :: "string \<Rightarrow> string" where
  "handshake_answer accept_key =
     ''HTTP/1.1 101 Switching Protocols'' @ [CR, LF] @
     ''Upgrade: websocket'' @ [CR, LF] @
     ''Connection: Upgrade'' @ [CR, LF] @
     ''Sec-WebSocket-Accept: '' @ accept_key @ [CR, LF] @
     ''Sec-WebSocket-Protocol: shepoo'' @ [CR, LF] @
     [CR, LF]"

definition handleWebSocket :: "nat \<Rightarrow> 'c openssl \<Rightarrow> u8 list \<Rightarrow> (unit, 'c) netprog" where
  "handleWebSocket BS L packet =
     bindp (initial_lines (map byte_char packet) (replicate MaxHeaders []) 0) (\<lambda>(headerLines, headers).
     bindp (read_lines L headerLines headers) (\<lambda>(headerLines, headers).
     let hs = scan_headers headerLines headers in
     if hs_version hs \<noteq> ''13'' then
       fail (''Unsupported WebSocket version. Got: '' @ hs_version hs @ '', but we only support 13'')
     else if hs_protocol hs \<noteq> ''shepoo'' then
       fail (''Unsupported protocol. Got: '' @ hs_protocol hs @ '', but we only support shepoo'')
     else
       seqp (ssl_write_all L (bytes_of_string (handshake_answer (acceptKey L (hs_key hs)))))
       (bindp (local_bytes 3) (\<lambda>tmp.
       seqp (ssl_read L tmp 3)
       (seqp (modifyp (\<lambda>p. p\<lparr>webSocket := True\<rparr>))
       (handleWebSocketFrame BS L))))))"

section \<open>The constructor\<close>

definition MAX_PACKET_PAYLOAD_SIZE :: u64 where
  "MAX_PACKET_PAYLOAD_SIZE = 134217728"

definition sslErrorCallback :: "string \<Rightarrow> (int, ('c, 'z) proc_scheme) prog" where
  "sslErrorCallback message = seqp (print (''SSL: '' @ message)) (returnp 0)"

text \<open>OpenSSL calls the function for the errors it reports.\<close>

fun report_errors :: "string list \<Rightarrow> (unit, ('c, 'z) proc_scheme) prog" where
  "report_errors [] = returnp ()"
| "report_errors (m # ms) = bindp (sslErrorCallback m) (\<lambda>_. report_errors ms)"

definition too_large :: "u64 \<Rightarrow> string" where
  "too_large len = ''Client wanted to send data with payload size '' @ decimal (unat len)
     @ '' but we only handle a maximum of '' @ decimal (unat MAX_PACKET_PAYLOAD_SIZE) @ ''.''"

definition SecNet_new :: "nat \<Rightarrow> 'c openssl \<Rightarrow> (unit, 'c) netprog" where
  "SecNet_new BS L =
     seqp (modifyp (\<lambda>p. p\<lparr>sockets := removeAll (serverSocket p) (sockets p)\<rparr>))
     (if SSL_new_fails L then fail ''Could not create new SSL connection!''
      else
        bindp (ssl_accept L) (\<lambda>status.
        if status \<noteq> 1 then
          seqp (print ''SSL Handshake failed!'')
          (bindp (getp ssl) (\<lambda>c.
          seqp (report_errors (ERR_reported L c))
          (exitp (-1))))
        else
          bindp (ssl_read L (replicate sizeof_Packet 0) (int sizeof_Packet)) (\<lambda>bytes.
          if starts_with_GET bytes then handleWebSocket BS L bytes
          else
            let packet = Packet_of_bytes bytes in
            if payloadLength packet > MAX_PACKET_PAYLOAD_SIZE then fail (too_large (payloadLength packet))
            else
              bindp (new_bytes (unat (payloadLength packet))) (\<lambda>payload.
              bindp (ssl_read L payload (int_argument (payloadLength packet))) (\<lambda>payload.
              emit_receivedPacket BS L packet payload)))))"

text \<open>
  The destructor of the object for the client at a socket. It closes the connection and ends the
  process; the child of \<open>ListenLoop\<close> never gets there, because \<open>exit\<close> does not destroy its locals.
\<close>

definition SecNet_destroy :: "'c openssl \<Rightarrow> int \<Rightarrow> (unit, 'c) netprog" where
  "SecNet_destroy L socket =
     seqp (modifyp (\<lambda>p. p\<lparr>ssl := SSL_shutdown L (ssl p)\<rparr>))
     (seqp (modifyp (\<lambda>p. p\<lparr>sockets := removeAll socket (sockets p)\<rparr>))
     (seqp (modifyp (\<lambda>p. p\<lparr>ssl := SSL_free L (ssl p)\<rparr>))
     (exitp 0)))"

lemma SecNet_destroy_ends:
  "SecNet_destroy L socket p = Some (Exit 0, p\<lparr>ssl := SSL_free L (SSL_shutdown L (ssl p)),
     sockets := removeAll socket (sockets p)\<rparr>)"
  by (simp add: SecNet_destroy_def prog_simps)

text \<open>What the child process of \<open>ListenLoop\<close> runs.\<close>

definition serve_client :: "nat \<Rightarrow> 'c openssl \<Rightarrow> (unit, 'c) netprog" where
  "serve_client BS L = seqp (SecNet_new BS L) (exitp (-1))"

end
