(* ===== verification/SecNet_Delivery.thy ===== *)
theory SecNet_Delivery
  imports SecNet
begin

text \<open>
  From a packet that has arrived to the bytes the server writes: the signal calls the one
  protocol object that \<open>main\<close> connected, and the object's answer goes out through
  \<open>sendPacket\<close>.
\<close>

section \<open>The handler leaves the signals alone\<close>

definition links :: "('f, 'z) world_scheme \<Rightarrow> _" where
  "links w = (m_connected_slots w, conn_heap w, m_senders w)"

lemma preserves_links_machine [preserves_intros]:
  "preserves links (local_bytes n :: (_, ('f, 'z) world_scheme) prog)"
  "preserves links (new_bytes n :: (_, ('f, 'z) world_scheme) prog)"
  "preserves links (posix_open_rdonly path :: (_, ('f, 'z) world_scheme) prog)"
  "preserves links (posix_lseek fd off :: (_, ('f, 'z) world_scheme) prog)"
  "preserves links (posix_lockf fd cmd len :: (_, ('f, 'z) world_scheme) prog)"
  "preserves links (posix_read fd n :: (_, ('f, 'z) world_scheme) prog)"
  "preserves links (posix_close fd :: (_, ('f, 'z) world_scheme) prog)"
  by (auto simp: preserves_def links_def local_bytes_def new_bytes_def posix_open_rdonly_def
      posix_lseek_def posix_lockf_def posix_read_def posix_close_def Let_def
      split: if_splits option.splits lock_command.splits)

lemma preserves_links_ssl [preserves_intros]:
  "preserves links (ssl_read L buf n)"
  "preserves links (ssl_write L n bs)"
  "preserves links (ssl_write_all L bs)"
  by (auto simp: preserves_def links_def ssl_read_def ssl_write_def ssl_write_all_def
      split: if_splits prod.splits)

lemma preserves_links_print [preserves_intros]: "preserves links (print msg)"
  by (simp add: preserves_def print_def links_def)

lemma preserves_links_getBlock [preserves_intros]:
  "preserves links (getBlock BS st num :: (_, ('f, 'z) world_scheme) prog)"
  unfolding getBlock_def by (intro preserves_intros)

lemma preserves_links_storeBlock [preserves_intros]:
  "preserves links (storeBlock BS st num bytes :: (_, ('f, 'z) world_scheme) prog)"
  unfolding storeBlock_def by (intro preserves_intros)

lemma preserves_links_extract [preserves_intros]:
  "preserves f (extractUint64FromPayload payload)"
  unfolding extractUint64FromPayload_def by (intro preserves_intros)

lemma preserves_links_sendPacket [preserves_intros]: "preserves links (sendPacket L packet payload)"
  unfolding sendPacket_def write_payload_def by (intro preserves_intros)

lemma preserves_packetReceived [preserves_intros]:
  assumes "\<And>msg. preserves f (out msg)" and "\<And>n. preserves f (get n)" and "\<And>n bs. preserves f (store n bs)"
    and "\<And>q d. preserves f (send q d)"
  shows "preserves f (packetReceived BS out avail get store send packet payload)"
  unfolding packetReceived_def by (intro preserves_intros assms)

lemma preserves_call_slot: "preserves links (call_slot BS L packet payload k)"
  unfolding call_slot_def by (cases "m_pmemfun k") (simp, intro preserves_intros)

interpretation received: quiet_slots "call_slot BS L packet payload" s for BS L packet payload s
proof
  fix k u w w'
  assume "call_slot BS L packet payload k w = Some (Ret u, w')"
  from preservesD [OF preserves_call_slot this]
  show "m_connected_slots w' s = m_connected_slots w s \<and> conn_heap w' = conn_heap w
     \<and> m_senders w' = m_senders w"
    by (simp add: links_def)
qed

section \<open>Delivery\<close>

text \<open>The process as \<open>main\<close> sets it up: one protocol object, connected once.\<close>

definition wired :: "('c, 'z) proc_scheme \<Rightarrow> Blockstorage \<Rightarrow> bool" where
  "wired p st \<longleftrightarrow> consistent p \<and>
     (\<exists>c k. m_connected_slots p (receivedPacket p) = Some [c] \<and> conn_heap p c = Some k
        \<and> protocols p (m_pobject k) = Some st)"

lemma emit_wired:
  assumes "wired p st"
  shows "emit_receivedPacket BS L packet payload p
     = packetReceived BS print (isBlockAvailable BS st) (getBlock BS st) (storeBlock BS st)
         (sendPacket L) packet payload p"
proof -
  from assms obtain c k where con: "consistent p"
    and c: "m_connected_slots p (receivedPacket p) = Some [c]" "conn_heap p c = Some k"
    and st: "protocols p (m_pobject k) = Some st"
    by (auto simp: wired_def)
  have "emit_receivedPacket BS L packet payload p = call_slot BS L packet payload k p"
    using received.emit_runs_slots [OF con c(1)] c(2)
    by (simp add: emit_receivedPacket_def prog_simps connections_at_def seqp_unit)
  also have "\<dots> = packetReceived BS print (isBlockAvailable BS st) (getBlock BS st) (storeBlock BS st)
         (sendPacket L) packet payload p"
    using st by (cases "m_pmemfun k") (simp add: call_slot_def prog_simps)
  finally show ?thesis .
qed

end
