(* ===== verification/SecNet_Requests.thy ===== *)
theory SecNet_Requests
  imports SecNet_Delivery
begin

text \<open>
  A connection from its first byte to its last, over the documented behaviour of OpenSSL:
  what \<open>sendPacket\<close> writes, and what a client that sends one packet gets back.
\<close>

section \<open>What arrives\<close>

text \<open>
  \<open>arrives rs chunks rs'\<close>: with the records \<open>rs\<close> still to be read, successive reads of the
  lengths of the chunks give exactly the chunks, and leave \<open>rs'\<close>.
\<close>

fun arrives :: "u8 list list \<Rightarrow> u8 list list \<Rightarrow> u8 list list \<Rightarrow> bool" where
  "arrives rs [] rs' \<longleftrightarrow> rs = rs'"
| "arrives rs (b # bs) rs' \<longleftrightarrow>
     fst (tls_take (length b) rs) = b \<and> arrives (snd (tls_take (length b) rs)) bs rs'"

text \<open>
  A peer that flushes after every field sends one record each; one that does not puts all
  of them in one record.
\<close>

lemma arrives_records: "[] \<notin> set chunks \<Longrightarrow> arrives (chunks @ rs) chunks rs"
  by (induction chunks) auto

lemma arrives_one_record:
  assumes "[] \<notin> set chunks" and "rest \<noteq> []"
  shows "arrives ((concat chunks @ rest) # rs) chunks (rest # rs)"
  using assms by (induction chunks) auto

lemma arrives_append:
  "arrives rs (as @ bs) rs' \<longleftrightarrow> (\<exists>rs''. arrives rs as rs'' \<and> arrives rs'' bs rs')"
  by (induction as arbitrary: rs) auto

section \<open>Calls of the library on the state of the process\<close>

lemma ssl_write_run [prog_simps]:
  "ssl_write L n bs p = Some (Ret (), p\<lparr>ssl := SSL_write L (ssl p) n bs\<rparr>)"
  by (simp add: ssl_write_def)

lemma ssl_write_all_run [prog_simps]:
  "ssl_write_all L bs p = Some (Ret (), p\<lparr>ssl := SSL_write L (ssl p) (int (length bs)) bs\<rparr>)"
  by (simp add: ssl_write_all_def ssl_write_run)

definition read_from :: "'c openssl \<Rightarrow> int \<Rightarrow> 'c proc \<Rightarrow> 'c proc" where
  "read_from L n p = p\<lparr>ssl := snd (SSL_read L (ssl p) n)\<rparr>"

lemma read_from_fields [simp]:
  "ssl (read_from L n p) = snd (SSL_read L (ssl p) n)"
  "brk (read_from L n p) = brk p" "indet (read_from L n p) = indet p"
  "can_alloc (read_from L n p) = can_alloc p" "string_limit (read_from L n p) = string_limit p" "files (read_from L n p) = files p"
  "fds (read_from L n p) = fds p" "fd_limit (read_from L n p) = fd_limit p"
  "file_locks (read_from L n p) = file_locks p" "links (read_from L n p) = links p"
  "webSocket (read_from L n p) = webSocket p" "receivedPacket (read_from L n p) = receivedPacket p"
  "protocols (read_from L n p) = protocols p"
  "cout_buffer (read_from L n p) = cout_buffer p" "cout_good (read_from L n p) = cout_good p" "printed (read_from L n p) = printed p"
  "serverSocket (read_from L n p) = serverSocket p" "sockets (read_from L n p) = sockets p"
  by (simp_all add: read_from_def links_def)

lemma ssl_read_run:
  assumes "openssl_behaves L pending sent" and "0 \<le> n" and "nat n \<le> length buf"
  shows "ssl_read L buf n p
     = Some (Ret (overwrite buf (fst (tls_take (nat n) (pending (ssl p))))), read_from L n p)"
proof -
  from openssl_readD [OF assms(1), of "ssl p" n] obtain c' where
    "SSL_read L (ssl p) n = (fst (tls_take (nat n) (pending (ssl p))), c')" by blast
  moreover have "length (fst (tls_take (nat n) (pending (ssl p)))) \<le> length buf"
    using length_tls_take [of "nat n" "pending (ssl p)"] assms(3) by simp
  ultimately show ?thesis by (simp add: ssl_read_def read_from_def)
qed

lemma read_from_openssl:
  assumes "openssl_behaves L pending sent"
  shows "pending (snd (SSL_read L c n)) = snd (tls_take (nat n) (pending c))"
    and "sent (snd (SSL_read L c n)) = sent c"
  using assms unfolding openssl_behaves_def by blast+

text \<open>The read of a chunk that arrives.\<close>

lemma ssl_read_chunk:
  assumes "openssl_behaves L pending sent" and "arrives (pending (ssl p)) (b # bs) rs"
    and "length b = length buf"
  shows "ssl_read L buf (int (length buf)) p = Some (Ret b, read_from L (int (length buf)) p)"
    and "arrives (pending (snd (SSL_read L (ssl p) (int (length buf))))) bs rs"
  using assms by (simp_all add: ssl_read_run overwrite_full read_from_openssl [OF assms(1)])

section \<open>sendPacket\<close>

definition frame_prefix :: "u64 \<Rightarrow> u8 list" where
  "frame_prefix len = bytes_of_header (answer_header len) @
     (if payloadLen (answer_header len) = 126 then le_of_word (ucast len :: u16)
      else if payloadLen (answer_header len) = 127 then le_of_word len else [])"

definition wire_bytes :: "bool \<Rightarrow> Packet \<Rightarrow> u8 list \<Rightarrow> u8 list" where
  "wire_bytes ws packet bs =
     (if ws then frame_prefix (of_nat sizeof_Packet + payloadLength packet) else [])
     @ bytes_of_Packet packet @ bs"

definition sent_more :: "('c \<Rightarrow> u8 list list) \<Rightarrow> ('c \<Rightarrow> u8 list) \<Rightarrow> u8 list \<Rightarrow> 'c \<Rightarrow> 'c \<Rightarrow> bool" where
  "sent_more pending sent bs c c' \<longleftrightarrow> pending c' = pending c \<and> sent c' = sent c @ bs"

lemma sent_more_write:
  "openssl_behaves L pending sent \<Longrightarrow> sent_more pending sent bs c (SSL_write L c n bs)"
  by (simp add: sent_more_def openssl_writeD)

lemma sent_more_trans:
  "sent_more pending sent as c c' \<Longrightarrow> sent_more pending sent bs c' c'' \<Longrightarrow>
     sent_more pending sent (as @ bs) c c''"
  by (simp add: sent_more_def)

lemma int_argument_small:
  assumes "unat w < 2 ^ 31"
  shows "int_argument w = uint w"
proof -
  have "int (unat w) < int (2 ^ 31)" using assms by (simp only: of_nat_less_iff)
  then have "uint w < 2 ^ 31" by simp
  then have "uint (ucast w :: u32) = uint w"
    by (simp add: unsigned_ucast_eq take_bit_int_eq_self)
  then have "sint (ucast w :: u32) = signed_take_bit 31 (uint w)" by (simp add: sint_uint)
  also have "\<dots> = uint w"
    using \<open>uint w < 2 ^ 31\<close> by (intro signed_take_bit_int_eq_self) (auto intro: order_trans [OF _ uint_ge_0])
  finally show ?thesis by (simp add: int_argument_def)
qed

definition payload_matches :: "Packet \<Rightarrow> u8 list option \<Rightarrow> bool" where
  "payload_matches packet d \<longleftrightarrow> unat (payloadLength packet) < 2 ^ 31 \<and>
     (case d of None \<Rightarrow> payloadLength packet = 0 | Some bs \<Rightarrow> length bs = unat (payloadLength packet))"

definition data_of :: "u8 list option \<Rightarrow> u8 list" where
  "data_of d = (case d of None \<Rightarrow> [] | Some bs \<Rightarrow> bs)"

lemma write_payload_run:
  assumes "payload_matches packet d"
  shows "write_payload L d (payloadLength packet) p
     = Some (Ret (), p\<lparr>ssl := SSL_write L (ssl p) (int (length (data_of d))) (data_of d)\<rparr>)"
proof (cases "payloadLength packet = 0")
  case True
  with assms show ?thesis
    by (cases d) (simp_all add: write_payload_def payload_matches_def data_of_def int_argument_small ssl_write_run)
next
  case False
  with assms obtain bs where bs: "d = Some bs" "length bs = unat (payloadLength packet)"
      "unat (payloadLength packet) < 2 ^ 31"
    by (cases d) (simp_all add: payload_matches_def)
  from False have pos: "\<not> uint (payloadLength packet) \<le> 0" by (simp add: uint_0_iff)
  have nat: "nat (uint (payloadLength packet)) = length bs" using bs(2) by simp
  have "int (length bs) = uint (payloadLength packet)" by (simp add: bs(2))
  then show ?thesis
    using pos nat bs(1)
    by (simp add: write_payload_def int_argument_small [OF bs(3)] data_of_def ssl_write_run)
qed

text \<open>The part of \<open>sendPacket\<close> that a WebSocket puts in front, as a program of its own.\<close>

definition send_prefix :: "'c openssl \<Rightarrow> bool \<Rightarrow> u64 \<Rightarrow> (unit, 'c) netprog" where
  "send_prefix L ws len =
     (if ws then
        seqp (ssl_write_all L (bytes_of_header (answer_header len)))
          (if payloadLen (answer_header len) = 126 then ssl_write_all L (le_of_word (ucast len :: u16))
           else if payloadLen (answer_header len) = 127 then ssl_write_all L (le_of_word len)
           else returnp ())
      else returnp ())"

lemma sendPacket_eq:
  "sendPacket L packet d p =
     seqp (send_prefix L (webSocket p) (of_nat sizeof_Packet + payloadLength packet))
       (seqp (ssl_write_all L (bytes_of_Packet packet)) (write_payload L d (payloadLength packet))) p"
  by (simp only: sendPacket_def send_prefix_def bindp_run(1) [OF getp_run] Let_def)

lemma send_prefix_run:
  assumes L: "openssl_behaves L pending sent"
  shows "\<exists>c'. send_prefix L ws len p = Some (Ret (), p\<lparr>ssl := c'\<rparr>)
     \<and> sent_more pending sent (if ws then frame_prefix len else []) (ssl p) c'"
proof -
  consider "\<not> ws" | "ws" "payloadLen (answer_header len) = 126"
    | "ws" "payloadLen (answer_header len) = 127"
    | "ws" "payloadLen (answer_header len) \<noteq> 126" "payloadLen (answer_header len) \<noteq> 127" by blast
  then show ?thesis
  proof cases
    case 1
    then show ?thesis by (intro exI [of _ "ssl p"]) (simp add: send_prefix_def sent_more_def)
  qed (auto simp: send_prefix_def frame_prefix_def prog_simps sent_more_def openssl_writeD [OF L])
qed

lemma sendPacket_start:
  assumes L: "openssl_behaves L pending sent"
  shows "\<exists>c'. sendPacket L packet d p
      = write_payload L d (payloadLength packet) (p\<lparr>ssl := c'\<rparr>)
     \<and> sent_more pending sent (wire_bytes (webSocket p) packet []) (ssl p) c'"
proof -
  from send_prefix_run [OF L, of "webSocket p" "of_nat sizeof_Packet + payloadLength packet" p]
  obtain c' where c': "send_prefix L (webSocket p) (of_nat sizeof_Packet + payloadLength packet) p
      = Some (Ret (), p\<lparr>ssl := c'\<rparr>)"
    "sent_more pending sent (if webSocket p then frame_prefix (of_nat sizeof_Packet + payloadLength packet) else [])
       (ssl p) c'" by blast
  have "sent_more pending sent (wire_bytes (webSocket p) packet []) (ssl p)
      (SSL_write L c' (int (length (bytes_of_Packet packet))) (bytes_of_Packet packet))"
    unfolding wire_bytes_def append_Nil2 by (rule sent_more_trans [OF c'(2) sent_more_write [OF L]])
  with c'(1) show ?thesis
    by (intro exI conjI) (auto simp: sendPacket_eq prog_simps)
qed

lemma wire_bytes_data: "wire_bytes ws packet bs = wire_bytes ws packet [] @ bs"
  by (simp add: wire_bytes_def)

lemma sendPacket_run:
  assumes L: "openssl_behaves L pending sent" and d: "payload_matches packet d"
  shows "\<exists>c'. sendPacket L packet d p = Some (Ret (), p\<lparr>ssl := c'\<rparr>)
     \<and> sent_more pending sent (wire_bytes (webSocket p) packet (data_of d)) (ssl p) c'"
proof -
  from sendPacket_start [OF L] obtain c' where
    "sendPacket L packet d p = write_payload L d (payloadLength packet) (p\<lparr>ssl := c'\<rparr>)"
    and c': "sent_more pending sent (wire_bytes (webSocket p) packet []) (ssl p) c'" by blast
  moreover have "sent_more pending sent (wire_bytes (webSocket p) packet [] @ data_of d) (ssl p)
      (SSL_write L c' (int (length (data_of d))) (data_of d))"
    by (rule sent_more_trans [OF c' sent_more_write [OF L]])
  ultimately show ?thesis
    by (subst wire_bytes_data) (auto simp: write_payload_run [OF d])
qed

text \<open>A packet that announces data and comes with the null pointer.\<close>

lemma sendPacket_null:
  assumes L: "openssl_behaves L pending sent"
    and len: "payloadLength packet \<noteq> 0" "unat (payloadLength packet) < 2 ^ 31"
  shows "\<exists>c'. sendPacket L packet None p = Some (Undefined Null_pointer, p\<lparr>ssl := c'\<rparr>)
     \<and> sent_more pending sent (wire_bytes (webSocket p) packet []) (ssl p) c'"
proof -
  have "write_payload L None (payloadLength packet) q = Some (Undefined Null_pointer, q)" for q
    using len by (simp add: write_payload_def int_argument_small uint_0_iff)
  then show ?thesis using sendPacket_start [OF L, of packet None p] by simp
qed

section \<open>A request and its answer\<close>

text \<open>The blocks of the file as the server sees them, and the bytes of its answer.\<close>

definition blocks_of :: "nat \<Rightarrow> Blockstorage \<Rightarrow> u8 list \<Rightarrow> u64 \<rightharpoonup> u8 list" where
  "blocks_of BS st content n =
     (if isBlockAvailable BS st n then Some (block_at BS content n) else None)"

definition answer_bytes :: "nat \<Rightarrow> (u64 \<rightharpoonup> u8 list) \<Rightarrow> bool \<Rightarrow> request \<Rightarrow> u8 list" where
  "answer_bytes BS blocks ws r =
     (case reply BS blocks r of None \<Rightarrow> [] | Some (q, d) \<Rightarrow> wire_bytes ws q (data_of d))"

definition answerable :: "(u64 \<rightharpoonup> u8 list) \<Rightarrow> request \<Rightarrow> bool" where
  "answerable blocks r = (case r of Read_block n \<Rightarrow> blocks n \<noteq> None | _ \<Rightarrow> True)"

lemma length_blocks_of:
  "serves p BS st content \<Longrightarrow> blocks_of BS st content n = Some bs \<Longrightarrow> length bs = BS"
  by (auto simp: blocks_of_def serves_def isBlockAvailable_offset length_block_at split: if_splits)

lemma reply_matches:
  assumes "serves p BS st content" and "BS < 2 ^ 31" and "answerable (blocks_of BS st content) r"
    and "reply BS (blocks_of BS st content) r = Some (q, d)"
  shows "payload_matches q d"
proof -
  have "unat (of_nat BS :: u64) = BS" using assms(2) by (simp add: unat_of_nat)
  with assms show ?thesis
    by (cases r) (auto simp: payload_matches_def answerable_def dest: length_blocks_of)
qed

lemma handler_on_file:
  assumes "serves p BS st content" and "request_ok BS r"
  shows "packetReceived BS out (isBlockAvailable BS st) (getBlock BS st) (storeBlock BS st) send
      (request_packet r) (request_payload r @ rest) p =
    (case reply BS (blocks_of BS st content) r of
       None \<Rightarrow> Some (Ret (), p)
     | Some (q, d) \<Rightarrow> send q d (reply_state (blocks_of BS st content) (\<lambda>m. m\<lparr>brk := Suc (brk m)\<rparr>) r p))"
  unfolding blocks_of_def by (rule file_blocks.handler_replies [OF assms])

lemma reply_state_fields [simp]:
  "ssl (reply_state blocks (\<lambda>m. m\<lparr>brk := Suc (brk m)\<rparr>) r p) = ssl p"
  "webSocket (reply_state blocks (\<lambda>m. m\<lparr>brk := Suc (brk m)\<rparr>) r p) = webSocket p"
  by (cases r; simp)+

lemma request_answered:
  assumes L: "openssl_behaves L pending sent" and "wired p st" and serves: "serves p BS st content"
    and ok: "request_ok BS r" and "BS < 2 ^ 31" and "answerable (blocks_of BS st content) r"
  shows "\<exists>p'. emit_receivedPacket BS L (request_packet r) (request_payload r @ rest) p = Some (Ret (), p')
     \<and> sent_more pending sent (answer_bytes BS (blocks_of BS st content) (webSocket p) r) (ssl p) (ssl p')"
proof (cases "reply BS (blocks_of BS st content) r")
  case None
  then show ?thesis
    by (simp add: emit_wired [OF assms(2)] handler_on_file [OF serves ok] answer_bytes_def sent_more_def)
next
  case (Some qd)
  then obtain q d where qd: "reply BS (blocks_of BS st content) r = Some (q, d)" by (cases qd) auto
  from sendPacket_run [OF L reply_matches [OF serves assms(5,6) qd],
      of "reply_state (blocks_of BS st content) (\<lambda>m. m\<lparr>brk := Suc (brk m)\<rparr>) r p"]
  show ?thesis
    by (auto simp: emit_wired [OF assms(2)] handler_on_file [OF serves ok] answer_bytes_def qd)
qed

lemma unavailable_read:
  assumes L: "openssl_behaves L pending sent" and "wired p st" and serves: "serves p BS st content"
    and BS: "0 < BS" "BS < 2 ^ 31" and none: "blocks_of BS st content n = None"
  shows "\<exists>p'. emit_receivedPacket BS L (request_packet (Read_block n)) (be_of_word n @ rest) p
        = Some (Undefined Null_pointer, p')
     \<and> sent_more pending sent (wire_bytes (webSocket p) \<lparr>version = 1, command = 5, payloadLength = of_nat BS\<rparr> [])
         (ssl p) (ssl p')"
proof -
  have unat: "unat (of_nat BS :: u64) = BS" using BS by (simp add: unat_of_nat)
  then have "(of_nat BS :: u64) \<noteq> 0" using BS by auto
  with unat BS sendPacket_null [OF L, of "\<lparr>version = 1, command = 5, payloadLength = of_nat BS\<rparr>" p]
  show ?thesis
    using handler_on_file [OF serves, where r = "Read_block n" and rest = rest and send = "sendPacket L"] none
    by (auto simp: emit_wired [OF assms(2)])
qed

section \<open>A client without WebSocket\<close>

text \<open>What the reads and allocations before the handler do not change.\<close>

lemma consistent_mono:
  assumes "consistent p" and "links q = links p" and "brk p \<le> brk q"
  shows "consistent q"
proof -
  have same: "m_connected_slots q = m_connected_slots p" "m_senders q = m_senders p"
      "slot_of q = slot_of p" "dest_of q = dest_of p" "connected q = connected p"
    using assms(2) by (simp_all add: links_def slot_of_def dest_of_def connected_def fun_eq_iff)
  have "no_leaks q" if "no_leaks p"
    using that assms(3) unfolding no_leaks_def same by (meson less_le_trans)
  moreover have "addresses_used q" if "addresses_used p"
    using that assms(3) unfolding addresses_used_def same by (meson less_le_trans)
  ultimately show ?thesis
    using assms(1) unfolding consistent_def slots_allocated_def slots_disjoint_def links_agree_def same
    by blast
qed

lemma wired_mono:
  fixes p :: "('c, 'z) proc_scheme" and q :: "('c, 'y) proc_scheme"
  assumes "wired p st" and "links q = links p" and "receivedPacket q = receivedPacket p"
    and "protocols q = protocols p" and "brk p \<le> brk q"
  shows "wired q st"
proof -
  have "consistent q" by (rule consistent_mono [of p]) (use assms in \<open>auto simp: wired_def\<close>)
  with assms show ?thesis by (simp add: wired_def links_def)
qed

lemma serves_cong:
  fixes p :: "'z machine_scheme" and q :: "'y machine_scheme"
  shows "serves p BS st content \<Longrightarrow> files q (bs_path st) = files p (bs_path st) \<Longrightarrow> can_alloc q = can_alloc p \<Longrightarrow>
     file_locks q = file_locks p \<Longrightarrow> free_fd (fds q) 0 (fd_limit q) = free_fd (fds p) 0 (fd_limit p) \<Longrightarrow>
     serves q BS st content"
  by (simp add: serves_def)

text \<open>The state in which the handler runs, after \<open>reads\<close> and one allocation for the payload.\<close>

definition accepts :: "'c openssl \<Rightarrow> 'c proc \<Rightarrow> bool" where
  "accepts L p \<longleftrightarrow> \<not> SSL_new_fails L \<and> fst (SSL_accept L (ssl p)) = 1"

definition accepted :: "'c openssl \<Rightarrow> 'c proc \<Rightarrow> 'c proc" where
  "accepted L p = p\<lparr>sockets := removeAll (serverSocket p) (sockets p), ssl := snd (SSL_accept L (ssl p))\<rparr>"

lemma accepted_fields [simp]:
  "ssl (accepted L p) = snd (SSL_accept L (ssl p))"
  "brk (accepted L p) = brk p" "can_alloc (accepted L p) = can_alloc p" "string_limit (accepted L p) = string_limit p"
  "files (accepted L p) = files p"
  "fds (accepted L p) = fds p" "fd_limit (accepted L p) = fd_limit p"
  "file_locks (accepted L p) = file_locks p" "links (accepted L p) = links p"
  "webSocket (accepted L p) = webSocket p" "receivedPacket (accepted L p) = receivedPacket p"
  "protocols (accepted L p) = protocols p"
  "cout_buffer (accepted L p) = cout_buffer p" "cout_good (accepted L p) = cout_good p" "printed (accepted L p) = printed p"
  "serverSocket (accepted L p) = serverSocket p"
  by (simp_all add: accepted_def links_def)

lemma openssl_accepted:
  assumes "openssl_behaves L pending sent"
  shows "pending (snd (SSL_accept L c)) = pending c" and "sent (snd (SSL_accept L c)) = sent c"
  using assms unfolding openssl_behaves_def by blast+

lemma SecNet_new_run:
  assumes "accepts L p"
  shows "SecNet_new BS L p =
    bindp (ssl_read L (replicate sizeof_Packet 0) (int sizeof_Packet)) (\<lambda>bytes.
      if starts_with_GET bytes then handleWebSocket BS L bytes
      else
        let packet = Packet_of_bytes bytes in
        if payloadLength packet > MAX_PACKET_PAYLOAD_SIZE then fail (too_large (payloadLength packet))
        else
          bindp (new_bytes (unat (payloadLength packet))) (\<lambda>payload.
          bindp (ssl_read L payload (int_argument (payloadLength packet))) (\<lambda>payload.
          emit_receivedPacket BS L packet payload))) (accepted L p)"
proof -
  have acc: "ssl_accept L (p\<lparr>sockets := removeAll (serverSocket p) (sockets p)\<rparr>) = Some (Ret 1, accepted L p)"
    using assms by (cases "SSL_accept L (ssl p)") (simp add: ssl_accept_def accepts_def accepted_def)
  show ?thesis
    using assms unfolding SecNet_new_def accepts_def
    by (simp add: seqp_run(1) [OF modifyp_run] bindp_run(1) [where m = "ssl_accept L", OF acc])
qed

text \<open>Only the connection and the allocator have moved on.\<close>

definition same_server :: "'c proc \<Rightarrow> 'c proc \<Rightarrow> bool" where
  "same_server p q \<longleftrightarrow> links q = links p \<and> receivedPacket q = receivedPacket p \<and> protocols q = protocols p
     \<and> files q = files p \<and> can_alloc q = can_alloc p \<and> string_limit q = string_limit p \<and> file_locks q = file_locks p \<and> fds q = fds p
     \<and> fd_limit q = fd_limit p \<and> brk p \<le> brk q \<and> serverSocket q = serverSocket p
     \<and> set (sockets q) - {serverSocket p} = set (sockets p) - {serverSocket p}
     \<and> cout_buffer q = cout_buffer p \<and> cout_good q = cout_good p \<and> printed q = printed p"

text \<open>So a line goes to the same place, unless the listening socket has the descriptor of the stream.\<close>

lemma same_server_target:
  assumes same: "same_server p q" and apart: "serverSocket p \<noteq> cout_fd p"
  shows "cout_target q = cout_target p"
proof -
  have "cout_fd p \<in> set (sockets q) \<longleftrightarrow> cout_fd p \<in> set (sockets p)"
    using same apart unfolding same_server_def by (metis Diff_iff empty_iff insert_iff)
  moreover from same have "cout_fd q = cout_fd p" by (simp add: same_server_def cout_fd_def)
  ultimately show ?thesis using same by (simp add: cout_target_def same_server_def split: option.split)
qed

lemma same_server_trans: "same_server p q \<Longrightarrow> same_server q r \<Longrightarrow> same_server p r"
  by (simp add: same_server_def)

lemma same_server_wired: "same_server p q \<Longrightarrow> wired p st \<Longrightarrow> wired q st"
  by (rule wired_mono) (auto simp: same_server_def)

lemma same_server_serves: "same_server p q \<Longrightarrow> serves p BS st content \<Longrightarrow> serves q BS st content"
  by (rule serves_cong) (simp_all add: same_server_def)

lemma same_server_steps:
  "same_server p (read_from L n p)" "same_server p (accepted L p)" "same_server p (p\<lparr>brk := Suc (brk p)\<rparr>)"
  "same_server p (p\<lparr>ssl := c\<rparr>)" "same_server p (p\<lparr>webSocket := b\<rparr>)"
  by (simp_all add: same_server_def) (auto simp: links_def accepted_def)

lemma request_served:
  assumes "same_server p p1" and "openssl_behaves L pending sent" and "wired p st"
    and "serves p BS st content" and "request_ok BS r" and "BS < 2 ^ 31"
    and "answerable (blocks_of BS st content) r"
  shows "\<exists>p'. emit_receivedPacket BS L (request_packet r) (request_payload r @ rest) p1 = Some (Ret (), p')
     \<and> sent_more pending sent (answer_bytes BS (blocks_of BS st content) (webSocket p1) r) (ssl p1) (ssl p')"
  by (rule request_answered) (use assms same_server_wired same_server_serves in blast)+

lemma raw_packet_delivered:
  assumes L: "openssl_behaves L pending sent" and acc: "accepts L p"
    and "arrives (pending (ssl p)) [bytes_of_Packet q, payload] rs"
    and len: "length payload = unat (payloadLength q)" and max: "payloadLength q \<le> MAX_PACKET_PAYLOAD_SIZE"
    and get: "\<not> starts_with_GET (bytes_of_Packet q)" and alloc: "can_alloc p (length payload)"
  shows "\<exists>p1. SecNet_new BS L p = emit_receivedPacket BS L q payload p1 \<and> same_server p p1
     \<and> webSocket p1 = webSocket p \<and> pending (ssl p1) = rs \<and> sent (ssl p1) = sent (ssl p)"
proof -
  let ?a = "accepted L p"
  let ?b = "read_from L (int sizeof_Packet) ?a"
  let ?c = "?b\<lparr>brk := Suc (brk ?b)\<rparr>"
  let ?d = "read_from L (int (length payload)) ?c"
  have small: "unat (payloadLength q) < 2 ^ 31"
    using max by (simp add: MAX_PACKET_PAYLOAD_SIZE_def word_le_nat_alt)
  have arr: "arrives (pending (ssl ?a)) [bytes_of_Packet q, payload] rs"
    using assms(3) by (simp add: openssl_accepted [OF L])
  have header: "ssl_read L (replicate sizeof_Packet 0) (int sizeof_Packet) ?a = Some (Ret (bytes_of_Packet q), ?b)"
    using ssl_read_chunk(1) [OF L arr, of "replicate sizeof_Packet 0"]
    by (simp add: packet.length_enc sizeof_Packet_def)
  have rest: "arrives (pending (ssl ?c)) [payload] rs"
    using ssl_read_chunk(2) [OF L arr, of "replicate sizeof_Packet 0"]
    by (simp add: packet.length_enc sizeof_Packet_def)
  have new: "new_bytes (unat (payloadLength q)) ?b = Some (Ret (junk ?b (length payload)), ?c)"
    using alloc len by (simp add: new_bytes_run)
  have data: "ssl_read L (junk ?b (length payload)) (int_argument (payloadLength q)) ?c = Some (Ret payload, ?d)"
    using ssl_read_chunk(1) [OF L rest, of "junk ?b (length payload)"]
    by (simp add: int_argument_small [OF small] len)
  have "SecNet_new BS L p = emit_receivedPacket BS L q payload ?d"
    unfolding SecNet_new_run [OF acc]
  proof (rule bindp_step, rule header)
    have "bindp (new_bytes (unat (payloadLength q))) (\<lambda>payload.
            bindp (ssl_read L payload (int_argument (payloadLength q))) (emit_receivedPacket BS L q)) ?b
        = emit_receivedPacket BS L q payload ?d"
      by (rule bindp_step, rule new, rule bindp_step, rule data, rule refl)
    with get leD [OF max] show "(if starts_with_GET (bytes_of_Packet q) then handleWebSocket BS L (bytes_of_Packet q)
       else let packet = Packet_of_bytes (bytes_of_Packet q) in
         if payloadLength packet > MAX_PACKET_PAYLOAD_SIZE then fail (too_large (payloadLength packet))
         else bindp (new_bytes (unat (payloadLength packet))) (\<lambda>payload.
            bindp (ssl_read L payload (int_argument (payloadLength packet))) (emit_receivedPacket BS L packet))) ?b
        = emit_receivedPacket BS L q payload ?d"
      by (simp add: packet.dec_enc)
  qed
  moreover have "pending (ssl ?d) = rs" "sent (ssl ?d) = sent (ssl p)"
    using ssl_read_chunk(2) [OF L rest, of "junk ?b (length payload)"]
    by (simp_all add: read_from_openssl [OF L] openssl_accepted [OF L])
  moreover have "same_server p ?d"
    by (rule same_server_trans [OF same_server_trans [OF same_server_trans]], rule same_server_steps(2),
        rule same_server_steps(1), rule same_server_steps(3), rule same_server_steps(1))
  ultimately show ?thesis by (intro exI [of _ ?d]) simp
qed

lemma request_packet_not_GET: "\<not> starts_with_GET (bytes_of_Packet (request_packet r))"
  unfolding bytes_of_Packet_def by (rule first_byte_not_GET) (simp_all add: request_packet_def le64.length_enc)

lemma unat_request_length:
  "length (request_payload r) \<le> 134217728 \<Longrightarrow>
     unat (payloadLength (request_packet r)) = length (request_payload r)"
  by (simp add: request_packet_def unat_of_nat)

lemma request_length_max:
  assumes "length (request_payload r) \<le> 134217728"
  shows "payloadLength (request_packet r) \<le> MAX_PACKET_PAYLOAD_SIZE"
  unfolding word_le_nat_alt unat_request_length [OF assms]
  using assms by (simp add: MAX_PACKET_PAYLOAD_SIZE_def)

end
