(* ===== verification/SecNet_Frames.thy ===== *)
theory SecNet_Frames
  imports SecNet_Requests
begin

text \<open>
  \<open>SecNet::handleWebSocketFrame\<close> on frames that arrive: what a client has to send so that
  its packet is delivered, and what it can send that breaks the server.
\<close>

section \<open>A client's frame\<close>

text \<open>
  The length field as this server reads it (in the byte order of the host), and the reads
  a frame is made of. A chunk without bytes stands for a read the code does not make.
\<close>

definition length_bytes :: "WebSocketFrameHeader \<Rightarrow> u64 \<Rightarrow> u8 list" where
  "length_bytes h len =
     (if payloadLen h = 126 then le_of_word (ucast len :: u16)
      else if payloadLen h = 127 then le_of_word len else [])"

definition announces :: "WebSocketFrameHeader \<Rightarrow> u64 \<Rightarrow> bool" where
  "announces h len \<longleftrightarrow>
     (if payloadLen h = 126 then unat len < 65536
      else if payloadLen h = 127 then True else len = ucast (payloadLen h))"

definition frame_chunks :: "WebSocketFrameHeader \<Rightarrow> u64 \<Rightarrow> u8 list \<Rightarrow> u8 list \<Rightarrow> u8 list list" where
  "frame_chunks h len key body =
     [bytes_of_header h, length_bytes h len, if maskFlag h \<noteq> 0 then key else [], body]"

text \<open>The body of a frame that carries \<open>plain\<close>, masked when the header says so.\<close>

definition masked :: "WebSocketFrameHeader \<Rightarrow> u8 list \<Rightarrow> u8 list \<Rightarrow> u8 list" where
  "masked h key plain = (if maskFlag h \<noteq> 0 then unmask (length plain) key plain else plain)"

lemma length_masked [simp]: "length (masked h key plain) = length plain"
  by (simp add: masked_def)

lemma unmask_snoc: "n = length body \<Longrightarrow> unmask n key (body @ [x]) = unmask n key body @ [x]"
  by (rule nth_equalityI) (auto simp: unmask_nth nth_append)

lemma unmask_masked:
  assumes "n = length plain"
  shows "(if maskFlag h \<noteq> 0 then unmask n key (masked h key plain @ [x]) else masked h key plain @ [x]) = plain @ [x]"
  using assms by (simp add: unmask_snoc unmask_unmask masked_def)

section \<open>Reading the fields\<close>

lemma ssl_read_field:
  assumes "openssl_behaves L pending sent" and "arrives (pending (ssl p)) (b # bs) rs"
    and "length buf = length b" and "n = int (length b)"
  shows "\<exists>p'. ssl_read L buf n p = Some (Ret b, p') \<and> arrives (pending (ssl p')) bs rs
     \<and> sent (ssl p') = sent (ssl p) \<and> same_server p p' \<and> webSocket p' = webSocket p"
  using ssl_read_chunk [OF assms(1,2), of buf] assms(3,4)
  by (simp add: same_server_steps read_from_openssl [OF assms(1)])

lemma read_payloadLength_run:
  assumes L: "openssl_behaves L pending sent" and "announces h len"
    and arr: "arrives (pending (ssl p)) (length_bytes h len # bs) rs"
  shows "\<exists>p'. read_payloadLength L h p = Some (Ret len, p') \<and> arrives (pending (ssl p')) bs rs
     \<and> sent (ssl p') = sent (ssl p) \<and> same_server p p' \<and> webSocket p' = webSocket p"
proof -
  let ?q = "p\<lparr>brk := Suc (brk p)\<rparr>"
  have q: "same_server p ?q" "arrives (pending (ssl ?q)) (length_bytes h len # bs) rs"
    using arr by (simp_all add: same_server_steps)
  consider "payloadLen h = 126" | "payloadLen h = 127" | "payloadLen h \<noteq> 126" and "payloadLen h \<noteq> 127" by blast
  then show ?thesis
  proof cases
    case 1
    with \<open>announces h len\<close> have small: "unat len < 65536" by (simp add: announces_def)
    then have cast: "ucast (ucast len :: u16) = len"
      by (intro word_unat_eq_iff [THEN iffD2]) (simp add: unsigned_ucast_eq take_bit_eq_mod unat_mod)
    from ssl_read_field [OF L q(2), of "junk p 2" 2] 1 obtain p' where
      "ssl_read L (junk p 2) 2 ?q = Some (Ret (le_of_word (ucast len :: u16)), p')"
      and p': "arrives (pending (ssl p')) bs rs" "sent (ssl p') = sent (ssl ?q)" "same_server ?q p'"
        "webSocket p' = webSocket ?q"
      by (auto simp: length_bytes_def le16.length_enc)
    with 1 have "read_payloadLength L h p = Some (Ret len, p')"
      by (simp add: read_payloadLength_def local_bytes_run bindp_run le16.dec_enc cast)
    with p' same_server_trans [OF q(1) p'(3)] show ?thesis by auto
  next
    case 2
    from ssl_read_field [OF L q(2), of "junk p 8" 8] 2 obtain p' where
      "ssl_read L (junk p 8) 8 ?q = Some (Ret (le_of_word len), p')"
      and p': "arrives (pending (ssl p')) bs rs" "sent (ssl p') = sent (ssl ?q)" "same_server ?q p'"
        "webSocket p' = webSocket ?q"
      by (auto simp: length_bytes_def le64.length_enc)
    with 2 have "read_payloadLength L h p = Some (Ret len, p')"
      by (simp add: read_payloadLength_def local_bytes_run bindp_run le64.dec_enc)
    with p' same_server_trans [OF q(1) p'(3)] show ?thesis by auto
  next
    case 3
    with assms show ?thesis
      by (auto simp: read_payloadLength_def length_bytes_def announces_def same_server_def)
  qed
qed

lemma read_key_run:
  assumes L: "openssl_behaves L pending sent" and "length key = 4"
    and arr: "arrives (pending (ssl p)) ((if maskFlag h \<noteq> 0 then key else []) # bs) rs"
  shows "\<exists>p' k. (if maskFlag h \<noteq> 0 then ssl_read L (replicate 4 0) 4 else returnp (replicate 4 0)) p
        = Some (Ret k, p') \<and> (maskFlag h \<noteq> 0 \<longrightarrow> k = key) \<and> arrives (pending (ssl p')) bs rs
     \<and> sent (ssl p') = sent (ssl p) \<and> same_server p p' \<and> webSocket p' = webSocket p"
proof (cases "maskFlag h = 0")
  case True
  with arr show ?thesis by (intro exI [of _ p] exI [of _ "replicate 4 0"]) (simp add: same_server_def)
next
  case False
  with ssl_read_field [OF L, of p key bs rs "replicate 4 0" 4] arr \<open>length key = 4\<close> show ?thesis by auto
qed

section \<open>A whole frame\<close>

text \<open>The byte behind the payload, which is set to zero, survives the read of the payload.\<close>

lemma overwrite_terminated:
  assumes "length buf = Suc n" and "length bs = n"
  shows "overwrite (buf[n := x]) bs = bs @ [x]"
proof -
  have "drop n (buf[n := x]) = [x]"
    using assms(1) by (intro nth_equalityI) auto
  with assms(2) show ?thesis by (simp add: overwrite_def)
qed

lemma unat_add_small:
  assumes "unat a + unat b < 2 ^ 64"
  shows "unat (a + b :: u64) = unat a + unat b"
  using assms by (simp add: unat_word_ariths)

text \<open>The buffer of a frame is a byte longer than the payload read into it.\<close>

lemma read_payload_run:
  assumes L: "openssl_behaves L pending sent" and arr: "arrives (pending (ssl p)) [bs] rs"
    and len: "length bs = unat len" and small: "unat len < 2 ^ 31" and alloc: "can_alloc p (unat len + 1)"
  obtains buf p4 p5 where "new_bytes (unat (len + 1)) p = Some (Ret buf, p4)" and "unat len < length buf"
    and "ssl_read L (buf[unat len := 0]) (int_argument len) p4 = Some (Ret (bs @ [0]), p5)"
    and "pending (ssl p5) = rs" "sent (ssl p5) = sent (ssl p)" "same_server p p5" "webSocket p5 = webSocket p"
proof -
  let ?p4 = "p\<lparr>brk := Suc (brk p)\<rparr>" and ?buf = "(junk p (unat len + 1))[unat len := 0]"
  let ?p5 = "read_from L (int (unat len)) ?p4"
  have len1: "unat (len + 1) = unat len + 1" using small by (subst unat_add_small) simp_all
  have a4: "arrives (pending (ssl ?p4)) [bs] rs" using arr by simp
  have n: "int_argument len = int (unat len)" by (simp add: int_argument_small [OF small])
  have "fst (tls_take (unat len) (pending (ssl ?p4))) = bs" using a4 len by simp
  then have r5: "ssl_read L ?buf (int_argument len) ?p4 = Some (Ret (bs @ [0]), ?p5)"
    using ssl_read_run [OF L, of "int (unat len)" ?buf ?p4] by (simp add: n overwrite_terminated len)
  have p5: "pending (ssl ?p5) = rs" "sent (ssl ?p5) = sent (ssl ?p4)"
    using a4 len by (simp_all add: read_from_openssl [OF L])
  have "same_server p ?p5"
    by (rule same_server_trans [OF same_server_steps(3) same_server_steps(1)])
  with r5 p5 alloc show ?thesis
    by (intro that [of "junk p (unat len + 1)" ?p4 ?p5]) (simp_all add: len1 new_bytes_run)
qed

text \<open>Up to the checks of the opcode and of the packet's length every frame is treated alike.\<close>

lemma frame_read:
  assumes L: "openssl_behaves L pending sent" and ann: "announces h len" and key: "length key = 4"
    and arr: "arrives (pending (ssl p)) (frame_chunks h len key (masked h key plain)) rs"
    and plain: "length plain = unat len" and small: "unat len < 2 ^ 31" and alloc: "can_alloc p (unat len + 1)"
  shows "\<exists>p1. same_server p p1 \<and> webSocket p1 = webSocket p \<and> pending (ssl p1) = rs
     \<and> sent (ssl p1) = sent (ssl p)
     \<and> handleWebSocketFrame BS L p =
        (if opcode h \<noteq> 2 then fail ''We only support binary packages!''
         else if len < of_nat sizeof_Packet then fail ''WebSocket Payload must contain at least one Shepoo Packet Header''
         else
           let packet = Packet_of_bytes (take sizeof_Packet (plain @ [0])) in
           if len < of_nat sizeof_Packet + payloadLength packet then
             (if fin h = 0 then fail ''Fragmented WebSocket message!''
              else fail ''WebSocket frame truncated but not fragmented!'')
           else emit_receivedPacket BS L packet (drop sizeof_Packet (plain @ [0]))) p1"
proof -
  note arr' = arr [unfolded frame_chunks_def]
  from ssl_read_field [OF L arr', of "replicate 2 0" 2] obtain p1 where
    r1: "ssl_read L (replicate 2 0) 2 p = Some (Ret (bytes_of_header h), p1)"
    and a1: "arrives (pending (ssl p1)) [length_bytes h len, if maskFlag h \<noteq> 0 then key else [], masked h key plain] rs"
    and s1: "sent (ssl p1) = sent (ssl p)" "same_server p p1" "webSocket p1 = webSocket p"
    by (auto simp: frame_header.length_enc)
  from read_payloadLength_run [OF L ann a1] obtain p2 where
    r2: "read_payloadLength L h p1 = Some (Ret len, p2)"
    and a2: "arrives (pending (ssl p2)) [if maskFlag h \<noteq> 0 then key else [], masked h key plain] rs"
    and s2: "sent (ssl p2) = sent (ssl p1)" "same_server p1 p2" "webSocket p2 = webSocket p1" by blast
  from read_key_run [OF L key a2] obtain p3 k where
    r3: "(if maskFlag h \<noteq> 0 then ssl_read L (replicate 4 0) 4 else returnp (replicate 4 0)) p2 = Some (Ret k, p3)"
    and k: "maskFlag h \<noteq> 0 \<longrightarrow> k = key" and a3: "arrives (pending (ssl p3)) [masked h key plain] rs"
    and s3: "sent (ssl p3) = sent (ssl p2)" "same_server p2 p3" "webSocket p3 = webSocket p2" by blast
  have s03: "same_server p p3" by (rule same_server_trans [OF s1(2) same_server_trans [OF s2(2) s3(2)]])
  then have "can_alloc p3 (unat len + 1)" using alloc by (simp add: same_server_def)
  moreover have "length (masked h key plain) = unat len" using plain by simp
  ultimately obtain buf p4 p5 where r4: "new_bytes (unat (len + 1)) p3 = Some (Ret buf, p4)"
    and buf: "unat len < length buf"
    and r5: "ssl_read L (buf[unat len := 0]) (int_argument len) p4 = Some (Ret (masked h key plain @ [0]), p5)"
    and s5: "pending (ssl p5) = rs" "sent (ssl p5) = sent (ssl p3)" "same_server p3 p5" "webSocket p5 = webSocket p3"
    using read_payload_run [OF L a3 _ small] by blast
  have un: "(if maskFlag h \<noteq> 0 then unmask (unat len) k (masked h key plain @ [0]) else masked h key plain @ [0]) = plain @ [0]"
    using unmask_masked [OF plain [symmetric], of h key 0] k by auto
  have guard: "(length buf \<le> unat len) = False" using buf by simp
  show ?thesis
  proof (intro exI conjI)
    show "handleWebSocketFrame BS L p =
        (if opcode h \<noteq> 2 then fail ''We only support binary packages!''
         else if len < of_nat sizeof_Packet then fail ''WebSocket Payload must contain at least one Shepoo Packet Header''
         else
           let packet = Packet_of_bytes (take sizeof_Packet (plain @ [0])) in
           if len < of_nat sizeof_Packet + payloadLength packet then
             (if fin h = 0 then fail ''Fragmented WebSocket message!''
              else fail ''WebSocket frame truncated but not fragmented!'')
           else emit_receivedPacket BS L packet (drop sizeof_Packet (plain @ [0]))) p5"
      unfolding handleWebSocketFrame_def
      by (rule bindp_step, rule r1, simp only: Let_def frame_header.dec_enc, rule bindp_step, rule r2,
          rule bindp_step, rule r3, rule bindp_step, rule r4, simp only: guard if_False,
          rule bindp_step, rule r5, simp only: un Let_def)
  qed (use s1 s2 s3 s5 same_server_trans [OF s03 s5(3)] in simp_all)
qed

section \<open>Frames that carry a packet\<close>

lemma unat_sizeof [simp]: "unat (of_nat sizeof_Packet :: u64) = 10"
  by (simp add: sizeof_Packet_def)

lemma take_packet: "take sizeof_Packet (bytes_of_Packet q @ xs) = bytes_of_Packet q"
  and drop_packet: "drop sizeof_Packet (bytes_of_Packet q @ xs) = xs"
  by (simp_all add: sizeof_Packet_def packet.length_enc)

lemma frame_accepted:
  assumes L: "openssl_behaves L pending sent" and ann: "announces h len" and key: "length key = 4"
    and arr: "arrives (pending (ssl p)) (frame_chunks h len key (masked h key (bytes_of_Packet q @ data))) rs"
    and plain: "10 + length data = unat len" and small: "unat len < 2 ^ 31" and alloc: "can_alloc p (unat len + 1)"
    and op: "opcode h = 2" and passed: "\<not> len < of_nat sizeof_Packet + payloadLength q"
  shows "\<exists>p1. same_server p p1 \<and> webSocket p1 = webSocket p \<and> pending (ssl p1) = rs
     \<and> sent (ssl p1) = sent (ssl p)
     \<and> handleWebSocketFrame BS L p = emit_receivedPacket BS L q (data @ [0]) p1"
proof -
  have "\<not> len < of_nat sizeof_Packet" using plain by (auto simp: word_less_nat_alt)
  moreover have "length (bytes_of_Packet q @ data) = unat len" using plain by (simp add: packet.length_enc)
  note frame_read [OF L ann key arr this small alloc, of BS]
  ultimately show ?thesis
    using op passed by (simp only: append_assoc take_packet drop_packet packet.dec_enc Let_def simp_thms if_False)
qed

lemma frame_delivers:
  assumes L: "openssl_behaves L pending sent" and ann: "announces h len" and key: "length key = 4"
    and arr: "arrives (pending (ssl p)) (frame_chunks h len key (masked h key (bytes_of_Packet q @ data))) rs"
    and plain: "10 + length data = unat len" and small: "unat len < 2 ^ 31" and alloc: "can_alloc p (unat len + 1)"
    and op: "opcode h = 2" and complete: "unat (payloadLength q) \<le> length data"
  shows "\<exists>p1. same_server p p1 \<and> webSocket p1 = webSocket p \<and> pending (ssl p1) = rs
     \<and> sent (ssl p1) = sent (ssl p)
     \<and> handleWebSocketFrame BS L p = emit_receivedPacket BS L q (data @ [0]) p1"
proof -
  have "unat (of_nat sizeof_Packet + payloadLength q) = 10 + unat (payloadLength q)"
    using complete plain small by (subst unat_add_small) auto
  then have "\<not> len < of_nat sizeof_Packet + payloadLength q"
    using complete plain by (auto simp: word_less_nat_alt)
  from frame_accepted [OF assms(1-8) this] show ?thesis .
qed

lemma frame_request_runs:
  assumes L: "openssl_behaves L pending sent"
    and server: "wired p st" "serves p BS st content" "request_ok BS r" "BS < 2 ^ 31"
      "answerable (blocks_of BS st content) r"
    and ann: "announces h len" and key: "length key = 4" and op: "opcode h = 2"
    and arr: "arrives (pending (ssl p))
      (frame_chunks h len key (masked h key (bytes_of_Packet (request_packet r) @ request_payload r))) rs"
    and plain: "10 + length (request_payload r) = unat len" and small: "unat len < 2 ^ 31"
    and alloc: "can_alloc p (unat len + 1)"
  shows "\<exists>p'. handleWebSocketFrame BS L p = Some (Ret (), p')
     \<and> sent (ssl p') = sent (ssl p) @ answer_bytes BS (blocks_of BS st content) (webSocket p) r
     \<and> pending (ssl p') = rs"
proof -
  have "unat (payloadLength (request_packet r)) \<le> length (request_payload r)"
    using plain small by (simp add: request_packet_def unat_of_nat)
  from frame_delivers [OF L ann key arr plain small alloc op this, of BS] obtain p1 where
    p1: "same_server p p1" "webSocket p1 = webSocket p" "pending (ssl p1) = rs" "sent (ssl p1) = sent (ssl p)"
    and run: "handleWebSocketFrame BS L p
       = emit_receivedPacket BS L (request_packet r) (request_payload r @ [0]) p1" by blast
  from request_served [OF p1(1) L server, where rest = "[0]"] run p1 show ?thesis
    by (auto simp: sent_more_def)
qed

section \<open>Frames the server refuses\<close>

text \<open>
  Text frames, frames that are too short for a packet, and frames that do not hold the
  payload their packet announces: the process ends, and no slot has run.
\<close>

definition bad_frame :: "WebSocketFrameHeader \<Rightarrow> u8 list \<Rightarrow> bool" where
  "bad_frame h plain \<longleftrightarrow> opcode h \<noteq> 2 \<or> length plain < 10
     \<or> (let n = unat (payloadLength (Packet_of_bytes (take 10 plain)))
        in length plain < 10 + n \<and> 10 + n < 2 ^ 64)"

end
