(* ===== verification/SecNet_Handshake.thy ===== *)
theory SecNet_Handshake
  imports SecNet_Frames
begin

text \<open>
  \<open>SecNet::handleWebSocket\<close>: the request of a WebSocket client, line by line, which of its
  headers the server looks at, and what happens when the request does not end.
\<close>

section \<open>The array of header lines\<close>

text \<open>
  \<open>lines_array done cur\<close>: the lines read so far and the one that is being read, in the
  array of 15 strings.
\<close>

definition lines_array :: "string list \<Rightarrow> string \<Rightarrow> string list" where
  "lines_array ls cur = ls @ cur # replicate (14 - length ls) []"

lemma lines_array_start: "replicate MaxHeaders [] = lines_array [] []"
  by (simp add: lines_array_def MaxHeaders_def flip: replicate_Suc)

lemma length_lines_array: "length ls < 15 \<Longrightarrow> length (lines_array ls cur) = 15"
  by (simp add: lines_array_def)

lemma lines_array_current [simp]: "lines_array ls cur ! length ls = cur"
  by (simp add: lines_array_def)

lemma lines_array_extend [simp]: "(lines_array ls cur)[length ls := cur'] = lines_array ls cur'"
  by (simp add: lines_array_def)

lemma lines_array_next:
  assumes "length ls < 14"
  shows "(lines_array ls cur)[Suc (length ls) := []] = lines_array (ls @ [cur]) []"
proof -
  from assms have "14 - length ls = Suc (14 - Suc (length ls))" by simp
  then have "lines_array ls cur = (ls @ [cur]) @ [] # replicate (14 - Suc (length ls)) []"
    by (simp add: lines_array_def)
  then show ?thesis
    using list_update_length [of "ls @ [cur]" "[]" "replicate (14 - Suc (length ls)) []" "[]"]
    by (simp add: lines_array_def)
qed

definition plain_text :: "string \<Rightarrow> bool" where
  "plain_text s \<longleftrightarrow> CR \<notin> set s \<and> LF \<notin> set s"

lemma plain_text_simps [simp]:
  "plain_text []" "plain_text (c # s) \<longleftrightarrow> c \<noteq> CR \<and> c \<noteq> LF \<and> plain_text s"
  "plain_text (s @ t) \<longleftrightarrow> plain_text s \<and> plain_text t"
  by (auto simp: plain_text_def)

lemma append_char_run:
  "length ls < 15 \<Longrightarrow> length cur < string_limit m \<Longrightarrow>
     append_char (lines_array ls cur) (length ls) c m = Some (Ret (lines_array ls (cur @ [c])), m)"
  "length ls < 15 \<Longrightarrow> string_limit m \<le> length cur \<Longrightarrow>
     append_char (lines_array ls cur) (length ls) c m = Some (Uncaught, m)"
  by (simp_all add: append_char_def length_lines_array)

lemma initial_lines_plain:
  "plain_text cs \<Longrightarrow> length ls < 15 \<Longrightarrow> length (cur @ cs) \<le> string_limit m \<Longrightarrow>
     initial_lines cs (lines_array ls cur) (length ls) m = Some (Ret (lines_array ls (cur @ cs), length ls), m)"
  by (induction cs arbitrary: cur) (auto simp: bindp_run append_char_run)

lemma initial_lines_full:
  "plain_text cs \<Longrightarrow> length ls < 15 \<Longrightarrow> length cur \<le> string_limit m \<Longrightarrow> string_limit m < length (cur @ cs) \<Longrightarrow>
     initial_lines cs (lines_array ls cur) (length ls) m = Some (Uncaught, m)"
proof (induction cs arbitrary: cur)
  case (Cons c cs)
  then show ?case
    by (cases "length cur < string_limit m") (auto simp: bindp_run append_char_run)
qed simp

section \<open>Reading the rest of the request\<close>

text \<open>The next records, none of them empty, hold a text; then come the records \<open>rs\<close>.\<close>

definition holds_text :: "string \<Rightarrow> u8 list list \<Rightarrow> u8 list list \<Rightarrow> bool" where
  "holds_text s rs ps \<longleftrightarrow> (\<exists>pre. ps = pre @ rs \<and> [] \<notin> set pre \<and> concat pre = bytes_of_string s)"

lemma holds_text_one: "s \<noteq> [] \<Longrightarrow> holds_text s rs (bytes_of_string s # rs)"
  unfolding holds_text_def by (intro exI [of _ "[bytes_of_string s]"]) (simp add: bytes_of_string_def)

lemma holds_text_none [simp]: "holds_text [] rs ps \<longleftrightarrow> ps = rs"
proof
  assume "holds_text [] rs ps"
  then obtain pre where "ps = pre @ rs" "[] \<notin> set pre" "\<forall>r\<in>set pre. r = []"
    by (auto simp: holds_text_def bytes_of_string_def)
  then show "ps = rs" by (cases pre) auto
qed (auto simp: holds_text_def bytes_of_string_def)

lemma holds_text_single: "holds_text [c] rs ps \<Longrightarrow> ps = [char_byte c] # rs"
proof -
  assume "holds_text [c] rs ps"
  then obtain pre where pre: "ps = pre @ rs" "[] \<notin> set pre" "concat pre = [char_byte c]"
    by (auto simp: holds_text_def bytes_of_string_def)
  then obtain r pre' where "pre = r # pre'" by (cases pre) auto
  with pre have "r = [char_byte c]" "concat pre' = []" by (cases r; auto)+
  with pre \<open>pre = r # pre'\<close> have "pre' = []" by (cases pre') auto
  with pre \<open>pre = r # pre'\<close> \<open>r = [char_byte c]\<close> show ?thesis by simp
qed

lemma holds_text_first_length: "holds_text s [] ps \<Longrightarrow> length (hd ps) \<le> length s \<or> s = []"
proof -
  assume "holds_text s [] ps"
  then have "concat ps = bytes_of_string s" by (auto simp: holds_text_def)
  then have "length (concat ps) = length s" by (simp add: bytes_of_string_def)
  then show ?thesis by (cases ps) auto
qed

text \<open>One byte of a text, which may be the last of a record.\<close>

lemma tls_take_text:
  assumes "holds_text (c # s) rs ps"
  shows "fst (tls_take 1 ps) = [char_byte c] \<and> holds_text s rs (snd (tls_take 1 ps))"
proof -
  from assms obtain pre where pre: "ps = pre @ rs" "[] \<notin> set pre" "concat pre = char_byte c # bytes_of_string s"
    by (auto simp: holds_text_def bytes_of_string_def)
  then obtain x r pre' where "pre = (x # r) # pre'" by (cases pre; cases "hd pre") auto
  with pre show ?thesis
    by (cases r) (auto simp: holds_text_def intro: exI [of _ pre'] exI [of _ "r # pre'"])
qed

lemma read_byte:
  assumes L: "openssl_behaves L pending sent" and "holds_text (c # s) rs (pending (ssl p))"
  shows "\<exists>p'. ssl_read L [0] 1 p = Some (Ret [char_byte c], p') \<and> holds_text s rs (pending (ssl p'))
     \<and> sent (ssl p') = sent (ssl p) \<and> same_server p p' \<and> webSocket p' = webSocket p"
  using ssl_read_run [OF L, of 1 "[0]" p] tls_take_text [OF assms(2)]
  by (simp add: overwrite_def read_from_openssl [OF L] same_server_steps)

lemma read_text:
  assumes L: "openssl_behaves L pending sent" and "length ls < 15" and "plain_text t"
    and "holds_text (t @ s) rs (pending (ssl p))" and "length (cur @ t) \<le> string_limit p"
  shows "\<exists>p'. read_lines L (lines_array ls cur) (length ls) p
        = read_lines L (lines_array ls (cur @ t)) (length ls) p' \<and> holds_text s rs (pending (ssl p'))
     \<and> sent (ssl p') = sent (ssl p) \<and> same_server p p' \<and> webSocket p' = webSocket p"
  using assms(3-5)
proof (induction t arbitrary: cur p)
  case Nil
  then show ?case by (intro exI [of _ p]) (simp add: same_server_def)
next
  case (Cons c t)
  from read_byte [OF L, of c "t @ s" rs p] Cons.prems(2) obtain q where
    q: "ssl_read L [0] 1 p = Some (Ret [char_byte c], q)" "holds_text (t @ s) rs (pending (ssl q))"
      "sent (ssl q) = sent (ssl p)" "same_server p q" "webSocket q = webSocket p" by auto
  have limit: "string_limit q = string_limit p" using q(4) by (simp add: same_server_def)
  have "read_lines L (lines_array ls cur) (length ls) p = read_lines L (lines_array ls (cur @ [c])) (length ls) q"
    using Cons.prems(1,3) assms(2) limit
    by (subst read_lines.simps) (simp add: MaxHeaders_def q(1) length_lines_array Let_def)
  moreover from Cons.IH [OF _ q(2), of "cur @ [c]"] Cons.prems(1,3) limit obtain p' where
    "read_lines L (lines_array ls (cur @ [c])) (length ls) q = read_lines L (lines_array ls (cur @ c # t)) (length ls) p'"
    "holds_text s rs (pending (ssl p'))" "sent (ssl p') = sent (ssl q)" "same_server q p'" "webSocket p' = webSocket q"
    by auto
  ultimately show ?case using q same_server_trans by (intro exI [of _ p']) auto
qed

text \<open>A text that does not fit ends the process, without a byte sent.\<close>

definition exhausts :: "('c \<Rightarrow> u8 list) \<Rightarrow> ('a outcome \<times> 'c proc) option \<Rightarrow> 'c proc \<Rightarrow> bool" where
  "exhausts sent run p \<longleftrightarrow> (\<exists>p'. run = Some (Uncaught, p') \<and> sent (ssl p') = sent (ssl p) \<and> same_server p p')"

lemma exhausts_step:
  "exhausts sent run q \<Longrightarrow> sent (ssl q) = sent (ssl p) \<Longrightarrow> same_server p q \<Longrightarrow> exhausts sent run p"
  unfolding exhausts_def by (metis same_server_trans)

lemma append_full:
  assumes "ssl_read L [0] 1 p = Some (Ret [char_byte c], q)" and "c \<noteq> CR" "c \<noteq> LF" and "length ls < 15"
    and "sent (ssl q) = sent (ssl p)" "same_server p q" and "string_limit p \<le> length cur"
  shows "exhausts sent (read_lines L (lines_array ls cur) (length ls) p) p"
proof -
  have "string_limit q \<le> length cur" using assms(6,7) by (simp add: same_server_def)
  then have "read_lines L (lines_array ls cur) (length ls) p = Some (Uncaught, q)"
    using assms(1-4) by (subst read_lines.simps) (simp add: MaxHeaders_def length_lines_array Let_def)
  with assms(5,6) show ?thesis by (simp add: exhausts_def)
qed

lemma read_text_full:
  assumes L: "openssl_behaves L pending sent" and "length ls < 15" and "plain_text t"
    and "holds_text (t @ s) rs (pending (ssl p))" and "length cur \<le> string_limit p" "string_limit p < length (cur @ t)"
  shows "exhausts sent (read_lines L (lines_array ls cur) (length ls) p) p"
proof -
  let ?n = "string_limit p - length cur"
  have n: "?n < length t" using assms(5,6) by simp
  then have t: "t = take ?n t @ t ! ?n # drop (Suc ?n) t" by (simp add: id_take_nth_drop)
  have plain: "plain_text (take ?n t)" "t ! ?n \<noteq> CR" "t ! ?n \<noteq> LF"
    using assms(3) nth_mem [OF n] by (auto simp: plain_text_def dest: in_set_takeD)
  have "holds_text (take ?n t @ t ! ?n # drop (Suc ?n) t @ s) rs (pending (ssl p))"
    using assms(4) t by (metis append_Cons append_assoc)
  from read_text [OF L assms(2) plain(1) this, of cur] assms(5) n obtain q where
    q: "read_lines L (lines_array ls cur) (length ls) p = read_lines L (lines_array ls (cur @ take ?n t)) (length ls) q"
      "holds_text (t ! ?n # drop (Suc ?n) t @ s) rs (pending (ssl q))" "sent (ssl q) = sent (ssl p)" "same_server p q" by auto
  from read_byte [OF L q(2)] obtain r where
    r: "ssl_read L [0] 1 q = Some (Ret [char_byte (t ! ?n)], r)" "sent (ssl r) = sent (ssl q)" "same_server q r" by blast
  have "string_limit q \<le> length (cur @ take ?n t)" using q(4) assms(5) n by (simp add: same_server_def)
  from append_full [OF r(1) plain(2,3) assms(2) r(2,3) this] q(1,3,4) show ?thesis
    by (auto intro: exhausts_step)
qed

text \<open>The line feed after a carriage return, and the carriage return in its three cases.\<close>

lemma read_LF:
  assumes L: "openssl_behaves L pending sent" and "length ls < 15"
    and "holds_text (LF # s) rs (pending (ssl p))"
  shows "\<exists>p'. read_lines L (lines_array ls cur) (length ls) p = read_lines L (lines_array ls cur) (length ls) p'
     \<and> holds_text s rs (pending (ssl p'))
     \<and> sent (ssl p') = sent (ssl p) \<and> same_server p p' \<and> webSocket p' = webSocket p"
proof -
  from read_byte [OF L assms(3)] obtain q where
    q: "ssl_read L [0] 1 p = Some (Ret [char_byte LF], q)" "holds_text s rs (pending (ssl q))"
      "sent (ssl q) = sent (ssl p)" "same_server p q" "webSocket q = webSocket p" by blast
  have "read_lines L (lines_array ls cur) (length ls) p = read_lines L (lines_array ls cur) (length ls) q"
    using assms(2) by (subst read_lines.simps) (simp add: MaxHeaders_def q(1) Let_def)
  with q show ?thesis by blast
qed

lemma read_CR:
  assumes L: "openssl_behaves L pending sent" and "length ls < 15"
    and "holds_text (CR # s) rs (pending (ssl p))"
  shows "\<exists>p'. read_lines L (lines_array ls cur) (length ls) p =
       (if cur = [] then Some (Ret (lines_array ls cur, length ls - 1), p')
        else if length ls < 14 then read_lines L (lines_array (ls @ [cur]) []) (Suc (length ls)) p'
        else Some (Undefined Out_of_bounds, p'))
     \<and> holds_text s rs (pending (ssl p'))
     \<and> sent (ssl p') = sent (ssl p) \<and> same_server p p' \<and> webSocket p' = webSocket p"
proof -
  from read_byte [OF L assms(3)] obtain q where
    q: "ssl_read L [0] 1 p = Some (Ret [char_byte CR], q)" "holds_text s rs (pending (ssl q))"
      "sent (ssl q) = sent (ssl p)" "same_server p q" "webSocket q = webSocket p" by blast
  have "read_lines L (lines_array ls cur) (length ls) p =
       (if cur = [] then Some (Ret (lines_array ls cur, length ls - 1), q)
        else if length ls < 14 then read_lines L (lines_array (ls @ [cur]) []) (Suc (length ls)) q
        else Some (Undefined Out_of_bounds, q))"
    using assms(2) by (subst read_lines.simps) (simp add: MaxHeaders_def q(1) length_lines_array lines_array_next Let_def)
  with q show ?thesis by blast
qed

section \<open>A whole request\<close>

definition crlf_lines :: "string list \<Rightarrow> string" where
  "crlf_lines ls = concat (map (\<lambda>l. l @ [CR, LF]) ls)"

lemma crlf_lines_simps [simp]: "crlf_lines [] = []" "crlf_lines (l # ls) = l @ CR # LF # crlf_lines ls"
  by (simp_all add: crlf_lines_def)

definition good_line :: "string \<Rightarrow> bool" where
  "good_line l \<longleftrightarrow> plain_text l \<and> l \<noteq> []"

lemma read_one_line:
  assumes L: "openssl_behaves L pending sent" and "length ls < 14" and "plain_text t" and "cur @ t \<noteq> []"
    and "holds_text (t @ CR # LF # s) rs (pending (ssl p))" and "length (cur @ t) \<le> string_limit p"
  shows "\<exists>p'. read_lines L (lines_array ls cur) (length ls) p
        = read_lines L (lines_array (ls @ [cur @ t]) []) (length (ls @ [cur @ t])) p' \<and> holds_text s rs (pending (ssl p'))
     \<and> sent (ssl p') = sent (ssl p) \<and> same_server p p' \<and> webSocket p' = webSocket p"
proof -
  from assms(2) have lt: "length ls < 15" by simp
  from read_text [OF L lt assms(3,5,6)] obtain q where
    q: "read_lines L (lines_array ls cur) (length ls) p = read_lines L (lines_array ls (cur @ t)) (length ls) q"
      "holds_text (CR # LF # s) rs (pending (ssl q))"
      "sent (ssl q) = sent (ssl p)" "same_server p q" "webSocket q = webSocket p" by blast
  from read_CR [OF L lt q(2), of "cur @ t"] assms(2,4) obtain r where
    r: "read_lines L (lines_array ls (cur @ t)) (length ls) q
        = read_lines L (lines_array (ls @ [cur @ t]) []) (length (ls @ [cur @ t])) r"
      "holds_text (LF # s) rs (pending (ssl r))"
      "sent (ssl r) = sent (ssl q)" "same_server q r" "webSocket r = webSocket q" by auto
  from assms(2) have "length (ls @ [cur @ t]) < 15" by simp
  from read_LF [OF L this r(2)] obtain p' where
    "read_lines L (lines_array (ls @ [cur @ t]) []) (length (ls @ [cur @ t])) r
        = read_lines L (lines_array (ls @ [cur @ t]) []) (length (ls @ [cur @ t])) p'"
      "holds_text s rs (pending (ssl p'))"
      "sent (ssl p') = sent (ssl r)" "same_server r p'" "webSocket p' = webSocket r" by blast
  with q r show ?thesis
    by (intro exI [of _ p']) (auto intro: same_server_trans)
qed

lemma read_many_lines:
  assumes L: "openssl_behaves L pending sent" and "length ls + length ms < 15" and "\<forall>l\<in>set ms. good_line l"
    and "holds_text (crlf_lines ms @ s) rs (pending (ssl p))" and "\<forall>l\<in>set ms. length l \<le> string_limit p"
  shows "\<exists>p'. read_lines L (lines_array ls []) (length ls) p
        = read_lines L (lines_array (ls @ ms) []) (length (ls @ ms)) p' \<and> holds_text s rs (pending (ssl p'))
     \<and> sent (ssl p') = sent (ssl p) \<and> same_server p p' \<and> webSocket p' = webSocket p"
  using assms(2-5)
proof (induction ms arbitrary: ls p)
  case Nil
  then show ?case by (intro exI [of _ p]) (simp add: same_server_def)
next
  case (Cons m ms)
  have first: "length ls < 14" "plain_text m" "[] @ m \<noteq> []"
    "holds_text (m @ CR # LF # (crlf_lines ms @ s)) rs (pending (ssl p))" "length ([] @ m) \<le> string_limit p"
    using Cons.prems by (simp_all add: good_line_def)
  from read_one_line [OF L first] obtain q where
    q: "read_lines L (lines_array ls []) (length ls) p = read_lines L (lines_array (ls @ [m]) []) (length (ls @ [m])) q"
      "holds_text (crlf_lines ms @ s) rs (pending (ssl q))"
      "sent (ssl q) = sent (ssl p)" "same_server p q" "webSocket q = webSocket p" by auto
  have "length (ls @ [m]) + length ms < 15" "\<forall>l\<in>set ms. good_line l" using Cons.prems by simp_all
  moreover have "\<forall>l\<in>set ms. length l \<le> string_limit q" using Cons.prems(4) q(4) by (simp add: same_server_def)
  ultimately have "\<exists>p'. read_lines L (lines_array (ls @ [m]) []) (length (ls @ [m])) q
        = read_lines L (lines_array (ls @ m # ms) []) (length (ls @ m # ms)) p' \<and> holds_text s rs (pending (ssl p'))
     \<and> sent (ssl p') = sent (ssl q) \<and> same_server q p' \<and> webSocket p' = webSocket q"
    using Cons.IH [of "ls @ [m]" q] q(2) by simp
  then obtain p' where
    "read_lines L (lines_array (ls @ [m]) []) (length (ls @ [m])) q
        = read_lines L (lines_array (ls @ m # ms) []) (length (ls @ m # ms)) p'"
      "holds_text s rs (pending (ssl p'))"
      "sent (ssl p') = sent (ssl q)" "same_server q p'" "webSocket p' = webSocket q" by blast
  with q show ?case by (intro exI [of _ p']) (auto intro: same_server_trans)
qed

text \<open>
  The lines after the first ten bytes, up to the empty line; the last line feed stays in the
  connection. With fifteen lines before the empty one the loop leaves the array.
\<close>

lemma read_request:
  assumes L: "openssl_behaves L pending sent" and len: "length ms < 14" and ok: "plain_text t" "cur \<noteq> []"
      "\<forall>l\<in>set ms. good_line l"
    and "holds_text (t @ CR # LF # crlf_lines ms @ CR # s) rs (pending (ssl p))"
    and fits: "length (cur @ t) \<le> string_limit p" "\<forall>l\<in>set ms. length l \<le> string_limit p"
  shows "\<exists>p'. read_lines L (lines_array [] cur) 0 p
        = Some (Ret (lines_array ((cur @ t) # ms) [], length ms), p') \<and> holds_text s rs (pending (ssl p'))
     \<and> sent (ssl p') = sent (ssl p) \<and> same_server p p' \<and> webSocket p' = webSocket p"
proof -
  have "cur @ t \<noteq> []" "length ([] :: string list) < 14" using ok by simp_all
  from read_one_line [OF L this(2) ok(1) this(1) assms(6) fits(1)] obtain q where
    q: "read_lines L (lines_array [] cur) 0 p = read_lines L (lines_array [cur @ t] []) (length [cur @ t]) q"
      "holds_text (crlf_lines ms @ CR # s) rs (pending (ssl q))"
      "sent (ssl q) = sent (ssl p)" "same_server p q" "webSocket q = webSocket p" by auto
  have "length [cur @ t] + length ms < 15" using len by simp
  from read_many_lines [OF L this ok(3) q(2)] fits(2) q(4) obtain r where
    r: "read_lines L (lines_array [cur @ t] []) (length [cur @ t]) q
        = read_lines L (lines_array ((cur @ t) # ms) []) (length ((cur @ t) # ms)) r"
      "holds_text (CR # s) rs (pending (ssl r))"
      "sent (ssl r) = sent (ssl q)" "same_server q r" "webSocket r = webSocket q" by (auto simp: same_server_def)
  have "length ((cur @ t) # ms) < 15" using len by simp
  from read_CR [OF L this r(2), of "[]"] obtain p' where
    "read_lines L (lines_array ((cur @ t) # ms) []) (length ((cur @ t) # ms)) r
        = Some (Ret (lines_array ((cur @ t) # ms) [], length ms), p')"
      "holds_text s rs (pending (ssl p'))"
      "sent (ssl p') = sent (ssl r)" "same_server r p'" "webSocket p' = webSocket r" by auto
  with q r show ?thesis by (intro exI [of _ p']) (auto intro: same_server_trans)
qed

lemma read_too_many:
  assumes L: "openssl_behaves L pending sent" and len: "length ms = 13" and ok: "plain_text t" "cur \<noteq> []"
      "\<forall>l\<in>set ms. good_line l" "good_line m"
    and "holds_text (t @ CR # LF # crlf_lines ms @ m @ CR # s) rs (pending (ssl p))"
    and fits: "length (cur @ t) \<le> string_limit p" "\<forall>l\<in>set (m # ms). length l \<le> string_limit p"
  shows "\<exists>p'. read_lines L (lines_array [] cur) 0 p = Some (Undefined Out_of_bounds, p')
     \<and> sent (ssl p') = sent (ssl p)"
proof -
  have "cur @ t \<noteq> []" "length ([] :: string list) < 14" using ok by simp_all
  from read_one_line [OF L this(2) ok(1) this(1) assms(7) fits(1)] obtain q where
    q: "read_lines L (lines_array [] cur) 0 p = read_lines L (lines_array [cur @ t] []) (length [cur @ t]) q"
      "holds_text (crlf_lines ms @ m @ CR # s) rs (pending (ssl q))" "sent (ssl q) = sent (ssl p)"
      "string_limit q = string_limit p" by (auto simp: same_server_def)
  have "length [cur @ t] + length ms < 15" using len by simp
  from read_many_lines [OF L this ok(3) q(2)] fits(2) q(4) obtain r where
    r: "read_lines L (lines_array [cur @ t] []) (length [cur @ t]) q
        = read_lines L (lines_array ((cur @ t) # ms) []) (length ((cur @ t) # ms)) r"
      "holds_text (m @ CR # s) rs (pending (ssl r))" "sent (ssl r) = sent (ssl q)"
      "string_limit r = string_limit q" by (auto simp: same_server_def)
  have lt: "length ((cur @ t) # ms) < 15" using len by simp
  from ok(4) have m: "plain_text m" "m \<noteq> []" by (simp_all add: good_line_def)
  from read_text [OF L lt m(1) r(2), of "[]"] fits(2) q(4) r(4) obtain u where
    u: "read_lines L (lines_array ((cur @ t) # ms) []) (length ((cur @ t) # ms)) r
        = read_lines L (lines_array ((cur @ t) # ms) m) (length ((cur @ t) # ms)) u"
      "holds_text (CR # s) rs (pending (ssl u))" "sent (ssl u) = sent (ssl r)" by auto
  from read_CR [OF L lt u(2), of m] m(2) len obtain p' where
    "read_lines L (lines_array ((cur @ t) # ms) m) (length ((cur @ t) # ms)) u = Some (Undefined Out_of_bounds, p')"
    "sent (ssl p') = sent (ssl u)" by auto
  with q r u show ?thesis by (intro exI [of _ p']) auto
qed

section \<open>A request that does not end\<close>

text \<open>
  On a closed connection every read leaves the zero byte in the variable, which is appended
  to the line until the string cannot grow: then the process ends with an exception.
\<close>

lemma read_closed:
  assumes L: "openssl_behaves L pending sent" and "pending (ssl p) = []"
  shows "\<exists>p'. ssl_read L [0] 1 p = Some (Ret [0], p') \<and> pending (ssl p') = []
     \<and> sent (ssl p') = sent (ssl p) \<and> same_server p p'"
  using ssl_read_run [OF L, of 1 "[0]" p] assms(2) by (simp add: read_from_openssl [OF L] same_server_steps)

lemma char_byte_0: "char_byte (CHR 0x00) = 0"
  by (simp add: char_byte_def)

lemma read_lines_closed:
  assumes L: "openssl_behaves L pending sent" and "length ls < 15" and "pending (ssl p) = []"
  shows "exhausts sent (read_lines L (lines_array ls cur) (length ls) p) p"
  using assms(3)
proof (induction "string_limit p - length cur" arbitrary: cur p)
  case 0
  from read_closed [OF L 0(2)] obtain q where
    "ssl_read L [0] 1 p = Some (Ret [0], q)" "sent (ssl q) = sent (ssl p)" "same_server p q" by blast
  with 0(1) show ?case by (intro append_full [OF _ _ _ assms(2), of L p "CHR 0x00"]) (simp_all add: char_byte_0)
next
  case (Suc n)
  from read_closed [OF L Suc(3)] obtain q where
    q: "ssl_read L [0] 1 p = Some (Ret [char_byte (CHR 0x00)], q)" "pending (ssl q) = []"
      "sent (ssl q) = sent (ssl p)" "same_server p q" by (auto simp: char_byte_0)
  have limit: "string_limit q = string_limit p" using q(4) by (simp add: same_server_def)
  have "read_lines L (lines_array ls cur) (length ls) p
      = read_lines L (lines_array ls (cur @ [CHR 0x00])) (length ls) q"
    using Suc(2) [symmetric] assms(2) limit
    by (subst read_lines.simps) (auto simp: MaxHeaders_def q(1) length_lines_array Let_def)
  moreover have "exhausts sent (read_lines L (lines_array ls (cur @ [CHR 0x00])) (length ls) q) q"
    using Suc(2) limit by (intro Suc(1) q(2)) simp
  ultimately show ?case using q(3,4) by (auto intro: exhausts_step)
qed

text \<open>This is what happens whenever the text breaks off before the empty line.\<close>

lemma read_text_closed:
  assumes L: "openssl_behaves L pending sent" and "length ls < 15" and "plain_text t"
    and "holds_text t [] (pending (ssl p))" and "length cur \<le> string_limit p"
  shows "exhausts sent (read_lines L (lines_array ls cur) (length ls) p) p"
proof (cases "length (cur @ t) \<le> string_limit p")
  case True
  have "holds_text (t @ []) [] (pending (ssl p))" using assms(4) by simp
  from read_text [OF L assms(2,3) this True] obtain q where
    q: "read_lines L (lines_array ls cur) (length ls) p = read_lines L (lines_array ls (cur @ t)) (length ls) q"
      "pending (ssl q) = []" "sent (ssl q) = sent (ssl p)" "same_server p q" by auto
  from read_lines_closed [OF L assms(2) q(2)] q(1,3,4) show ?thesis by (auto intro: exhausts_step)
next
  case False
  with assms show ?thesis by (intro read_text_full [OF L, where s = "[]" and rs = "[]"]) (simp_all add: not_le)
qed

lemma read_CR_closed:
  assumes L: "openssl_behaves L pending sent" and "length ls < 14" and "plain_text t" and "cur @ t \<noteq> []"
    and "holds_text (t @ [CR]) [] (pending (ssl p))" and "length cur \<le> string_limit p"
  shows "exhausts sent (read_lines L (lines_array ls cur) (length ls) p) p"
proof (cases "length (cur @ t) \<le> string_limit p")
  case True
  from assms(2) have lt: "length ls < 15" by simp
  from read_text [OF L lt assms(3,5) True] obtain q where
    q: "read_lines L (lines_array ls cur) (length ls) p = read_lines L (lines_array ls (cur @ t)) (length ls) q"
      "holds_text [CR] [] (pending (ssl q))" "sent (ssl q) = sent (ssl p)" "same_server p q" by blast
  from read_CR [OF L lt q(2), of "cur @ t"] assms(2,4) obtain r where
    r: "read_lines L (lines_array ls (cur @ t)) (length ls) q
        = read_lines L (lines_array (ls @ [cur @ t]) []) (length (ls @ [cur @ t])) r" "pending (ssl r) = []"
      "sent (ssl r) = sent (ssl q)" "same_server q r" by auto
  from assms(2) have "length (ls @ [cur @ t]) < 15" by simp
  from read_lines_closed [OF L this r(2), of "[]"] have "exhausts sent (read_lines L (lines_array ls cur) (length ls) p) r"
    by (simp only: q(1) r(1))
  with q(3,4) r(3,4) show ?thesis by (blast intro: exhausts_step)
next
  case False
  with assms show ?thesis by (intro read_text_full [OF L, where s = "[CR]" and rs = "[]"]) (simp_all add: not_le)
qed

lemma read_broken_off:
  assumes L: "openssl_behaves L pending sent"
  shows "plain_text t \<Longrightarrow> cur @ t \<noteq> [] \<Longrightarrow> \<forall>l\<in>set ms. good_line l \<Longrightarrow> length ls + length ms < 14 \<Longrightarrow>
     t @ CR # LF # crlf_lines ms = s @ u \<Longrightarrow> holds_text s [] (pending (ssl p)) \<Longrightarrow> length cur \<le> string_limit p \<Longrightarrow>
     exhausts sent (read_lines L (lines_array ls cur) (length ls) p) p"
proof (induction ms arbitrary: t cur ls s p)
  note part = append_eq_append_conv2 Cons_eq_append_conv
  case Nil
  from Nil.prems(5) consider us where "t = s @ us" | "s = t @ [CR]" | "s = t @ [CR, LF]"
    by (auto simp: part)
  then show ?case
  proof cases
    case 1
    with Nil.prems show ?thesis by (intro read_text_closed [OF L]) auto
  next
    case 2
    with Nil.prems show ?thesis by (intro read_CR_closed [OF L]) auto
  next
    case 3
    from Nil.prems(4) have ls: "length ls < 14" by simp
    show ?thesis
    proof (cases "length (cur @ t) \<le> string_limit p")
      case True
      have "holds_text (t @ CR # LF # []) [] (pending (ssl p))" using Nil.prems(6) 3 by simp
      from read_one_line [OF L ls Nil.prems(1,2) this True] obtain q where
        q: "read_lines L (lines_array ls cur) (length ls) p
          = read_lines L (lines_array (ls @ [cur @ t]) []) (length (ls @ [cur @ t])) q" "pending (ssl q) = []"
          "sent (ssl q) = sent (ssl p)" "same_server p q" by auto
      from ls have "length (ls @ [cur @ t]) < 15" by simp
      from read_lines_closed [OF L this q(2)] q(1,3,4) show ?thesis by (auto intro: exhausts_step)
    next
      case False
      with Nil.prems 3 ls show ?thesis by (intro read_text_full [OF L, where s = "[CR, LF]" and rs = "[]"]) (simp_all add: not_le)
    qed
  qed
next
  note part = append_eq_append_conv2 Cons_eq_append_conv
  case (Cons m ms)
  from Cons.prems(4) have ls: "length ls < 14" by simp
  from Cons.prems(5) consider us where "t = s @ us" | "s = t @ [CR]"
    | s' where "s = t @ CR # LF # s'" "m @ CR # LF # crlf_lines ms = s' @ u"
    by (auto simp: part)
  then show ?case
  proof cases
    case 1
    with Cons.prems show ?thesis by (intro read_text_closed [OF L]) auto
  next
    case 2
    with Cons.prems show ?thesis by (intro read_CR_closed [OF L]) auto
  next
    case 3
    have broken: "holds_text (t @ CR # LF # s') [] (pending (ssl p))" using Cons.prems(6) 3(1) by simp
    show ?thesis
    proof (cases "length (cur @ t) \<le> string_limit p")
      case True
      from read_one_line [OF L ls Cons.prems(1,2) broken True] obtain q where
        q: "read_lines L (lines_array ls cur) (length ls) p
          = read_lines L (lines_array (ls @ [cur @ t]) []) (length (ls @ [cur @ t])) q" "holds_text s' [] (pending (ssl q))"
          "sent (ssl q) = sent (ssl p)" "same_server p q" by auto
      from Cons.prems(3,4) have m: "plain_text m" "[] @ m \<noteq> []" "\<forall>l\<in>set ms. good_line l" "length (ls @ [cur @ t]) + length ms < 14"
        by (auto simp: good_line_def)
      have "exhausts sent (read_lines L (lines_array (ls @ [cur @ t]) []) (length (ls @ [cur @ t])) q) q"
        by (rule Cons.IH [OF m 3(2) q(2)]) simp
      with q(1,3,4) show ?thesis by (auto intro: exhausts_step)
    next
      case False
      with Cons.prems broken ls show ?thesis by (intro read_text_full [OF L _ _ broken]) (simp_all add: not_le)
    qed
  qed
qed

section \<open>The handshake\<close>

text \<open>
  A request: the request line, the header lines and an empty line. The server looks at the
  headers \<open>headerLines[1]\<close> to \<open>headerLines[headers - 1]\<close>, where \<open>headers\<close> was decremented at
  the empty line, that is, at all header lines but the last.
\<close>

definition http_request :: "string \<Rightarrow> string list \<Rightarrow> string" where
  "http_request l0 ls = crlf_lines (l0 # ls) @ [CR, LF]"

definition good_request :: "string \<Rightarrow> string list \<Rightarrow> bool" where
  "good_request l0 ls \<longleftrightarrow> take 4 l0 = ''GET '' \<and> 10 \<le> length l0 \<and> plain_text l0
     \<and> (\<forall>l\<in>set ls. good_line l) \<and> length ls < 14"

definition no_headers :: handshake where
  "no_headers = \<lparr>hs_protocol = [], hs_key = [], hs_version = []\<rparr>"

definition seen_headers :: "string list \<Rightarrow> handshake" where
  "seen_headers ls = fold note_header (butlast ls) no_headers"

lemma fold_index: "fold (\<lambda>i. f (xs ! i)) [m..<m + length ys] s = fold f ys s"
  if "\<And>i. i < length ys \<Longrightarrow> xs ! (m + i) = ys ! i"
  using that
proof (induction ys arbitrary: m s)
  case Nil
  then show ?case by simp
next
  case (Cons y ys)
  have "xs ! m = y" using Cons.prems [of 0] by simp
  moreover have "fold (\<lambda>i. f (xs ! i)) [Suc m..<Suc m + length ys] (f y s) = fold f ys (f y s)"
    using Cons.prems [of "Suc _"] by (intro Cons.IH) simp
  moreover have "[m..<m + length (y # ys)] = m # [Suc m..<Suc m + length ys]"
    by (simp add: upt_conv_Cons del: upt_Suc)
  ultimately show ?case by (simp only: fold_simps)
qed

lemma scan_lines_array: "scan_headers (lines_array (l0 # ls) []) (length ls) = seen_headers ls"
proof -
  have "fold (\<lambda>i. note_header (lines_array (l0 # ls) [] ! i)) [1..<1 + length (butlast ls)] no_headers
      = fold note_header (butlast ls) no_headers"
    by (rule fold_index) (auto simp: lines_array_def nth_append nth_butlast)
  moreover have "[1..<length ls] = [1..<1 + length (butlast ls)]" by (cases ls rule: rev_cases) simp_all
  ultimately show ?thesis by (simp only: scan_headers_def seen_headers_def no_headers_def)
qed

lemma length_bytes_of_string [simp]: "length (bytes_of_string s) = length s"
  by (simp add: bytes_of_string_def)

lemma bytes_of_string_append [simp]: "bytes_of_string (s @ t) = bytes_of_string s @ bytes_of_string t"
  by (simp add: bytes_of_string_def)

lemma map_byte_char_bytes [simp]: "map byte_char (bytes_of_string s) = s"
  by (simp add: bytes_of_string_def comp_def)

lemma GET_prefix:
  assumes "take 4 s = ''GET ''" and "4 \<le> length s"
  shows "starts_with_GET (bytes_of_string s)"
proof -
  have "take 4 (bytes_of_string s) = map char_byte (take 4 s)" by (simp add: bytes_of_string_def take_map)
  also have "\<dots> = [0x47, 0x45, 0x54, 0x20]" unfolding assms(1) by (simp add: char_byte_def)
  finally show ?thesis using assms(2) by (simp add: starts_with_GET_iff)
qed

text \<open>What \<open>handleWebSocket\<close> does once the lines are there.\<close>

definition handshake_with :: "nat \<Rightarrow> 'c openssl \<Rightarrow> handshake \<Rightarrow> (unit, 'c) netprog" where
  "handshake_with BS L hs =
     (if hs_version hs \<noteq> ''13'' then
        fail (''Unsupported WebSocket version. Got: '' @ hs_version hs @ '', but we only support 13'')
      else if hs_protocol hs \<noteq> ''shepoo'' then
        fail (''Unsupported protocol. Got: '' @ hs_protocol hs @ '', but we only support shepoo'')
      else
        seqp (ssl_write_all L (bytes_of_string (handshake_answer (acceptKey L (hs_key hs)))))
        (bindp (local_bytes 3) (\<lambda>tmp.
        seqp (ssl_read L tmp 3)
        (seqp (modifyp (\<lambda>p. p\<lparr>webSocket := True\<rparr>))
        (handleWebSocketFrame BS L)))))"

lemma handleWebSocket_plain:
  assumes "plain_text s" and "length s \<le> string_limit p"
  shows "handleWebSocket BS L (bytes_of_string s) p =
     bindp (read_lines L (lines_array [] s) 0) (\<lambda>(headerLines, headers).
       handshake_with BS L (scan_headers headerLines headers)) p"
  using initial_lines_plain [OF assms(1), of "[]" "[]" p] assms(2)
  by (simp add: handleWebSocket_def lines_array_start handshake_with_def Let_def bindp_run)

lemma handleWebSocket_full:
  assumes "plain_text s" and "string_limit p < length s"
  shows "handleWebSocket BS L (bytes_of_string s) p = Some (Uncaught, p)"
  using initial_lines_full [OF assms(1), of "[]" "[]" p] assms(2)
  by (simp add: handleWebSocket_def lines_array_start bindp_run)

text \<open>
  The constructor asks for ten bytes and gets those of the first record; the rest of its buffer
  stays zero. The text is cut somewhere in its first line.
\<close>

lemma first_record_text:
  assumes "holds_text (l0 @ rest) rs ps" and "l0 \<noteq> []" and "10 \<le> length l0 \<or> rest = []"
  shows "\<exists>n \<le> length l0. n = min 10 (length (hd ps)) \<and> fst (tls_take 10 ps) = bytes_of_string (take n l0)
     \<and> holds_text (drop n l0 @ rest) rs (snd (tls_take 10 ps))"
proof -
  from assms(1) obtain pre where pre: "ps = pre @ rs" "[] \<notin> set pre" "concat pre = bytes_of_string l0 @ bytes_of_string rest"
    by (auto simp: holds_text_def bytes_of_string_def)
  with assms(2) obtain r pre' where r: "pre = r # pre'" by (cases pre) (auto simp: bytes_of_string_def)
  let ?n = "min 10 (length r)" and ?pre = "if length r \<le> 10 then pre' else drop 10 r # pre'"
  have le: "?n \<le> length l0"
  proof (cases "10 \<le> length l0")
    case False
    with assms(3) pre(3) r have "r @ concat pre' = bytes_of_string l0" by (simp add: bytes_of_string_def)
    then have "length r \<le> length l0" by (metis bytes_of_string_def length_append length_map le_add1)
    then show ?thesis by simp
  qed simp
  have "r @ concat pre' = bytes_of_string l0 @ bytes_of_string rest" using pre(3) r by simp
  then have cut: "take ?n (r @ concat pre') = bytes_of_string (take ?n l0)"
      "drop ?n (r @ concat pre') = bytes_of_string (drop ?n l0 @ rest)"
    using le by (simp_all add: bytes_of_string_def take_map drop_map)
  have tt: "tls_take 10 ps = (take ?n (r @ concat pre'), ?pre @ rs)"
    using pre(1,2) r by auto
  have "concat ?pre = drop ?n (r @ concat pre')" by simp
  then have "holds_text (drop ?n l0 @ rest) rs (?pre @ rs)"
    unfolding holds_text_def using pre(2) r cut(2) by (intro exI [of _ ?pre]) auto
  then show ?thesis
    unfolding tt fst_conv snd_conv cut(1) using le pre(1) r by (intro exI [of _ ?n]) simp
qed

lemma request_recognised:
  assumes L: "openssl_behaves L pending sent" and acc: "accepts L p"
    and start: "take 4 l0 = ''GET ''" "plain_text l0" "10 \<le> length l0 \<or> rest = []"
    and pend: "holds_text (l0 @ rest) rs (pending (ssl p))" and first: "4 \<le> length (hd (pending (ssl p)))"
  shows "\<exists>q cur t. SecNet_new BS L p = handleWebSocket BS L (bytes_of_string cur) q
     \<and> length cur = 10 \<and> length (cur @ t) \<le> length l0 + 6 \<and> plain_text cur \<and> plain_text t
     \<and> holds_text (t @ rest) rs (pending (ssl q)) \<and> sent (ssl q) = sent (ssl p) \<and> same_server p q"
proof -
  let ?a = "accepted L p" and ?b = "read_from L 10 (accepted L p)"
  have l0: "l0 \<noteq> []" using start(1) by auto
  from first_record_text [OF pend l0 start(3)] obtain n where n: "n \<le> length l0" "n = min 10 (length (hd (pending (ssl p))))"
      "fst (tls_take 10 (pending (ssl ?a))) = bytes_of_string (take n l0)"
      "holds_text (drop n l0 @ rest) rs (snd (tls_take 10 (pending (ssl ?a))))"
    by (auto simp: openssl_accepted [OF L])
  let ?cur = "take n l0 @ replicate (10 - n) (CHR 0x00)"
  have "overwrite (replicate 10 0) (bytes_of_string (take n l0)) = bytes_of_string ?cur"
    using n(1,2) by (simp add: overwrite_def bytes_of_string_def char_byte_def)
  then have header: "ssl_read L (replicate sizeof_Packet 0) (int sizeof_Packet) ?a = Some (Ret (bytes_of_string ?cur), ?b)"
    using ssl_read_run [OF L, of 10 "replicate sizeof_Packet 0" ?a] n(1-3)
    by (simp add: sizeof_Packet_def bytes_of_string_def)
  have four: "4 \<le> n" using n(2) first by simp
  then have "take 4 ?cur = ''GET ''" using start(1) n(1) by (simp add: min_def)
  then have get: "starts_with_GET (bytes_of_string ?cur)" using n(1) four by (intro GET_prefix) simp_all
  have plain: "plain_text ?cur" "plain_text (drop n l0)"
    using start(2) by (auto simp: plain_text_def dest: in_set_takeD in_set_dropD)
  have "SecNet_new BS L p = handleWebSocket BS L (bytes_of_string ?cur) ?b"
    unfolding SecNet_new_run [OF acc]
    by (rule bindp_step, rule header) (simp only: get if_True)
  moreover have "holds_text (drop n l0 @ rest) rs (pending (ssl ?b))" "sent (ssl ?b) = sent (ssl p)"
    using n(4) by (simp_all add: read_from_openssl [OF L] openssl_accepted [OF L])
  moreover have "same_server p ?b" by (rule same_server_trans [OF same_server_steps(2) same_server_steps(1)])
  moreover have "length ?cur = 10" "length (?cur @ drop n l0) \<le> length l0 + 6" using four n(1,2) by auto
  ultimately show ?thesis using plain by blast
qed

lemma request_prefix_read:
  assumes L: "openssl_behaves L pending sent" and acc: "accepts L p"
    and start: "take 4 l0 = ''GET ''" "plain_text l0" "10 \<le> length l0 \<or> rest = []"
    and pend: "holds_text (l0 @ rest) rs (pending (ssl p))" and first: "4 \<le> length (hd (pending (ssl p)))"
    and fits: "10 \<le> string_limit p"
  shows "\<exists>q cur t. SecNet_new BS L p = bindp (read_lines L (lines_array [] cur) 0) (\<lambda>(headerLines, headers).
          handshake_with BS L (scan_headers headerLines headers)) q
     \<and> length cur = 10 \<and> length (cur @ t) \<le> length l0 + 6 \<and> plain_text t \<and> holds_text (t @ rest) rs (pending (ssl q))
     \<and> sent (ssl q) = sent (ssl p) \<and> same_server p q"
proof -
  from request_recognised [OF L acc start pend first, of BS] obtain q cur t where
    q: "SecNet_new BS L p = handleWebSocket BS L (bytes_of_string cur) q" "length cur = 10"
      "length (cur @ t) \<le> length l0 + 6" "plain_text cur" "plain_text t"
      "holds_text (t @ rest) rs (pending (ssl q))" "sent (ssl q) = sent (ssl p)" "same_server p q" by blast
  have "length cur \<le> string_limit q" using q(2,8) fits by (simp add: same_server_def)
  from handleWebSocket_plain [OF q(4) this, of BS L] q show ?thesis by metis
qed

text \<open>
  From the first byte of the connection to the point where the headers have been scanned, in
  whatever records the request comes, as long as the first holds the four bytes that make it one.
\<close>

definition request_arrives :: "string \<Rightarrow> string list \<Rightarrow> u8 list list \<Rightarrow> u8 list list \<Rightarrow> bool" where
  "request_arrives l0 ls rs ps \<longleftrightarrow> holds_text (http_request l0 ls) rs ps \<and> 4 \<le> length (hd ps)"

lemma request_arrives_one:
  assumes "take 4 l0 = ''GET ''"
  shows "request_arrives l0 ls rs (bytes_of_string (http_request l0 ls) # rs)"
proof -
  have "4 \<le> length l0" using arg_cong [OF assms, of length] by simp
  then have "http_request l0 ls \<noteq> []" "4 \<le> length (http_request l0 ls)" by (simp_all add: http_request_def)
  then show ?thesis by (simp add: request_arrives_def holds_text_one bytes_of_string_def [THEN arg_cong, of length])
qed

text \<open>
  The strings can hold the lines. The first may have up to six zeros of the buffer in it, when the
  first record is shorter than a packet header.
\<close>

definition request_fits :: "nat \<Rightarrow> string \<Rightarrow> string list \<Rightarrow> bool" where
  "request_fits limit l0 ls \<longleftrightarrow> length l0 + 6 \<le> limit \<and> (\<forall>l\<in>set ls. length l \<le> limit)"

lemma request_scanned:
  assumes L: "openssl_behaves L pending sent" and acc: "accepts L p" and req: "good_request l0 ls"
    and pend: "request_arrives l0 ls rs (pending (ssl p))" and fits: "request_fits (string_limit p) l0 ls"
  shows "\<exists>p'. SecNet_new BS L p = handshake_with BS L (seen_headers ls) p'
     \<and> pending (ssl p') = [char_byte LF] # rs \<and> sent (ssl p') = sent (ssl p) \<and> same_server p p'"
proof -
  let ?rest = "CR # LF # crlf_lines ls @ CR # [LF]"
  from req have l0: "take 4 l0 = ''GET ''" "plain_text l0" "10 \<le> length l0 \<or> ?rest = []"
    and ls: "\<forall>l\<in>set ls. good_line l" "length ls < 14"
    by (auto simp: good_request_def)
  from pend have "holds_text (l0 @ ?rest) rs (pending (ssl p))" "4 \<le> length (hd (pending (ssl p)))"
    by (simp_all add: request_arrives_def http_request_def)
  moreover have "10 \<le> string_limit p" using fits req by (simp add: request_fits_def good_request_def)
  ultimately obtain q cur t where
    new: "SecNet_new BS L p = bindp (read_lines L (lines_array [] cur) 0) (\<lambda>(headerLines, headers).
          handshake_with BS L (scan_headers headerLines headers)) q"
    and t: "length cur = 10" "plain_text t" "length (cur @ t) \<le> length l0 + 6"
    and q: "holds_text (t @ ?rest) rs (pending (ssl q))" "sent (ssl q) = sent (ssl p)" "same_server p q"
    using request_prefix_read [OF L acc l0, of rs BS] by blast
  have "cur \<noteq> []" "length (cur @ t) \<le> string_limit q" "\<forall>l\<in>set ls. length l \<le> string_limit q"
    using t(1,3) q(3) fits by (auto simp: same_server_def request_fits_def)
  from read_request [OF L ls(2) t(2) this(1) ls(1) q(1) this(2,3)] obtain p' where
    rd: "read_lines L (lines_array [] cur) 0 q = Some (Ret (lines_array ((cur @ t) # ls) [], length ls), p')"
    and p': "holds_text [LF] rs (pending (ssl p'))" "sent (ssl p') = sent (ssl q)" "same_server q p'"
    by auto
  have "SecNet_new BS L p = handshake_with BS L (seen_headers ls) p'"
    unfolding new by (rule bindp_step, rule rd) (simp only: prod.case scan_lines_array)
  then show ?thesis
    using p' q same_server_trans holds_text_single [OF p'(1)] by auto
qed

lemma handshake_run:
  assumes L: "openssl_behaves L pending sent" and acc: "accepts L p" and req: "good_request l0 ls"
    and pend: "request_arrives l0 ls rs (pending (ssl p))" and fits: "request_fits (string_limit p) l0 ls"
    and good: "hs_version (seen_headers ls) = ''13''" "hs_protocol (seen_headers ls) = ''shepoo''"
  shows "\<exists>p1. SecNet_new BS L p = handleWebSocketFrame BS L p1 \<and> same_server p p1 \<and> webSocket p1
     \<and> pending (ssl p1) = rs
     \<and> sent (ssl p1) = sent (ssl p)
         @ bytes_of_string (handshake_answer (acceptKey L (hs_key (seen_headers ls))))"
proof -
  let ?ans = "bytes_of_string (handshake_answer (acceptKey L (hs_key (seen_headers ls))))"
  from request_scanned [OF L acc req pend fits, of BS] good obtain q where
    new: "SecNet_new BS L p =
         seqp (ssl_write_all L ?ans)
         (bindp (local_bytes 3) (\<lambda>tmp.
         seqp (ssl_read L tmp 3)
         (seqp (modifyp (\<lambda>p. p\<lparr>webSocket := True\<rparr>))
         (handleWebSocketFrame BS L)))) q"
    and q: "pending (ssl q) = [char_byte LF] # rs" "sent (ssl q) = sent (ssl p)" "same_server p q"
    by (auto simp: handshake_with_def)
  let ?r = "q\<lparr>ssl := SSL_write L (ssl q) (int (length ?ans)) ?ans\<rparr>"
  let ?s = "?r\<lparr>brk := Suc (brk ?r)\<rparr>"
  let ?t = "read_from L 3 ?s"
  let ?u = "?t\<lparr>webSocket := True\<rparr>"
  have s: "pending (ssl ?s) = [char_byte LF] # rs" "sent (ssl ?s) = sent (ssl q) @ ?ans"
    using q openssl_writeD [OF L] by simp_all
  have rd: "ssl_read L (junk ?r 3) 3 ?s = Some (Ret (overwrite (junk ?r 3) [char_byte LF]), ?t)"
    using ssl_read_run [OF L, of 3 "junk ?r 3" ?s] s(1) by simp
  have "SecNet_new BS L p = handleWebSocketFrame BS L ?u"
    unfolding new
    by (rule seqp_step, rule ssl_write_all_run, rule bindp_step, rule local_bytes_run,
        rule seqp_step, rule rd, rule seqp_step, rule modifyp_run, rule refl)
  moreover have "pending (ssl ?u) = rs" "sent (ssl ?u) = sent (ssl p) @ ?ans"
    using s q(2) by (simp_all add: read_from_openssl [OF L])
  moreover have "same_server p ?u"
    by (rule same_server_trans [OF q(3) same_server_trans [OF same_server_steps(4) same_server_trans
        [OF same_server_steps(3) same_server_trans [OF same_server_steps(1) same_server_steps(5)]]]])
  ultimately show ?thesis by (intro exI [of _ ?u]) simp
qed

end
