(* ===== verification/Network_Properties.thy ===== *)
theory Network_Properties
  imports SecNet_Handshake Sigslot_Properties Protocol_Properties
begin

text \<open>
  What a client of the server observes, over the documented behaviour of OpenSSL: served
  requests with and without WebSocket, refused ones, the headers that are looked at and the
  lengths of frames. The examples run on a TLS library that keeps the records of both directions.
\<close>

section \<open>An example connection\<close>

definition sample_tls :: "(u8 list list \<times> u8 list) openssl" where
  "sample_tls = \<lparr>SSL_new_fails = False, SSL_accept = (\<lambda>c. (1, c)),
     SSL_read = (\<lambda>c n. (fst (tls_take (nat n) (fst c)), (snd (tls_take (nat n) (fst c)), snd c))),
     SSL_write = (\<lambda>c n bs. (fst c, snd c @ bs)),
     SSL_shutdown = (\<lambda>c. c), SSL_free = (\<lambda>c. c), ERR_reported = (\<lambda>c. []),
     SHA1 = (\<lambda>bs. take 20 (bs @ replicate 20 0)), b64_ntop = (\<lambda>bs n. map byte_char (take n bs))\<rparr>"

lemma sample_tls_behaves: "openssl_behaves sample_tls fst snd"
  by (simp add: openssl_behaves_def sample_tls_def)

definition sample_proc :: "u8 list list \<Rightarrow> (u8 list list \<times> u8 list) proc" where
  "sample_proc rs = \<lparr>brk = 10, indet = (\<lambda>k i. 170), can_alloc = (\<lambda>n. True), string_limit = 4096,
     files = [''/blocks'' \<mapsto> sample_file, ''/log'' \<mapsto> []],
     fds = [5 \<mapsto> \<lparr>d_path = ''/log'', d_pos = 0, d_writable = True\<rparr>], fd_limit = 16, file_locks = [],
     conn_heap = [5 \<mapsto> \<lparr>m_pobject = 2, m_pmemfun = Protocol_packetReceived\<rparr>],
     m_connected_slots = [1 \<mapsto> [5], 3 \<mapsto> []], m_senders = [2 \<mapsto> [1], 4 \<mapsto> []],
     ssl = (rs, []), webSocket = False, sockets = [4, 3], serverSocket = 3,
     receivedPacket = 1, protocols = [2 \<mapsto> sample_storage],
     cout_buffer = Log_buffer 5, cout_good = True, printed = []\<rparr>"

lemma sample_proc_fields [simp]:
  "printed (sample_proc rs) = []" "cout_good (sample_proc rs)" "serverSocket (sample_proc rs) = 3"
  "cout_fd (sample_proc rs) = 5" "cout_target (sample_proc rs) = Some (Log_file ''/log'')" "brk (sample_proc rs) = 10"
  "ssl (sample_proc rs) = (rs, [])" "webSocket (sample_proc rs) = False" "can_alloc (sample_proc rs) n"
  "string_limit (sample_proc rs) = 4096"
  by (simp_all add: sample_proc_def cout_target_def cout_fd_def)

lemma sample_accepts: "accepts sample_tls (sample_proc rs)"
  by (simp add: accepts_def sample_tls_def)

lemma sample_proc_wired: "wired (sample_proc rs) sample_storage"
proof -
  have "consistent (sample_proc rs)"
    by (rule consistent_mono [OF sample_consistent [of Protocol_packetReceived]])
      (simp_all add: links_def sample_def sample_proc_def)
  then show ?thesis by (simp add: wired_def sample_proc_def)
qed

lemma sample_proc_serves: "serves (sample_proc rs) 4 sample_storage sample_file"
  by (rule serves_cong [OF sample_serves])
    (simp_all add: sample_machine_def sample_proc_def sample_storage_def free_fd_first)

lemma sample_blocks:
  "blocks_of 4 sample_storage sample_file 1 = Some [5, 6, 7, 8]"
  "blocks_of 4 sample_storage sample_file 2 = None"
  by (simp_all add: blocks_of_def isBlockAvailable_offset block_offset_exact sample_storage_def
      block_at_def sample_file_def)

section \<open>Served requests\<close>

text \<open>
  A client that sends one well-formed request without WebSocket gets exactly the bytes
  of the answer, and then its process ends. Whether the answer is framed depends on what
  the uninitialised \<open>_webSocket\<close> happens to hold.
\<close>

lemma raw_request_served:
  assumes L: "openssl_behaves L pending sent" and acc: "accepts L p"
    and server: "wired p st" "serves p BS st content" "request_ok BS r" "BS < 2 ^ 31"
      "answerable (blocks_of BS st content) r"
    and arr: "arrives (pending (ssl p)) [bytes_of_Packet (request_packet r), request_payload r] rs"
    and len: "length (request_payload r) \<le> 134217728" and alloc: "can_alloc p (length (request_payload r))"
  shows "\<exists>p'. serve_client BS L p = Some (Exit (-1), p')
     \<and> sent (ssl p') = sent (ssl p) @ answer_bytes BS (blocks_of BS st content) (webSocket p) r
     \<and> pending (ssl p') = rs"
proof -
  from raw_packet_delivered [OF L acc arr unat_request_length [OF len, symmetric] request_length_max [OF len]
      request_packet_not_GET alloc]
  obtain p1 where new: "SecNet_new BS L p = emit_receivedPacket BS L (request_packet r) (request_payload r) p1"
    and p1: "same_server p p1" "webSocket p1 = webSocket p" "pending (ssl p1) = rs" "sent (ssl p1) = sent (ssl p)"
    by blast
  from request_served [OF p1(1) L server, where rest = "[]"] obtain p' where
    "emit_receivedPacket BS L (request_packet r) (request_payload r) p1 = Some (Ret (), p')"
    "sent_more pending sent (answer_bytes BS (blocks_of BS st content) (webSocket p1) r) (ssl p1) (ssl p')"
    by auto
  with new p1 show ?thesis
    by (intro exI [of _ p']) (simp add: serve_client_def prog_simps sent_more_def)
qed

lemma raw_request_served_witness:
  "\<exists>p'. serve_client 4 sample_tls
        (sample_proc [bytes_of_Packet (request_packet (Read_block 1)), be_of_word 1]) = Some (Exit (-1), p')
     \<and> snd (ssl p') = bytes_of_Packet \<lparr>version = 1, command = 5, payloadLength = 4\<rparr> @ [5, 6, 7, 8]"
proof -
  let ?rs = "[bytes_of_Packet (request_packet (Read_block 1)), be_of_word 1]"
  have "[] \<notin> set ?rs"
    using packet.length_enc [of "request_packet (Read_block 1)"] length_be_of_word [of 1]
    by (auto simp del: length_be_of_word)
  then have "arrives ?rs ?rs []" using arrives_records [of ?rs "[]"] by simp
  then have "\<exists>p'. serve_client 4 sample_tls (sample_proc ?rs) = Some (Exit (-1), p')
     \<and> snd (ssl p') = snd (ssl (sample_proc ?rs))
         @ answer_bytes 4 (blocks_of 4 sample_storage sample_file) (webSocket (sample_proc ?rs)) (Read_block 1)
     \<and> fst (ssl p') = []"
    by (intro raw_request_served [OF sample_tls_behaves sample_accepts sample_proc_wired sample_proc_serves])
      (simp_all add: answerable_def sample_blocks del: arrives.simps)
  then show ?thesis by (auto simp: answer_bytes_def sample_blocks data_of_def wire_bytes_def)
qed

definition sample_request_line :: string where
  "sample_request_line = ''GET /shepoo HTTP/1.1''"

definition sample_headers :: "string list" where
  "sample_headers = [''Sec-WebSocket-Version: 13'', ''Sec-WebSocket-Protocol: shepoo'',
     ''Sec-WebSocket-Key: x'', ''Host: h'']"

lemma sample_request_good: "good_request sample_request_line sample_headers"
  by (simp add: good_request_def good_line_def plain_text_def sample_request_line_def sample_headers_def)

lemma sample_headers_seen:
  "hs_version (seen_headers sample_headers) = ''13''" "hs_protocol (seen_headers sample_headers) = ''shepoo''"
  by (simp_all add: seen_headers_def sample_headers_def no_headers_def note_header_def headerName_def headerContent_def)

lemma sample_request_fits: "request_fits 4096 sample_request_line sample_headers"
  by (simp add: request_fits_def sample_request_line_def sample_headers_def)

definition sample_frame_header :: WebSocketFrameHeader where
  "sample_frame_header = \<lparr>opcode = 2, rsvd = 0, fin = 1, payloadLen = 18, maskFlag = 1\<rparr>"

text \<open>
  A WebSocket client that asks for the protocol \<open>shepoo\<close> in version 13 gets the
  handshake answer with the accept key of its own key, and the framed answer to the request
  in its first frame; masked or not, with any of the three lengths of the length field.
\<close>

lemma websocket_request_served:
  assumes L: "openssl_behaves L pending sent" and acc: "accepts L p" and req: "good_request l0 ls"
    and pend: "request_arrives l0 ls frames (pending (ssl p))" and fits: "request_fits (string_limit p) l0 ls"
    and good: "hs_version (seen_headers ls) = ''13''" "hs_protocol (seen_headers ls) = ''shepoo''"
    and server: "wired p st" "serves p BS st content" "request_ok BS r" "BS < 2 ^ 31"
      "answerable (blocks_of BS st content) r"
    and frame: "announces h len" "length key = 4" "opcode h = 2"
      "arrives frames (frame_chunks h len key (masked h key (bytes_of_Packet (request_packet r) @ request_payload r))) rs"
      "10 + length (request_payload r) = unat len" "unat len < 2 ^ 31"
    and alloc: "can_alloc p (unat len + 1)"
  shows "\<exists>p'. serve_client BS L p = Some (Exit (-1), p')
     \<and> sent (ssl p') = sent (ssl p)
         @ bytes_of_string (handshake_answer (acceptKey L (hs_key (seen_headers ls))))
         @ answer_bytes BS (blocks_of BS st content) True r"
proof -
  from handshake_run [OF L acc req pend fits good, of BS] obtain p1 where
    p1: "SecNet_new BS L p = handleWebSocketFrame BS L p1" "same_server p p1" "webSocket p1"
      "pending (ssl p1) = frames"
      "sent (ssl p1) = sent (ssl p) @ bytes_of_string (handshake_answer (acceptKey L (hs_key (seen_headers ls))))"
    by blast
  have alloc1: "can_alloc p1 (unat len + 1)" using p1(2) alloc by (simp add: same_server_def)
  from frame_request_runs [OF L same_server_wired [OF p1(2) server(1)] same_server_serves [OF p1(2) server(2)]
      server(3-5) frame(1-3) frame(4) [folded p1(4)] frame(5,6) alloc1] p1 show ?thesis
    by (auto simp: serve_client_def seqp_run)
qed

lemma websocket_request_served_witness:
  "\<exists>p'. serve_client 4 sample_tls (sample_proc
        [bytes_of_string (http_request sample_request_line sample_headers),
         bytes_of_header sample_frame_header, [1, 2, 3, 4],
         masked sample_frame_header [1, 2, 3, 4] (bytes_of_Packet (request_packet (Is_available 1)) @ be_of_word 1)])
       = Some (Exit (-1), p')
     \<and> snd (ssl p') = bytes_of_string (handshake_answer (acceptKey sample_tls ''x''))
         @ wire_bytes True \<lparr>version = 1, command = 7, payloadLength = 0\<rparr> []"
proof -
  let ?body = "masked sample_frame_header [1, 2, 3, 4] (bytes_of_Packet (request_packet (Is_available 1)) @ be_of_word 1)"
  let ?frames = "[bytes_of_header sample_frame_header, [1, 2, 3, 4], ?body]"
  let ?p = "sample_proc (bytes_of_string (http_request sample_request_line sample_headers) # ?frames)"
  have "[] \<notin> set ?frames"
    using frame_header.length_enc [of sample_frame_header]
      length_masked [of sample_frame_header "[1, 2, 3, 4]" "bytes_of_Packet (request_packet (Is_available 1)) @ be_of_word 1"]
    by (auto simp: packet.length_enc simp del: length_masked)
  then have "arrives ?frames ?frames []" using arrives_records [of ?frames "[]"] by simp
  then have arr: "arrives ?frames (frame_chunks sample_frame_header 18 [1, 2, 3, 4] ?body) []"
    by (simp add: frame_chunks_def length_bytes_def sample_frame_header_def del: arrives.simps(2))
      (simp add: arrives.simps(2))
  have "\<exists>p'. serve_client 4 sample_tls ?p = Some (Exit (-1), p')
     \<and> snd (ssl p') = snd (ssl ?p)
         @ bytes_of_string (handshake_answer (acceptKey sample_tls (hs_key (seen_headers sample_headers))))
         @ answer_bytes 4 (blocks_of 4 sample_storage sample_file) True (Is_available 1)"
    by (rule websocket_request_served [OF sample_tls_behaves sample_accepts sample_request_good _ _ sample_headers_seen
        sample_proc_wired sample_proc_serves _ _ _ _ _ _ arr [unfolded request_payload.simps(5) [symmetric]]])
      (simp_all add: answerable_def announces_def sample_frame_header_def request_arrives_one sample_request_line_def sample_request_fits [unfolded sample_request_line_def])
  moreover have "hs_key (seen_headers sample_headers) = ''x''"
    by (simp add: seen_headers_def sample_headers_def no_headers_def note_header_def headerName_def headerContent_def)
  ultimately show ?thesis by (simp add: answer_bytes_def sample_blocks data_of_def)
qed

section \<open>Refused clients\<close>

text \<open>A line a process prints after steps that left its console alone.\<close>

lemma printed_after:
  assumes "same_server p q" and "serverSocket p \<noteq> cout_fd p" and "cout_good p" and "cout_target p = Some t"
  shows "printed (said msg q) = printed p @ [(t, msg)]"
proof -
  have "cout_good q" "cout_target q = Some t" "printed q = printed p"
    using assms same_server_target [OF assms(1,2)] by (simp_all add: same_server_def)
  then show ?thesis by (simp add: printed_said)
qed

lemma serve_oversize_packet:
  assumes L: "openssl_behaves L pending sent" and acc: "accepts L p"
    and arr: "arrives (pending (ssl p)) [bytes_of_Packet q] rs"
    and max: "MAX_PACKET_PAYLOAD_SIZE < payloadLength q" and get: "\<not> starts_with_GET (bytes_of_Packet q)"
  shows "\<exists>p'. serve_client BS L p = Some (Exit (-1), said (too_large (payloadLength q)) p')
     \<and> same_server p p' \<and> brk p' = brk p \<and> sent (ssl p') = sent (ssl p)"
proof -
  let ?a = "accepted L p" and ?b = "read_from L (int sizeof_Packet) (accepted L p)"
  have arr': "arrives (pending (ssl ?a)) [bytes_of_Packet q] rs"
    using arr by (simp add: openssl_accepted [OF L])
  have header: "ssl_read L (replicate sizeof_Packet 0) (int sizeof_Packet) ?a = Some (Ret (bytes_of_Packet q), ?b)"
    using ssl_read_chunk(1) [OF L arr', of "replicate sizeof_Packet 0"]
    by (simp add: packet.length_enc sizeof_Packet_def)
  have "SecNet_new BS L p = Some (Exit (-1), said (too_large (payloadLength q)) ?b)"
    unfolding SecNet_new_run [OF acc]
    by (rule bindp_step, rule header) (use get max in \<open>simp add: packet.dec_enc fail_run\<close>)
  moreover have "same_server p ?b" by (rule same_server_trans [OF same_server_steps(2) same_server_steps(1)])
  ultimately show ?thesis
    by (intro exI [of _ ?b]) (simp add: serve_client_def prog_simps read_from_openssl [OF L] openssl_accepted [OF L])
qed

lemma too_large_example:
  "too_large 134217729 = ''Client wanted to send data with payload size 134217729 but we only handle a maximum of 134217728.''"
proof -
  have "decimal 134217729 = ''134217729''" "decimal 134217728 = ''134217728''"
    by (simp_all add: decimal_def digits.simps digit_char_def)
  then show ?thesis by (simp add: too_large_def MAX_PACKET_PAYLOAD_SIZE_def)
qed

text \<open>
  C24: a packet header that arrives whole and directly over TLS, not in a WebSocket frame and not taken
  for an HTTP request, and announces more than the maximum payload ends the process before any
  memory is allocated for it, with a message that names both sizes, and nothing is sent. Frames
  have no such limit.
\<close>

theorem oversize_packet_refused:
  assumes L: "openssl_behaves L pending sent" and acc: "accepts L p"
    and arr: "arrives (pending (ssl p)) [bytes_of_Packet q] rs"
    and max: "MAX_PACKET_PAYLOAD_SIZE < payloadLength q" and get: "\<not> starts_with_GET (bytes_of_Packet q)"
  shows "\<exists>p'. serve_client BS L p = Some (Exit (-1), said (too_large (payloadLength q)) p')
     \<and> same_server p p' \<and> brk p' = brk p \<and> sent (ssl p') = sent (ssl p)"
  by (rule serve_oversize_packet [OF assms])

theorem oversize_packet_refused_witness:
  "\<exists>p'. serve_client 4 sample_tls
       (sample_proc [bytes_of_Packet \<lparr>version = 1, command = 2, payloadLength = 134217729\<rparr>]) = Some (Exit (-1), p')
     \<and> brk p' = 10 \<and> printed p' = [(Log_file ''/log'', ''Client wanted to send data with payload size 134217729''
          @ '' but we only handle a maximum of 134217728.'')]"
proof -
  let ?q = "\<lparr>version = 1, command = 2, payloadLength = 134217729\<rparr>"
  let ?p = "sample_proc [bytes_of_Packet ?q]"
  have "bytes_of_Packet ?q \<noteq> []" by (simp add: bytes_of_Packet_def)
  then have "arrives (fst (ssl ?p)) [bytes_of_Packet ?q] []" by simp
  moreover have "\<not> starts_with_GET (bytes_of_Packet ?q)"
    by (simp add: first_byte_not_GET bytes_of_Packet_def le64.length_enc)
  ultimately have "\<exists>p'. serve_client 4 sample_tls ?p = Some (Exit (-1), said (too_large (payloadLength ?q)) p')
      \<and> same_server ?p p' \<and> brk p' = brk ?p \<and> snd (ssl p') = snd (ssl ?p)"
    by (intro oversize_packet_refused [OF sample_tls_behaves sample_accepts]) (simp_all add: MAX_PACKET_PAYLOAD_SIZE_def)
  then obtain p' where p': "serve_client 4 sample_tls ?p = Some (Exit (-1), said (too_large (payloadLength ?q)) p')"
    "same_server ?p p'" "brk p' = brk ?p" by blast
  from printed_after [OF p'(2)] have "printed (said (too_large 134217729) p') = [(Log_file ''/log'', too_large 134217729)]"
    by simp
  then show ?thesis using p' by (simp add: too_large_example)
qed

definition frame_complaint :: "WebSocketFrameHeader \<Rightarrow> u8 list \<Rightarrow> string" where
  "frame_complaint h plain =
     (if opcode h \<noteq> 2 then ''We only support binary packages!''
      else if length plain < 10 then ''WebSocket Payload must contain at least one Shepoo Packet Header''
      else if fin h = 0 then ''Fragmented WebSocket message!''
      else ''WebSocket frame truncated but not fragmented!'')"

text \<open>
  C22: a frame of less than \<open>2 ^ 31\<close> bytes that arrives whole, for which memory can be allocated, and is not binary, too short for a
  packet header, or shorter than its packet announces, ends the process with the message for the
  first of these faults; no slot has run and nothing has been sent. The announced length counts
  as too large only when its sum with the ten bytes of the header does not wrap around.
\<close>

theorem bad_frame_refused:
  assumes L: "openssl_behaves L pending sent" and ann: "announces h len" and key: "length key = 4"
    and arr: "arrives (pending (ssl p)) (frame_chunks h len key (masked h key plain)) rs"
    and plain: "length plain = unat len" and small: "unat len < 2 ^ 31" and alloc: "can_alloc p (unat len + 1)"
    and bad: "bad_frame h plain"
  shows "\<exists>p'. handleWebSocketFrame BS L p = Some (Exit (-1), said (frame_complaint h plain) p')
     \<and> same_server p p' \<and> sent (ssl p') = sent (ssl p)"
proof -
  let ?q = "Packet_of_bytes (take sizeof_Packet (plain @ [0]))"
  have "len < of_nat sizeof_Packet \<longleftrightarrow> length plain < 10" by (simp add: word_less_nat_alt plain)
  moreover have "opcode h \<noteq> 2 \<or> len < of_nat sizeof_Packet \<or> len < of_nat sizeof_Packet + payloadLength ?q"
  proof (rule ccontr)
    assume "\<not> ?thesis"
    then have op: "opcode h = 2" and long: "\<not> len < of_nat sizeof_Packet"
      and whole: "\<not> len < of_nat sizeof_Packet + payloadLength ?q" by blast+
    have ten: "10 \<le> length plain" using long plain by (simp add: word_less_nat_alt)
    then have q: "take sizeof_Packet (plain @ [0]) = take 10 plain" by (simp add: sizeof_Packet_def)
    from bad op ten have "unat len < 10 + unat (payloadLength ?q)" "10 + unat (payloadLength ?q) < 2 ^ 64"
      unfolding q by (auto simp: bad_frame_def Let_def plain)
    then have "len < of_nat sizeof_Packet + payloadLength ?q"
      unfolding word_less_nat_alt by (subst unat_add_small) auto
    with whole show False by blast
  qed
  ultimately show ?thesis
    using frame_read [OF L ann key arr plain small alloc, of BS]
    by (auto simp: Let_def fail_run frame_complaint_def)
qed

theorem bad_frame_refused_witness:
  "\<exists>p'. handleWebSocketFrame 4 sample_tls
       (sample_proc [bytes_of_header \<lparr>opcode = 1, rsvd = 0, fin = 1, payloadLen = 2, maskFlag = 0\<rparr>, [104, 105]])
       = Some (Exit (-1), p') \<and> snd (ssl p') = [] \<and> printed p' = [(Log_file ''/log'', ''We only support binary packages!'')]"
proof -
  let ?h = "\<lparr>opcode = 1, rsvd = 0, fin = 1, payloadLen = 2, maskFlag = 0\<rparr>"
  let ?p = "sample_proc [bytes_of_header ?h, [104, 105]]"
  have "bytes_of_header ?h \<noteq> []" using frame_header.length_enc [of ?h] by auto
  then have arr: "arrives (fst (ssl ?p)) (frame_chunks ?h 2 [0, 0, 0, 0] (masked ?h [0, 0, 0, 0] [104, 105])) []"
    by (simp add: frame_chunks_def length_bytes_def masked_def)
  have "\<exists>p'. handleWebSocketFrame 4 sample_tls ?p = Some (Exit (-1), said (frame_complaint ?h [104, 105]) p')
     \<and> same_server ?p p' \<and> snd (ssl p') = snd (ssl ?p)"
    by (rule bad_frame_refused [OF sample_tls_behaves _ _ arr])
      (simp_all add: announces_def bad_frame_def)
  then obtain p' where p': "handleWebSocketFrame 4 sample_tls ?p = Some (Exit (-1), said (frame_complaint ?h [104, 105]) p')"
    "same_server ?p p'" "snd (ssl p') = []" by auto
  with printed_after [OF p'(2), of "Log_file ''/log''" "frame_complaint ?h [104, 105]"] show ?thesis
    by (simp add: frame_complaint_def)
qed

definition handshake_complaint :: "handshake \<Rightarrow> string" where
  "handshake_complaint hs =
     (if hs_version hs \<noteq> ''13''
      then ''Unsupported WebSocket version. Got: '' @ hs_version hs @ '', but we only support 13''
      else ''Unsupported protocol. Got: '' @ hs_protocol hs @ '', but we only support shepoo'')"

text \<open>
  C23: a handshake with another version or another protocol, whose lines the memory can hold, ends
  the process without an answer, with a message that repeats what the client sent.
\<close>

theorem unsupported_handshake_refused:
  assumes L: "openssl_behaves L pending sent" and acc: "accepts L p" and req: "good_request l0 ls"
    and pend: "request_arrives l0 ls rs (pending (ssl p))"
    and fits: "request_fits (string_limit p) l0 ls"
    and bad: "hs_version (seen_headers ls) \<noteq> ''13'' \<or> hs_protocol (seen_headers ls) \<noteq> ''shepoo''"
  shows "\<exists>p'. serve_client BS L p = Some (Exit (-1), said (handshake_complaint (seen_headers ls)) p')
     \<and> sent (ssl p') = sent (ssl p) \<and> same_server p p'"
  using request_scanned [OF L acc req pend fits, of BS] bad
  by (auto simp: serve_client_def handshake_with_def handshake_complaint_def seqp_run fail_run split: if_splits)

theorem unsupported_handshake_refused_witness:
  "\<exists>p'. serve_client 4 sample_tls
       (sample_proc [bytes_of_string (http_request sample_request_line [])]) = Some (Exit (-1), p')
     \<and> snd (ssl p') = []
     \<and> printed p' = [(Log_file ''/log'', ''Unsupported WebSocket version. Got: , but we only support 13'')]"
proof -
  let ?p = "sample_proc [bytes_of_string (http_request sample_request_line [])]"
  have "good_request sample_request_line []"
    using sample_request_good by (simp add: good_request_def)
  then have "\<exists>p'. serve_client 4 sample_tls ?p = Some (Exit (-1), said (handshake_complaint (seen_headers [])) p')
     \<and> snd (ssl p') = snd (ssl ?p) \<and> same_server ?p p'"
    by (rule unsupported_handshake_refused [OF sample_tls_behaves sample_accepts, where rs = "[]"])
      (simp_all add: seen_headers_def no_headers_def request_arrives_one sample_request_line_def request_fits_def)
  then obtain p' where p': "serve_client 4 sample_tls ?p = Some (Exit (-1), said (handshake_complaint (seen_headers [])) p')"
    "snd (ssl p') = []" "same_server ?p p'" by auto
  with printed_after [OF p'(3), of "Log_file ''/log''" "handshake_complaint (seen_headers [])"] show ?thesis
    by (simp add: handshake_complaint_def seen_headers_def no_headers_def)
qed

section \<open>The headers of a request\<close>

text \<open>
  A request as a list of header fields, and the reference for the scanner: the value of the last
  field of a name, among all fields but the last of the request.
\<close>

definition field_line :: "string \<times> string \<Rightarrow> string" where
  "field_line f = fst f @ '': '' @ snd f"

definition good_field :: "string \<times> string \<Rightarrow> bool" where
  "good_field f \<longleftrightarrow> plain_text (fst f) \<and> plain_text (snd f) \<and> CHR '':'' \<notin> set (fst f)"

definition field_value :: "(string \<times> string) list \<Rightarrow> string \<Rightarrow> string" where
  "field_value fs name = (case map_of (rev fs) name of None \<Rightarrow> [] | Some v \<Rightarrow> v)"

definition fields_handshake :: "(string \<times> string) list \<Rightarrow> handshake" where
  "fields_handshake fs = \<lparr>hs_protocol = field_value fs ''Sec-WebSocket-Protocol'',
     hs_key = field_value fs ''Sec-WebSocket-Key'', hs_version = field_value fs ''Sec-WebSocket-Version''\<rparr>"

lemma header_of_field:
  assumes "good_field f"
  shows "headerName (field_line f) = fst f" "headerContent (field_line f) = snd f"
proof -
  have "takeWhile (\<lambda>c. c \<noteq> CHR '':'') (fst f @ CHR '':'' # t) = fst f" for t
    using assms by (subst takeWhile_append2) (auto simp: good_field_def)
  then show "headerName (field_line f) = fst f" by (simp add: headerName_def field_line_def)
  then show "headerContent (field_line f) = snd f" by (simp add: headerContent_def) (simp add: field_line_def)
qed

lemma field_value_snoc: "field_value (fs @ [f]) n = (if fst f = n then snd f else field_value fs n)"
  by (cases f) (simp add: field_value_def)

lemma scan_fields:
  "\<forall>f\<in>set fs. good_field f \<Longrightarrow> fold note_header (map field_line fs) no_headers = fields_handshake fs"
proof (induction fs rule: rev_induct)
  case Nil
  then show ?case by (simp add: no_headers_def fields_handshake_def field_value_def)
next
  case (snoc f fs)
  then show ?case
    by (simp add: note_header_def header_of_field fields_handshake_def field_value_snoc)
qed

text \<open>
  C27: the scanner, which collects the bytes of a request in an array of fifteen strings while it
  waits for the empty line, does what the reference does with the list of fields: it goes on with
  the values of the fields, all of them but the last. The request line has at least ten characters,
  there are at most thirteen fields, each a name, a colon, a blank and a value, the lines fit into
  memory, and the request comes in any TLS records of which the first is at least four bytes long.
\<close>

theorem scanner_reads_fields:
  assumes L: "openssl_behaves L pending sent" and acc: "accepts L p"
    and l0: "take 4 l0 = ''GET ''" "10 \<le> length l0" "plain_text l0"
    and fs: "\<forall>f\<in>set fs. good_field f" "length fs < 14"
    and pend: "request_arrives l0 (map field_line fs) rs (pending (ssl p))"
    and fits: "request_fits (string_limit p) l0 (map field_line fs)"
  shows "\<exists>p'. SecNet_new BS L p = handshake_with BS L (fields_handshake (butlast fs)) p'
     \<and> pending (ssl p') = [char_byte LF] # rs \<and> sent (ssl p') = sent (ssl p) \<and> same_server p p'"
proof -
  have "\<forall>f\<in>set (butlast fs). good_field f" using fs(1) by (auto dest: in_set_butlastD)
  then have "seen_headers (map field_line fs) = fields_handshake (butlast fs)"
    by (simp add: seen_headers_def scan_fields flip: map_butlast)
  moreover have "good_line (field_line f)" if "f \<in> set fs" for f
    using fs(1) that by (auto simp: good_field_def good_line_def field_line_def)
  then have "good_request l0 (map field_line fs)" using l0 fs(2) by (simp add: good_request_def)
  ultimately show ?thesis using request_scanned [OF L acc _ pend fits, of BS] by simp
qed

theorem scanner_reads_fields_witness:
  "\<exists>p'. SecNet_new 4 sample_tls (sample_proc [bytes_of_string (http_request sample_request_line
         [''Sec-WebSocket-Version: 8'', ''Sec-WebSocket-Version: 13'', ''Sec-WebSocket-Key: x''])])
     = handshake_with 4 sample_tls \<lparr>hs_protocol = [], hs_key = [], hs_version = ''13''\<rparr> p'"
proof -
  let ?fs = "[(''Sec-WebSocket-Version'', ''8''), (''Sec-WebSocket-Version'', ''13''), (''Sec-WebSocket-Key'', ''x'')]"
  let ?p = "sample_proc [bytes_of_string (http_request sample_request_line (map field_line ?fs))]"
  have "request_arrives sample_request_line (map field_line ?fs) [] (fst (ssl ?p))"
    by (simp only: sample_proc_fields fst_conv) (rule request_arrives_one, simp add: sample_request_line_def)
  from scanner_reads_fields [OF sample_tls_behaves sample_accepts _ _ _ _ _ this, of 4] show ?thesis
    by (auto simp: sample_request_line_def good_field_def field_line_def fields_handshake_def field_value_def request_fits_def)
qed

section \<open>Frames in both directions\<close>

text \<open>
  The length the server puts in front of an answer is the one its own frame reader
  finds there, for every length: the reader of \<open>handleWebSocketFrame\<close> undoes \<open>sendPacket\<close>.
\<close>

lemma frame_prefix_read_back:
  assumes L: "openssl_behaves L pending sent"
    and arr: "arrives (pending (ssl p)) [length_bytes (answer_header len) len] rs"
  shows "frame_prefix len = bytes_of_header (answer_header len) @ length_bytes (answer_header len) len
     \<and> (\<exists>p'. read_payloadLength L (header_of_bytes (bytes_of_header (answer_header len))) p = Some (Ret len, p')
           \<and> pending (ssl p') = rs)"
proof -
  have "unat len < 126 \<Longrightarrow> len = ucast (ucast len :: 7 word)"
    by (intro word_unat_eq_iff [THEN iffD2]) (simp add: unsigned_ucast_eq take_bit_eq_mod unat_mod)
  moreover have "unat len < 126 \<Longrightarrow> (ucast len :: 7 word) \<noteq> 126 \<and> (ucast len :: 7 word) \<noteq> 127"
  proof -
    assume small: "unat len < 126"
    have "unat (ucast len :: 7 word) = unat len"
      using small by (simp add: unsigned_ucast_eq take_bit_eq_mod unat_mod)
    with small show ?thesis by auto
  qed
  ultimately have ann: "announces (answer_header len) len"
    by (auto simp: announces_def answer_header_def word_less_nat_alt)
  from read_payloadLength_run [OF L ann arr] show ?thesis
    by (auto simp: frame_prefix_def length_bytes_def frame_header.dec_enc)
qed

lemma frame_prefix_read_back_witness:
  "\<exists>p'. read_payloadLength sample_tls (header_of_bytes (bytes_of_header (answer_header 300)))
       (sample_proc [le_of_word (300 :: u16)]) = Some (Ret 300, p')"
proof -
  have "le_of_word (300 :: u16) \<noteq> []" using le16.length_enc [of 300] by auto
  then have "arrives (fst (ssl (sample_proc [le_of_word (300 :: u16)]))) [length_bytes (answer_header 300) 300] []"
    by (simp add: length_bytes_def answer_header_def)
  from frame_prefix_read_back [OF sample_tls_behaves this] show ?thesis by blast
qed

text \<open>
  RFC 6455 has the length of a frame in network byte order: the seven bits of the second byte, or
  two or eight bytes after it, the highest first.
\<close>

definition rfc_length :: "u8 list \<Rightarrow> u64" where
  "rfc_length bs =
     (let n = bs ! 1 AND mask 7 in
      if n < 126 then ucast n
      else if n = 126 then ucast (word_of_le (rev (take 2 (drop 2 bs))) :: u16)
      else word_of_le (rev (take 8 (drop 2 bs))))"

lemma second_byte: "bytes_of_header (answer_header len) ! 1 AND mask 7 = ucast (payloadLen (answer_header len))"
proof -
  have "(ucast w :: u8) AND mask 7 = ucast w" for w :: "7 word"
    by (rule bit_word_eqI) (auto simp: bit_and_iff bit_mask_iff bit_unsigned_iff dest: bit_imp_le_length)
  then show ?thesis by (simp add: bytes_of_header_layout answer_header_def)
qed

definition same_in_network_order :: "u64 \<Rightarrow> bool" where
  "same_in_network_order len \<longleftrightarrow> len < 126
   \<or> len < 65535 \<and> rev (le_of_word (ucast len :: u16)) = le_of_word (ucast len :: u16)
   \<or> 65535 \<le> len \<and> rev (le_of_word len) = le_of_word len"

lemma prefix_byte_order: "rfc_length (frame_prefix len @ rest) = len \<longleftrightarrow> same_in_network_order len"
proof -
  let ?h = "answer_header len"
  obtain a b where h: "bytes_of_header ?h = [a, b]"
    using frame_header.length_enc [of ?h] by (auto simp: length_Suc_conv numeral_2_eq_2)
  with second_byte [of len] have b: "b AND mask 7 = ucast (payloadLen ?h)" by simp
  have n: "unat (b AND mask 7) = (if len < 126 then unat len else if len < 65535 then 126 else 127)"
  proof -
    have "unat (ucast w :: u8) = unat w" for w :: "7 word"
      using unsigned_less [of w, where 'a = nat] by (simp add: unsigned_ucast_eq take_bit_nat_eq_self)
    moreover have "unat (ucast len :: 7 word) = unat len" if "len < 126"
      using that by (simp add: unsigned_ucast_eq take_bit_eq_mod unat_mod word_less_nat_alt)
    ultimately show ?thesis unfolding b by (simp add: answer_header_def)
  qed
  have rev16: "word_of_le (rev bs) = w \<longleftrightarrow> rev bs = le_of_word w" if "length bs = 2" for bs and w :: u16
    using that le16.dec_enc [of w] le16.enc_dec [of "rev bs"] by auto
  have rev64: "word_of_le (rev bs) = w \<longleftrightarrow> rev bs = le_of_word w" if "length bs = 8" for bs and w :: u64
    using that le64.dec_enc [of w] le64.enc_dec [of "rev bs"] by auto
  consider "len < 126" | "126 \<le> len" "len < 65535" | "65535 \<le> len" by (meson not_le)
  then show ?thesis
  proof cases
    case 1
    then have "b AND mask 7 < 126" "unat (ucast (b AND mask 7) :: u64) = unat len"
      using n by (simp_all add: word_less_nat_alt unsigned_ucast_eq take_bit_nat_eq_self)
    with 1 h show ?thesis by (simp add: same_in_network_order_def rfc_length_def frame_prefix_def word_unat_eq_iff)
  next
    case 2
    then have range: "\<not> len < 126" "\<not> 65535 \<le> len" by (simp_all add: not_less not_le)
    with 2 have byte: "b AND mask 7 = 126" using n by (simp add: word_unat_eq_iff)
    have "payloadLen ?h = 126" using 2 range by (simp add: answer_header_def)
    then have "rfc_length (frame_prefix len @ rest) = ucast (word_of_le (rev (le_of_word (ucast len :: u16))) :: u16)"
      using h byte le16.length_enc [of "ucast len"] by (simp add: rfc_length_def frame_prefix_def)
    moreover have "unat len = unat (ucast len :: u16)"
      using 2 by (simp add: unsigned_ucast_eq take_bit_eq_mod word_less_nat_alt)
    then have "ucast w = len \<longleftrightarrow> w = ucast len" for w :: u16
      using unsigned_less [of w, where 'a = nat]
      by (simp add: word_unat_eq_iff unsigned_ucast_eq [of w] take_bit_nat_eq_self)
    ultimately show ?thesis
      using 2 range rev16 [of "le_of_word (ucast len :: u16)" "ucast len"] le16.length_enc [of "ucast len"]
      by (simp add: same_in_network_order_def)
  next
    case 3
    then have range: "\<not> len < 126" "\<not> len < 65535" by (simp_all add: word_less_nat_alt word_le_nat_alt)
    then have byte: "b AND mask 7 = 127" using n by (simp add: word_unat_eq_iff)
    have "payloadLen ?h = 127" using range by (simp add: answer_header_def)
    then have "rfc_length (frame_prefix len @ rest) = word_of_le (rev (le_of_word len))"
      using h byte le64.length_enc [of len] by (simp add: rfc_length_def frame_prefix_def)
    with 3 range rev64 [of "le_of_word len" len] le64.length_enc [of len] show ?thesis
      by (simp add: same_in_network_order_def)
  qed
qed

text \<open>
  C26: \<open>sendPacket\<close> writes the length of a frame in the byte order of the server's machine. A WebSocket
  client that follows the RFC finds the length that was meant exactly when it is short enough
  for the second byte, or its bytes are the same in both orders. With blocks of 4096 bytes the
  answer to a read is announced as 2576 bytes instead of 4106.
\<close>

theorem answer_length_byte_order:
  assumes L: "openssl_behaves L pending sent" and ws: "webSocket p" and d: "payload_matches packet d"
  shows "\<exists>p' frame. sendPacket L packet d p = Some (Ret (), p') \<and> sent (ssl p') = sent (ssl p) @ frame
     \<and> (rfc_length frame = of_nat sizeof_Packet + payloadLength packet
          \<longleftrightarrow> same_in_network_order (of_nat sizeof_Packet + payloadLength packet))"
proof -
  from sendPacket_run [OF L d, of p] ws obtain c' where
    "sendPacket L packet d p = Some (Ret (), p\<lparr>ssl := c'\<rparr>)"
    "sent c' = sent (ssl p) @ frame_prefix (of_nat sizeof_Packet + payloadLength packet) @ bytes_of_Packet packet @ data_of d"
    by (auto simp: sent_more_def wire_bytes_def)
  then show ?thesis
    by (intro exI [of _ "p\<lparr>ssl := c'\<rparr>"] exI) (auto simp: prefix_byte_order)
qed

theorem answer_length_byte_order_witness:
  "\<exists>p' frame. sendPacket sample_tls \<lparr>version = 1, command = 5, payloadLength = 4096\<rparr> (Some (replicate 4096 0))
        ((sample_proc [])\<lparr>webSocket := True\<rparr>) = Some (Ret (), p')
     \<and> snd (ssl p') = frame \<and> rfc_length frame \<noteq> 4106"
proof -
  have "le_bytes 2 4106 = [10, 16]" by (simp only: numeral_2_eq_2 le_bytes.simps) simp
  then have "\<not> same_in_network_order 4106" by (simp add: same_in_network_order_def le_of_word_def)
  moreover have "of_nat sizeof_Packet + 4096 = (4106 :: u64)" by (simp add: sizeof_Packet_def)
  moreover have "payload_matches \<lparr>version = 1, command = 5, payloadLength = 4096\<rparr> (Some (replicate 4096 0))"
    by (simp add: payload_matches_def)
  from answer_length_byte_order [OF sample_tls_behaves _ this, of "(sample_proc [])\<lparr>webSocket := True\<rparr>"]
  have "\<exists>p' frame. sendPacket sample_tls \<lparr>version = 1, command = 5, payloadLength = 4096\<rparr> (Some (replicate 4096 0))
        ((sample_proc [])\<lparr>webSocket := True\<rparr>) = Some (Ret (), p')
     \<and> snd (ssl p') = frame \<and> (rfc_length frame = of_nat sizeof_Packet + 4096
          \<longleftrightarrow> same_in_network_order (of_nat sizeof_Packet + 4096))" by simp
  ultimately show ?thesis by auto
qed

text \<open>
  With blocks of 4096 bytes the answer to a read is announced as 2576 bytes to such a client.
\<close>

lemma default_block_announced: "rfc_length (frame_prefix 4106) = 2576"
proof -
  have "(126 :: u8) AND mask 7 = 126" by (simp add: mask_eq_exp_minus_1)
  moreover have "le_bytes 2 4106 = [10, 16]" by (simp only: numeral_2_eq_2 le_bytes.simps) simp
  then have "le_of_word (4106 :: u16) = [10, 16]" by (simp add: le_of_word_def)
  moreover have "word_of_le [16, 10] = (2576 :: u16)" by (simp add: word_of_le_def)
  ultimately show ?thesis
    by (simp add: rfc_length_def frame_prefix_def answer_header_def bytes_of_header_layout Let_def)
qed

end
