(* ===== verification/Network_Limits.thy ===== *)
theory Network_Limits
  imports Network_Properties
begin

text \<open>
  What a client can send that the server cannot cope with: requests that crash its process, make
  it read or write outside its buffers, or use up its memory.
\<close>

section \<open>Inputs the server cannot cope with\<close>

text \<open>
  C32: a read of a block the server does not have is answered with a header that announces a
  block, and then the null pointer is handed to \<open>SSL_write\<close>.
\<close>

theorem unavailable_read_crashes:
  assumes L: "openssl_behaves L pending sent" and acc: "accepts L p"
    and server: "wired p st" "serves p BS st content" and BS: "0 < BS" "BS < 2 ^ 31"
    and none: "blocks_of BS st content n = None"
    and arr: "arrives (pending (ssl p)) [bytes_of_Packet (request_packet (Read_block n)), be_of_word n] rs"
    and alloc: "can_alloc p 8"
  shows "\<exists>p'. serve_client BS L p = Some (Undefined Null_pointer, p')
     \<and> sent (ssl p') = sent (ssl p)
         @ wire_bytes (webSocket p) \<lparr>version = 1, command = 5, payloadLength = of_nat BS\<rparr> []"
proof -
  from raw_packet_delivered [OF L acc arr _ request_length_max request_packet_not_GET] alloc
  obtain p1 where new: "SecNet_new BS L p = emit_receivedPacket BS L (request_packet (Read_block n)) (be_of_word n) p1"
    and p1: "same_server p p1" "webSocket p1 = webSocket p" "sent (ssl p1) = sent (ssl p)"
    by (auto simp: request_packet_def)
  from unavailable_read [OF L same_server_wired [OF p1(1) server(1)] same_server_serves [OF p1(1) server(2)]
      BS none, where rest = "[]"] new p1
  show ?thesis by (auto simp: serve_client_def seqp_run sent_more_def)
qed

theorem unavailable_read_crashes_witness:
  "\<exists>p'. serve_client 4 sample_tls
        (sample_proc [bytes_of_Packet (request_packet (Read_block 2)), be_of_word 2])
       = Some (Undefined Null_pointer, p')
     \<and> snd (ssl p') = bytes_of_Packet \<lparr>version = 1, command = 5, payloadLength = 4\<rparr>"
proof -
  let ?rs = "[bytes_of_Packet (request_packet (Read_block 2)), be_of_word 2]"
  have "[] \<notin> set ?rs"
    using packet.length_enc [of "request_packet (Read_block 2)"] length_be_of_word [of 2]
    by (auto simp del: length_be_of_word)
  then have "arrives ?rs ?rs []" using arrives_records [of ?rs "[]"] by simp
  then have "\<exists>p'. serve_client 4 sample_tls (sample_proc ?rs) = Some (Undefined Null_pointer, p')
     \<and> snd (ssl p') = snd (ssl (sample_proc ?rs))
         @ wire_bytes (webSocket (sample_proc ?rs)) \<lparr>version = 1, command = 5, payloadLength = of_nat 4\<rparr> []"
    by (intro unavailable_read_crashes [OF sample_tls_behaves sample_accepts sample_proc_wired sample_proc_serves])
      (simp_all add: sample_blocks del: arrives.simps)
  then show ?thesis by (simp add: wire_bytes_def)
qed

text \<open>
  C36: a frame of length \<open>2 ^ 64 - 1\<close>: the allocation of one byte more wraps around to no
  byte at all, and the terminating zero is written far outside.
\<close>

theorem longest_frame_overflows:
  assumes L: "openssl_behaves L pending sent" and h: "payloadLen h = 127" and key: "length key = 4"
    and arr: "arrives (pending (ssl p))
      [bytes_of_header h, le_of_word (-1 :: u64), if maskFlag h \<noteq> 0 then key else []] rs"
    and alloc: "can_alloc p 0"
  shows "\<exists>p'. handleWebSocketFrame BS L p = Some (Undefined Out_of_bounds, p')"
proof -
  from ssl_read_field [OF L arr, of "replicate 2 0" 2] obtain p1 where
    r1: "ssl_read L (replicate 2 0) 2 p = Some (Ret (bytes_of_header h), p1)"
    and a1: "arrives (pending (ssl p1)) [le_of_word (-1 :: u64), if maskFlag h \<noteq> 0 then key else []] rs"
    and s1: "same_server p p1"
    by (auto simp: frame_header.length_enc)
  have ann: "announces h (-1)" using h by (simp add: announces_def)
  have a1': "arrives (pending (ssl p1)) [length_bytes h (-1), if maskFlag h \<noteq> 0 then key else []] rs"
    using a1 h by (simp add: length_bytes_def)
  from read_payloadLength_run [OF L ann a1'] obtain p2 where
    r2: "read_payloadLength L h p1 = Some (Ret (-1), p2)"
    and a2: "arrives (pending (ssl p2)) [if maskFlag h \<noteq> 0 then key else []] rs"
    and s2: "same_server p1 p2" by blast
  from read_key_run [OF L key a2] obtain p3 k where
    r3: "(if maskFlag h \<noteq> 0 then ssl_read L (replicate 4 0) 4 else returnp (replicate 4 0)) p2 = Some (Ret k, p3)"
    and s3: "same_server p2 p3" by blast
  have "can_alloc p3 0" using s1 s2 s3 alloc by (simp add: same_server_def)
  then have r4: "new_bytes (unat (-1 + 1 :: u64)) p3 = Some (Ret (junk p3 0), p3\<lparr>brk := Suc (brk p3)\<rparr>)"
    by (simp add: new_bytes_run)
  have "handleWebSocketFrame BS L p = Some (Undefined Out_of_bounds, p3\<lparr>brk := Suc (brk p3)\<rparr>)"
    unfolding handleWebSocketFrame_def
    by (rule bindp_step, rule r1, simp only: Let_def frame_header.dec_enc, rule bindp_step, rule r2,
        rule bindp_step, rule r3, rule bindp_step, rule r4) simp
  then show ?thesis by blast
qed

theorem longest_frame_overflows_witness:
  "\<exists>p'. handleWebSocketFrame 4 sample_tls
       (sample_proc [bytes_of_header \<lparr>opcode = 2, rsvd = 0, fin = 1, payloadLen = 127, maskFlag = 0\<rparr>,
          le_of_word (-1 :: u64)])
       = Some (Undefined Out_of_bounds, p')"
proof -
  let ?h = "\<lparr>opcode = 2, rsvd = 0, fin = 1, payloadLen = 127, maskFlag = 0\<rparr>"
  let ?rs = "[bytes_of_header ?h, le_of_word (-1 :: u64)]"
  have "[] \<notin> set ?rs"
    using frame_header.length_enc [of ?h] le64.length_enc [of "-1"] by auto
  then have "arrives ?rs ?rs []" using arrives_records [of ?rs "[]"] by simp
  then have arr: "arrives (fst (ssl (sample_proc ?rs)))
      [bytes_of_header ?h, le_of_word (-1 :: u64), if maskFlag ?h \<noteq> 0 then [0, 0, 0, 0] else []] []"
    by simp
  show ?thesis
    by (rule longest_frame_overflows [OF sample_tls_behaves _ _ arr]) simp_all
qed



text \<open>
  C31: a client whose request the server has recognised, by a first record of at least four bytes,
  and that closes the connection before the empty line of its HTTP request, among the first
  fourteen lines but anywhere in them (none of them empty, the request line of at least ten
  characters), makes its process fill a string with zero bytes until the string cannot grow: the process ends with an uncaught exception, and the client gets nothing.
\<close>

theorem unfinished_request_exhausts_memory:
  assumes L: "openssl_behaves L pending sent" and acc: "accepts L p"
    and l0: "take 4 l0 = ''GET ''" "10 \<le> length l0" "plain_text l0"
    and ls: "\<forall>l\<in>set ls. good_line l" "length ls < 14"
    and cut: "crlf_lines (l0 # ls) = s @ u" "s \<noteq> []"
    and pend: "holds_text s [] (pending (ssl p))" "4 \<le> length (hd (pending (ssl p)))"
  shows "\<exists>p'. serve_client BS L p = Some (Uncaught, p') \<and> sent (ssl p') = sent (ssl p) \<and> same_server p p'"
proof -
  have four: "4 \<le> length s" using holds_text_first_length [OF pend(1)] cut(2) pend(2) by simp
  obtain l rest where start: "take 4 l = ''GET ''" "plain_text l" "10 \<le> length l \<or> rest = []" "s = l @ rest"
    and open_end: "rest = [] \<or> CR # LF # crlf_lines ls = rest @ u"
  proof (cases "length s \<le> length l0")
    case True
    with cut(1) have s: "s = take (length s) l0" by (auto simp: append_eq_append_conv2)
    then have "take 4 s = take 4 l0" using four by (metis min.absorb1 take_take)
    moreover from s have "set s \<subseteq> set l0" by (metis set_take_subset)
    ultimately show ?thesis using l0 by (intro that [of s "[]"]) (auto simp: plain_text_def)
  next
    case False
    with cut(1) obtain rest where "s = l0 @ rest" "CR # LF # crlf_lines ls = rest @ u"
      by (auto simp: append_eq_append_conv2)
    with l0 show ?thesis by (intro that [of l0 rest]) simp_all
  qed
  have broken: "holds_text (l @ rest) [] (pending (ssl p))" using pend(1) start(4) by simp
  show ?thesis
  proof (cases "10 \<le> string_limit p")
    case True
    from request_prefix_read [OF L acc start(1-3) broken pend(2) True, of BS] obtain q cur t where
      q: "SecNet_new BS L p = bindp (read_lines L (lines_array [] cur) 0) (\<lambda>(headerLines, headers).
          handshake_with BS L (scan_headers headerLines headers)) q"
        "length cur = 10" "plain_text t" "holds_text (t @ rest) [] (pending (ssl q))"
        "sent (ssl q) = sent (ssl p)" "same_server p q" by blast
    have "string_limit q = string_limit p" using q(6) by (simp add: same_server_def)
    with q(2) True have fits: "length cur \<le> string_limit q" by simp
    have "cur \<noteq> []" using q(2) by (intro notI) simp
    have "exhausts sent (read_lines L (lines_array [] cur) (length ([] :: string list)) q) q"
      using open_end
    proof
      assume "rest = []"
      with q(4) fits show ?thesis by (intro read_text_closed [OF L _ q(3)]) simp_all
    next
      assume "CR # LF # crlf_lines ls = rest @ u"
      then show ?thesis
        using ls(2) fits \<open>cur \<noteq> []\<close> by (intro read_broken_off [OF L q(3) _ ls(1) _ _ q(4), where u = u]) simp_all
    qed
    with q(1,5,6) show ?thesis
      by (auto simp: exhausts_def serve_client_def seqp_def bindp_def intro: same_server_trans)
  next
    case False
    from request_recognised [OF L acc start(1-3) broken pend(2), of BS] obtain q cur where
      q: "SecNet_new BS L p = handleWebSocket BS L (bytes_of_string cur) q" "length cur = 10" "plain_text cur"
        "sent (ssl q) = sent (ssl p)" "same_server p q" by blast
    have "string_limit q < length cur" using q(2,5) False by (simp add: same_server_def)
    from handleWebSocket_full [OF q(3) this, of BS L] q(1,4,5) show ?thesis
      by (auto simp: serve_client_def seqp_def bindp_def)
  qed
qed

theorem unfinished_request_exhausts_memory_witness:
  "\<exists>p'. serve_client 4 sample_tls
     (sample_proc [bytes_of_string ''GET /'', bytes_of_string (drop 5 sample_request_line @ [CR, LF] @ ''Host'')])
       = Some (Uncaught, p') \<and> snd (ssl p') = []"
proof -
  let ?rs = "[bytes_of_string ''GET /'', bytes_of_string (drop 5 sample_request_line @ [CR, LF] @ ''Host'')]"
  have cut: "crlf_lines [sample_request_line, ''Host: h''] = (sample_request_line @ [CR, LF] @ ''Host'') @ ('': h'' @ [CR, LF])"
    by simp
  have pend: "holds_text (sample_request_line @ [CR, LF] @ ''Host'') [] (fst (ssl (sample_proc ?rs)))"
    unfolding holds_text_def
    by (intro exI [of _ ?rs]) (simp add: sample_request_line_def bytes_of_string_def)
  from unfinished_request_exhausts_memory [OF sample_tls_behaves sample_accepts _ _ _ _ _ cut _ pend, of 4] show ?thesis
    by (auto simp: sample_request_line_def plain_text_def good_line_def)
qed

text \<open>
  C34: a request with more than fourteen lines before the empty one, which the memory can hold, makes
  the server write behind the array of header lines, whatever the headers are.
\<close>

theorem long_request_overflows:
  assumes L: "openssl_behaves L pending sent" and acc: "accepts L p"
    and first: "take 4 l0 = ''GET ''" "10 \<le> length l0" "plain_text l0"
    and ls: "\<forall>l\<in>set ls. good_line l" "14 \<le> length ls"
    and pend: "request_arrives l0 ls rs (pending (ssl p))" and fits: "request_fits (string_limit p) l0 ls"
  shows "\<exists>p'. serve_client BS L p = Some (Undefined Out_of_bounds, p') \<and> sent (ssl p') = sent (ssl p)"
proof -
  let ?ms = "take 13 ls" and ?m = "ls ! 13"
  let ?rest = "CR # LF # crlf_lines ?ms @ ?m @ CR # (LF # crlf_lines (drop 14 ls) @ [CR, LF])"
  have parts: "ls = ?ms @ ?m # drop 14 ls"
    using ls(2) id_take_nth_drop [of 13 ls] by simp
  have "crlf_lines ls = crlf_lines (?ms @ ?m # drop 14 ls)" using parts by simp
  also have "\<dots> = crlf_lines ?ms @ ?m @ CR # LF # crlf_lines (drop 14 ls)"
    by (simp add: crlf_lines_def)
  finally have "http_request l0 ls = l0 @ ?rest"
    by (simp add: http_request_def)
  with pend have "holds_text (l0 @ ?rest) rs (pending (ssl p))" "4 \<le> length (hd (pending (ssl p)))"
    by (simp_all add: request_arrives_def)
  moreover have "10 \<le> string_limit p" using fits first(2) by (simp add: request_fits_def)
  ultimately obtain q cur t where
    new: "SecNet_new BS L p = bindp (read_lines L (lines_array [] cur) 0) (\<lambda>(headerLines, headers).
          handshake_with BS L (scan_headers headerLines headers)) q" "length cur = 10" "plain_text t"
      "length (cur @ t) \<le> length l0 + 6"
    and q: "holds_text (t @ ?rest) rs (pending (ssl q))" "sent (ssl q) = sent (ssl p)" "same_server p q"
    using request_prefix_read [OF L acc first(1,3), of ?rest rs BS] first(2) by blast
  have ms: "length ?ms = 13" "\<forall>l\<in>set ?ms. good_line l" "good_line ?m"
    using ls by (auto dest: in_set_takeD)
  have "cur \<noteq> []" "length (cur @ t) \<le> string_limit q" "\<forall>l\<in>set (?m # ?ms). length l \<le> string_limit q"
    using new(2,4) q(3) fits ls(2) by (auto simp: same_server_def request_fits_def dest: in_set_takeD)
  from read_too_many [OF L ms(1) new(3) this(1) ms(2,3) q(1) this(2,3)] obtain p' where
    "read_lines L (lines_array [] cur) 0 q = Some (Undefined Out_of_bounds, p')" "sent (ssl p') = sent (ssl q)"
    by blast
  then show ?thesis using q(2) by (simp add: serve_client_def seqp_def bindp_def new(1))
qed

theorem long_request_overflows_witness:
  "\<exists>p'. serve_client 4 sample_tls
       (sample_proc [bytes_of_string (http_request sample_request_line (replicate 14 ''Accept: a''))])
       = Some (Undefined Out_of_bounds, p')"
  using long_request_overflows [OF sample_tls_behaves sample_accepts, of sample_request_line "replicate 14 ''Accept: a''" "[]"
      "[bytes_of_string (http_request sample_request_line (replicate 14 ''Accept: a''))]" 4]
  by (auto simp: request_arrives_one sample_request_line_def plain_text_def good_line_def request_fits_def)

text \<open>
  The last header line of a request is never looked at: the headers the server acts on
  are those of the request without its last line, whatever that line says.
\<close>

lemma last_header_ignored:
  "scan_headers (lines_array (l0 # ls @ [l]) []) (length (ls @ [l]))
     = fold note_header ls \<lparr>hs_protocol = [], hs_key = [], hs_version = []\<rparr>"
  using scan_lines_array [of l0 "ls @ [l]"] by (simp add: seen_headers_def no_headers_def)

text \<open>
  C33: a payload that comes in two TLS records is only half read: the handler runs on the
  first part and on what the allocated memory held before.
\<close>

theorem split_payload_half_read:
  assumes L: "openssl_behaves L pending sent" and acc: "accepts L p"
    and arr: "arrives (pending (ssl p)) [bytes_of_Packet q] (part # rs)"
    and part: "part \<noteq> []" "length part < unat (payloadLength q)"
    and max: "payloadLength q \<le> MAX_PACKET_PAYLOAD_SIZE"
    and get: "\<not> starts_with_GET (bytes_of_Packet q)" and alloc: "can_alloc p (unat (payloadLength q))"
  shows "\<exists>p1. SecNet_new BS L p
       = emit_receivedPacket BS L q (part @ drop (length part) (junk p (unat (payloadLength q)))) p1
     \<and> same_server p p1 \<and> pending (ssl p1) = rs"
proof -
  let ?n = "unat (payloadLength q)"
  let ?b = "read_from L (int sizeof_Packet) (accepted L p)"
  let ?c = "?b\<lparr>brk := Suc (brk ?b)\<rparr>"
  let ?d = "read_from L (int ?n) ?c"
  have small: "?n < 2 ^ 31"
    using max by (simp add: MAX_PACKET_PAYLOAD_SIZE_def word_le_nat_alt)
  have arr': "arrives (pending (ssl (accepted L p))) [bytes_of_Packet q] (part # rs)"
    using arr by (simp add: openssl_accepted [OF L])
  have header: "ssl_read L (replicate sizeof_Packet 0) (int sizeof_Packet) (accepted L p) = Some (Ret (bytes_of_Packet q), ?b)"
    and left: "pending (ssl ?c) = part # rs"
    using ssl_read_chunk [OF L arr', of "replicate sizeof_Packet 0"]
    by (simp_all add: packet.length_enc sizeof_Packet_def)
  have junk: "junk ?b ?n = junk p ?n" by (simp add: junk_def accepted_def)
  have new: "new_bytes ?n ?b = Some (Ret (junk p ?n), ?c)"
    using alloc by (simp add: new_bytes_run junk)
  have tt: "tls_take ?n (pending (ssl ?c)) = (part, rs)" using left part by simp
  have data: "ssl_read L (junk p ?n) (int_argument (payloadLength q)) ?c
      = Some (Ret (part @ drop (length part) (junk p ?n)), ?d)"
    using ssl_read_run [OF L, of "int ?n" "junk p ?n" ?c] tt
    by (simp add: int_argument_small [OF small] overwrite_def)
  have "SecNet_new BS L p = emit_receivedPacket BS L q (part @ drop (length part) (junk p ?n)) ?d"
    unfolding SecNet_new_run [OF acc]
    by (rule bindp_step, rule header, simp only: get if_False Let_def packet.dec_enc leD [OF max],
        rule bindp_step, rule new, rule bindp_step, rule data, rule refl)
  moreover have "pending (ssl ?d) = rs" using tt by (simp add: read_from_openssl [OF L])
  moreover have "same_server p ?d"
    by (rule same_server_trans [OF same_server_trans [OF same_server_trans]], rule same_server_steps(2),
        rule same_server_steps(1), rule same_server_steps(3), rule same_server_steps(1))
  ultimately show ?thesis by blast
qed

theorem split_payload_half_read_witness:
  "\<exists>p1. SecNet_new 4 sample_tls (sample_proc [bytes_of_Packet (request_packet (Read_block 0)), [0, 0, 0], [0, 0, 0, 0, 0]])
       = emit_receivedPacket 4 sample_tls (request_packet (Read_block 0)) [0, 0, 0, 170, 170, 170, 170, 170] p1"
proof -
  let ?q = "request_packet (Read_block 0)"
  let ?p = "sample_proc [bytes_of_Packet ?q, [0, 0, 0], [0, 0, 0, 0, 0]]"
  have "bytes_of_Packet ?q \<noteq> []" by (simp add: bytes_of_Packet_def)
  then have arr: "arrives (fst (ssl ?p)) [bytes_of_Packet ?q] ([0, 0, 0] # [[0, 0, 0, 0, 0]])" by simp
  have "\<exists>p1. SecNet_new 4 sample_tls ?p
       = emit_receivedPacket 4 sample_tls ?q ([0, 0, 0] @ drop (length [0, 0, 0 :: u8]) (junk ?p (unat (payloadLength ?q)))) p1
     \<and> same_server ?p p1 \<and> fst (ssl p1) = [[0, 0, 0, 0, 0]]"
    by (rule split_payload_half_read [OF sample_tls_behaves sample_accepts arr _ _ _ request_packet_not_GET])
      (simp_all add: request_packet_def MAX_PACKET_PAYLOAD_SIZE_def)
  moreover have "unat (payloadLength ?q) = 8" by (simp add: request_packet_def)
  moreover have "drop 3 (junk ?p 8) = [170, 170, 170, 170, 170]"
    by (simp add: junk_def sample_proc_def map_replicate_const) (simp add: numeral_eq_Suc)
  moreover have "length [0, 0, 0 :: u8] = 3" by simp
  ultimately show ?thesis by (simp only: append.simps) blast
qed

end
