(* ===== verification/Server.thy ===== *)
theory Server
  imports SecNet
begin

text \<open>
  \<open>SecNet::Initialize\<close> and \<open>SecNet::ListenLoop\<close>: the listening process. It is a process with
  the same objects as the ones it forks, and in addition the address it listens on and the
  children it has started. What OpenSSL and the kernel answer are
  parameters.
\<close>

section \<open>The listening process\<close>

record sockaddr_in6 =
  sin6_family :: nat
  sin6_port :: u16
  sin6_addr :: "u8 list"

text \<open>
  \<open>children\<close> are the processes that were forked, with their process ids and the runs they
  make; nothing waits for them. A run that ends in \<open>Undefined\<close> is known up to the undefined access
  only; what such a process does then, to the file or to others, is not described. \<open>client_names\<close> are the buffers allocated for the printed
  addresses; nothing frees them.
\<close>

record 'c server = "'c proc" +
  listening :: bool
  bound :: "sockaddr_in6 option"
  children :: "(int \<times> (unit outcome \<times> 'c proc) option) list"
  client_names :: "nat list"

type_synonym ('a, 'c, 'z) serverprog = "('a, ('c, 'z) server_scheme) prog"

section \<open>What the environment answers\<close>

text \<open>
  What the calls of \<open>Initialize\<close> return: status codes of OpenSSL, whether the parameter file
  can be opened, and the results of \<open>socket\<close>, \<open>bind\<close> and \<open>listen\<close>.
\<close>

record tls_setup =
  SSL_CTX_new_ok :: bool
  use_certificate_file :: "string \<Rightarrow> int"
  use_PrivateKey_file :: "string \<Rightarrow> int"
  check_private_key :: bool
  set_options :: int
  fopen_ok :: "string \<Rightarrow> bool"
  set_tmp_dh :: "string \<Rightarrow> int"
  set_cipher_list :: "string \<Rightarrow> int"
  socket_result :: int
  bind_result :: "sockaddr_in6 \<Rightarrow> int"
  listen_result :: int

definition DefaultPort :: u16 where
  "DefaultPort = 3938"

definition AF_INET6 :: nat where
  "AF_INET6 = 10"

definition in6addr_any :: "u8 list" where
  "in6addr_any = replicate 16 0"

definition htons :: "u16 \<Rightarrow> u16" where
  "htons w = word_of_le (rev (le_of_word w))"

definition listen_on :: sockaddr_in6 where
  "listen_on = \<lparr>sin6_family = AF_INET6, sin6_port = htons DefaultPort, sin6_addr = in6addr_any\<rparr>"

section \<open>ListenLoop\<close>

text \<open>
  One round of the loop, for what \<open>accept\<close>, \<open>fork\<close> and \<open>getnameinfo\<close> return. \<open>ev_flag\<close> is
  what the memory of the new \<open>SecNet\<close> object holds where \<open>_webSocket\<close> will be, and
  \<open>ev_ssl\<close> the connection \<open>SSL_new\<close> and \<open>SSL_set_fd\<close> make of the socket.
\<close>

record 'c accept_event =
  ev_socket :: int
  ev_errno :: nat
  ev_pid :: int
  ev_ip :: string
  ev_flag :: bool
  ev_ssl :: 'c

definition INET6_ADDRSTRLEN :: nat where
  "INET6_ADDRSTRLEN = 46"

text \<open>
  The process on the child's side of \<open>fork\<close>: a copy, in which the new object is made, and which
  has printed nothing yet.
\<close>

definition fork_child :: "'c accept_event \<Rightarrow> ('c, 'z) server_scheme \<Rightarrow> 'c proc" where
  "fork_child e s = (proc.truncate s)
     \<lparr>sockets := ev_socket e # sockets s, ssl := ev_ssl e, webSocket := ev_flag e, printed := []\<rparr>"

definition listen_round ::
  "nat \<Rightarrow> 'c openssl \<Rightarrow> 'c accept_event \<Rightarrow> (unit, 'c, 'z) serverprog" where
  "listen_round BS L e =
     (if ev_socket e < 0 then print (''Error accepting new connection: '' @ decimal (ev_errno e))
      else
        seqp (modifyp (\<lambda>s.
            if ev_pid e = -1 then s
            else s\<lparr>children := (ev_pid e, serve_client BS L (fork_child e s)) # children s\<rparr>))
        (seqp (modifyp (\<lambda>s. s\<lparr>sockets := remove1 (ev_socket e) (ev_socket e # sockets s)\<rparr>))
        (bindp (new_bytes INET6_ADDRSTRLEN) (\<lambda>ip.
        seqp (modifyp (\<lambda>s. s\<lparr>client_names := length ip # client_names s\<rparr>))
        (print (''Forked for client-handling. Client-IP: '' @ ev_ip e))))))"

text \<open>The loop for the clients that come, as long as the flag \<open>_listening\<close> is set.\<close>

fun ListenLoop :: "nat \<Rightarrow> 'c openssl \<Rightarrow> 'c accept_event list \<Rightarrow> (unit, 'c, 'z) serverprog" where
  "ListenLoop BS L [] = returnp ()"
| "ListenLoop BS L (e # es) =
     bindp (getp listening) (\<lambda>on.
     if on then seqp (listen_round BS L e) (ListenLoop BS L es) else returnp ())"

section \<open>The whole of Initialize\<close>

text \<open>
  The checks in the order of the code. A parameter file that cannot be opened is handed on
  as the null pointer. The listening address is an argument nobody reads.
\<close>

definition Initialize ::
  "nat \<Rightarrow> 'c openssl \<Rightarrow> 'c accept_event list \<Rightarrow> tls_setup \<Rightarrow> string \<Rightarrow> string \<Rightarrow> string \<Rightarrow> string \<Rightarrow> string \<Rightarrow> (unit, 'c, 'z) serverprog" where
  "Initialize BS L es T listenAddress certificateFile privateKeyFile dhParamFile tlsCipherList =
     (if \<not> SSL_CTX_new_ok T then fail ''SSL_CTX_new() failed!''
      else if use_certificate_file T certificateFile \<le> 0 then fail ''Could not load certificate-file!''
      else if use_PrivateKey_file T privateKeyFile \<le> 0 then fail ''Could not load private-key-file!''
      else if \<not> check_private_key T
        then fail ''SSL-certificate and private-key don't belong together!''
      else if set_options T \<le> 0 then fail ''Could not set SSL options!''
      else if \<not> fopen_ok T dhParamFile then undefp Null_pointer
      else if set_tmp_dh T dhParamFile \<le> 0 then fail ''Could not load dhparam-file!''
      else if tlsCipherList \<noteq> '''' \<and> set_cipher_list T tlsCipherList \<le> 0
        then fail ''Could not set TLS cipher list!''
      else
        seqp (modifyp (\<lambda>s. s\<lparr>serverSocket := socket_result T\<rparr>))
        (if socket_result T = -1 then fail ''socket() failed!''
         else
           seqp (modifyp (\<lambda>s. s\<lparr>sockets := socket_result T # sockets s\<rparr>))
           (if bind_result T listen_on \<noteq> 0 then fail ''bind() failed!''
            else
              seqp (modifyp (\<lambda>s. s\<lparr>bound := Some listen_on\<rparr>))
              (if listen_result T \<noteq> 0 then fail ''listen() failed!''
               else
                seqp (modifyp (\<lambda>s. s\<lparr>listening := True\<rparr>))
                (ListenLoop BS L es)))))"

end
