(* ===== verification/Listener.thy ===== *)
theory Listener
  imports Server SecNet_Requests
begin

text \<open>
  The listening process as a system of rounds: what holds however many clients have come,
  and the state every child starts in.
\<close>

inductive server_step :: "nat \<Rightarrow> 'c openssl \<Rightarrow> ('c, 'z) server_scheme \<Rightarrow> ('c, 'z) server_scheme \<Rightarrow> bool" for BS L where
  round: "listening s \<Longrightarrow> listen_round BS L e s = Some (Ret (), t) \<Longrightarrow> server_step BS L s t"

inductive_cases server_stepE: "server_step BS L s t"

text \<open>A child that got the server's file and objects and runs on its own.\<close>

definition child_ok ::
  "nat \<Rightarrow> 'c openssl \<Rightarrow> Blockstorage \<Rightarrow> u8 list \<Rightarrow> int \<times> (unit outcome \<times> 'c proc) option \<Rightarrow> bool" where
  "child_ok BS L st content c \<longleftrightarrow>
     (\<exists>p. snd c = serve_client BS L p \<and> wired p st \<and> serves p BS st content \<and> log_apart p (bs_path st))"

definition server_ok ::
  "nat \<Rightarrow> 'c openssl \<Rightarrow> Blockstorage \<Rightarrow> u8 list \<Rightarrow> ('c, 'z) server_scheme \<Rightarrow> bool" where
  "server_ok BS L st content s \<longleftrightarrow>
     listening s \<and> bound s = Some listen_on \<and> sockets s = [serverSocket s] \<and> wired s st \<and> serves s BS st content
     \<and> log_apart s (bs_path st) \<and> (\<forall>c\<in>set (children s). child_ok BS L st content c)
     \<and> length (children s) \<le> length (client_names s) \<and> set (client_names s) \<subseteq> {INET6_ADDRSTRLEN}"

definition server_start ::
  "nat \<Rightarrow> Blockstorage \<Rightarrow> u8 list \<Rightarrow> ('c, 'z) server_scheme \<Rightarrow> bool" where
  "server_start BS st content s \<longleftrightarrow>
     listening s \<and> bound s = Some listen_on \<and> sockets s = [serverSocket s] \<and> wired s st \<and> serves s BS st content
     \<and> log_apart s (bs_path st) \<and> children s = [] \<and> client_names s = []"

lemma wired_cong:
  fixes p :: "('c, 'z) proc_scheme" and q :: "('c, 'y) proc_scheme"
  assumes "wired p st" and "m_connected_slots q = m_connected_slots p" and "conn_heap q = conn_heap p"
    and "m_senders q = m_senders p" and "receivedPacket q = receivedPacket p"
    and "protocols q = protocols p" and "brk p \<le> brk q"
  shows "wired q st"
  by (rule wired_mono [OF assms(1)]) (use assms in \<open>simp_all add: links_def\<close>)

lemma fork_child_ready:
  assumes "wired s st" and "serves s BS st content"
  shows "wired (fork_child e s) st" and "serves (fork_child e s) BS st content"
    and "log_apart (fork_child e s) path = log_apart s path"
proof -
  show "wired (fork_child e s) st"
    by (rule wired_cong [OF assms(1)]) (simp_all add: fork_child_def proc.defs)
  show "serves (fork_child e s) BS st content"
    by (rule serves_cong [OF assms(2)]) (simp_all add: fork_child_def proc.defs)
  show "log_apart (fork_child e s) path = log_apart s path"
    by (simp add: log_apart_def cout_fd_def fork_child_def proc.defs)
qed

lemma said_server_fields [simp]:
  "listening (said msg s) = listening s" "bound (said msg s) = bound s" "children (said msg s) = children s"
  "client_names (said msg s) = client_names s"
  by (simp_all add: said_def posix_write_def split: option.split target.split)

text \<open>The state after a round, by cases of what the kernel answered.\<close>

definition after_client :: "nat \<Rightarrow> 'c openssl \<Rightarrow> 'c accept_event \<Rightarrow> ('c, 'z) server_scheme \<Rightarrow> ('c, 'z) server_scheme" where
  "after_client BS L e s = said (''Forked for client-handling. Client-IP: '' @ ev_ip e) (s\<lparr>brk := Suc (brk s),
     children := (if ev_pid e = -1 then children s
        else (ev_pid e, serve_client BS L (fork_child e s)) # children s),
     client_names := INET6_ADDRSTRLEN # client_names s\<rparr>)"

definition after_error :: "'c accept_event \<Rightarrow> ('c, 'z) server_scheme \<Rightarrow> ('c, 'z) server_scheme" where
  "after_error e s = said (''Error accepting new connection: '' @ decimal (ev_errno e)) s"

lemma listen_round_error: "ev_socket e < 0 \<Longrightarrow> listen_round BS L e s = Some (Ret (), after_error e s)"
  by (simp add: listen_round_def print_run after_error_def)

lemma listen_round_client:
  assumes "\<not> ev_socket e < 0" and "can_alloc s INET6_ADDRSTRLEN"
  shows "listen_round BS L e s = Some (Ret (), after_client BS L e s)"
  using assms
  by (cases "ev_pid e = -1")
    (simp_all add: listen_round_def prog_simps after_client_def, rule arg_cong [where f = "said msg" for msg], simp)

lemma listen_round_no_memory:
  assumes "\<not> ev_socket e < 0" and "\<not> can_alloc s INET6_ADDRSTRLEN"
  shows "\<exists>t. listen_round BS L e s = Some (Uncaught, t)"
  using assms
  by (cases "ev_pid e = -1") (simp_all add: listen_round_def prog_simps)

lemma listen_round_cases:
  assumes "listen_round BS L e s = Some (Ret u, t)"
  obtains (error) "ev_socket e < 0" "t = after_error e s"
    | (client) "\<not> ev_socket e < 0" "t = after_client BS L e s" "can_alloc s INET6_ADDRSTRLEN"
proof (cases "ev_socket e < 0")
  case True
  with assms show ?thesis by (intro error) (simp_all add: listen_round_error)
next
  case False
  have alloc: "can_alloc s INET6_ADDRSTRLEN"
    using assms listen_round_no_memory [OF False, of s BS L] by (cases "can_alloc s INET6_ADDRSTRLEN") auto
  with assms show ?thesis by (intro client [OF False]) (simp_all add: listen_round_client [OF False])
qed

lemma after_round_fields [simp]:
  "bound (after_client BS L e s) = bound s" "bound (after_error e s) = bound s"
  "listening (after_client BS L e s) = listening s" "listening (after_error e s) = listening s"
  "sockets (after_client BS L e s) = sockets s" "serverSocket (after_client BS L e s) = serverSocket s"
  "client_names (after_client BS L e s) = INET6_ADDRSTRLEN # client_names s"
  "client_names (after_error e s) = client_names s"
  "can_alloc (after_client BS L e s) = can_alloc s" "can_alloc (after_error e s) = can_alloc s"
  "string_limit (after_client BS L e s) = string_limit s" "string_limit (after_error e s) = string_limit s"
  by (simp_all add: after_client_def after_error_def)

lemma after_client_ready:
  assumes "wired s st" and "serves s BS st content" and "log_apart s (bs_path st)"
  shows "wired (after_client BS L e s) st" and "serves (after_client BS L e s) BS st content"
    and "log_apart (after_client BS L e s) (bs_path st)"
proof -
  have apart: "log_apart (s\<lparr>brk := b, children := cs, client_names := ns\<rparr>) (bs_path st)" for b cs ns
    using assms(3) by (simp add: log_apart_def cout_fd_def)
  then show "log_apart (after_client BS L e s) (bs_path st)" by (simp add: after_client_def)
  show "wired (after_client BS L e s) st"
    by (rule wired_cong [OF assms(1)]) (simp_all add: after_client_def)
  show "serves (after_client BS L e s) BS st content"
    by (rule serves_cong [OF assms(2)]) (use apart in \<open>simp_all add: after_client_def files_said\<close>)
qed

lemma after_error_ready:
  assumes "wired s st" and "serves s BS st content" and "log_apart s (bs_path st)"
  shows "wired (after_error e s) st" and "serves (after_error e s) BS st content"
    and "log_apart (after_error e s) (bs_path st)"
proof -
  show "wired (after_error e s) st"
    by (rule wired_cong [OF assms(1)]) (simp_all add: after_error_def)
  show "serves (after_error e s) BS st content"
    by (rule serves_cong [OF assms(2)]) (use assms(3) in \<open>simp_all add: after_error_def files_said\<close>)
  show "log_apart (after_error e s) (bs_path st)" using assms(3) by (simp add: after_error_def)
qed

lemma server_step_ok:
  assumes ok: "server_ok BS L st content s" and step: "server_step BS L s t"
  shows "server_ok BS L st content t"
proof -
  from step obtain e where round: "listen_round BS L e s = Some (Ret (), t)" by (auto elim: server_stepE)
  from ok have ready: "wired s st" "serves s BS st content" "log_apart s (bs_path st)" by (simp_all add: server_ok_def)
  from round show ?thesis
  proof (cases rule: listen_round_cases)
    case error
    with ok after_error_ready [OF ready] show ?thesis
      by (simp add: server_ok_def after_error_def)
  next
    case client
    have "child_ok BS L st content (ev_pid e, serve_client BS L (fork_child e s))"
      unfolding child_ok_def
      by (intro exI [of _ "fork_child e s"]) (simp add: fork_child_ready [OF ready(1,2)] ready(3))
    then have "\<forall>c\<in>set (children t). child_ok BS L st content c"
        "length (children t) \<le> length (client_names t)"
      using ok by (auto simp: client(2) after_client_def server_ok_def)
    with ok client(2) after_client_ready [OF ready] show ?thesis
      by (simp add: server_ok_def)
  qed
qed

lemma server_start_ok: "server_start BS st content s \<Longrightarrow> server_ok BS L st content s"
  by (simp add: server_start_def server_ok_def)

interpretation listener: invariant_system
  "server_start BS st content" "server_step BS L" "server_ok BS L st content" for BS L st content
  by unfold_locales (rule server_start_ok, assumption, rule server_step_ok)

text \<open>The loop itself makes steps of the system.\<close>

lemma ListenLoop_steps:
  "ListenLoop BS L es s = Some (Ret u, t) \<Longrightarrow> (server_step BS L)\<^sup>*\<^sup>* s t"
proof (induction es arbitrary: s)
  case Nil
  then show ?case by simp
next
  case (Cons e es)
  show ?case
  proof (cases "listening s")
    case True
    with Cons.prems have "seqp (listen_round BS L e) (ListenLoop BS L es) s = Some (Ret u, t)"
      by (simp add: prog_simps)
    then obtain v s' where "listen_round BS L e s = Some (Ret v, s')" "ListenLoop BS L es s' = Some (Ret u, t)"
      by (rule seqp_RetE)
    with True Cons.IH show ?thesis
      by (auto intro: converse_rtranclp_into_rtranclp server_step.round)
  next
    case False
    with Cons.prems show ?thesis by (simp add: prog_simps)
  qed
qed

text \<open>It goes on as long as there is memory for one more address.\<close>

lemma listen_round_goes_on:
  assumes "can_alloc s INET6_ADDRSTRLEN"
  shows "\<exists>t. listen_round BS L e s = Some (Ret (), t) \<and> can_alloc t INET6_ADDRSTRLEN"
proof (cases "ev_socket e < 0")
  case True
  with assms show ?thesis by (simp add: listen_round_error)
next
  case False
  with assms show ?thesis by (simp add: listen_round_client)
qed

lemma ListenLoop_goes_on:
  "can_alloc s INET6_ADDRSTRLEN \<Longrightarrow> \<exists>t. ListenLoop BS L es s = Some (Ret (), t)"
proof (induction es arbitrary: s)
  case Nil
  then show ?case by simp
next
  case (Cons e es)
  from listen_round_goes_on [OF Cons.prems, of BS L e] obtain t where
    "listen_round BS L e s = Some (Ret (), t)" "can_alloc t INET6_ADDRSTRLEN" by blast
  with Cons.IH [of t] show ?case by (cases "listening s") (simp_all add: prog_simps)
qed

text \<open>One buffer of 46 bytes stays allocated for every client, forked or not.\<close>

lemma ListenLoop_leaks:
  "ListenLoop BS L es s = Some (Ret (), t) \<Longrightarrow> listening s \<Longrightarrow>
     client_names t = replicate (length (filter (\<lambda>e. 0 \<le> ev_socket e) es)) INET6_ADDRSTRLEN @ client_names s"
proof (induction es arbitrary: s)
  case Nil
  then show ?case by simp
next
  case (Cons e es)
  from Cons.prems have "seqp (listen_round BS L e) (ListenLoop BS L es) s = Some (Ret (), t)"
    by (simp add: prog_simps)
  then obtain v s' where r: "listen_round BS L e s = Some (Ret v, s')" and l: "ListenLoop BS L es s' = Some (Ret (), t)"
    by (rule seqp_RetE)
  from r show ?case
  proof (cases rule: listen_round_cases)
    case error
    with Cons.IH [OF l] Cons.prems(2) show ?thesis by simp
  next
    case client
    with Cons.IH [OF l] Cons.prems(2) show ?thesis by (simp add: replicate_app_Cons_same)
  qed
qed

section \<open>The children of a run\<close>

lemma ListenLoop_on:
  "listening s \<Longrightarrow> ListenLoop BS L (e # es) s = seqp (listen_round BS L e) (ListenLoop BS L es) s"
  by (simp add: prog_simps)

lemma ListenLoop_ConsE:
  assumes "ListenLoop BS L (e # es) s = Some (Ret u, t)" and "listening s"
  obtains s' where "listen_round BS L e s = Some (Ret (), s')" "ListenLoop BS L es s' = Some (Ret u, t)" "listening s'"
proof -
  from assms(1) obtain v s' where r: "listen_round BS L e s = Some (Ret v, s')" and l: "ListenLoop BS L es s' = Some (Ret u, t)"
    unfolding ListenLoop_on [OF assms(2)] by (rule seqp_RetE)
  from r assms(2) have "listening s'" by (cases rule: listen_round_cases) simp_all
  with r l show ?thesis by (intro that) simp_all
qed

lemma listen_round_keeps:
  assumes "listen_round BS L e s = Some (Ret u, t)"
  shows "set (children s) \<subseteq> set (children t)" and "can_alloc t = can_alloc s"
    and "string_limit t = string_limit s"
    and "wired s st \<Longrightarrow> serves s BS st content \<Longrightarrow> log_apart s (bs_path st) \<Longrightarrow>
      wired t st \<and> serves t BS st content \<and> log_apart t (bs_path st)"
    and "\<not> cout_good s \<Longrightarrow> \<not> cout_good t \<and> printed t = printed s"
proof -
  have after: "set (children s) \<subseteq> set (children (after_client BS L e s))" "children (after_error e s) = children s"
    by (auto simp: after_client_def after_error_def)
  have silent: "\<not> cout_good s \<Longrightarrow> after_error e s = s"
    "\<not> cout_good s \<Longrightarrow> \<not> cout_good (after_client BS L e s) \<and> printed (after_client BS L e s) = printed s"
    by (simp_all add: after_client_def after_error_def printed_said(3))
  note cases = listen_round_cases [OF assms]
  show "set (children s) \<subseteq> set (children t)" "can_alloc t = can_alloc s" "string_limit t = string_limit s"
    by (rule cases; simp add: after)+
  show "wired s st \<Longrightarrow> serves s BS st content \<Longrightarrow> log_apart s (bs_path st) \<Longrightarrow>
      wired t st \<and> serves t BS st content \<and> log_apart t (bs_path st)"
    by (rule cases) (simp_all add: after_client_ready after_error_ready)
  show "\<not> cout_good s \<Longrightarrow> \<not> cout_good t \<and> printed t = printed s"
    by (rule cases) (simp_all add: silent)
qed

lemma ListenLoop_keeps_children:
  "ListenLoop BS L es s = Some (Ret u, t) \<Longrightarrow> listening s \<Longrightarrow> set (children s) \<subseteq> set (children t)"
proof (induction es arbitrary: s)
  case Nil
  then show ?case by simp
next
  case (Cons e es)
  from Cons.prems obtain s' where "listen_round BS L e s = Some (Ret (), s')"
    "ListenLoop BS L es s' = Some (Ret u, t)" "listening s'" by (rule ListenLoop_ConsE)
  with Cons.IH listen_round_keeps(1) show ?case by blast
qed

text \<open>Once a line could not be written the listening process prints nothing any more.\<close>

lemma ListenLoop_silent:
  "ListenLoop BS L es s = Some (Ret u, t) \<Longrightarrow> listening s \<Longrightarrow> \<not> cout_good s \<Longrightarrow>
     \<not> cout_good t \<and> printed t = printed s"
proof (induction es arbitrary: s)
  case Nil
  then show ?case by simp
next
  case (Cons e es)
  from Cons.prems(1,2) obtain s' where r: "listen_round BS L e s = Some (Ret (), s')"
    and l: "ListenLoop BS L es s' = Some (Ret u, t)" "listening s'" by (rule ListenLoop_ConsE)
  from listen_round_keeps(5) [OF r Cons.prems(3)] Cons.IH [OF l] show ?case by simp
qed

text \<open>That happens when there is nothing behind the stream.\<close>

lemma after_client_unwritten:
  assumes "cout_good s" and "cout_target s = None"
  shows "\<not> cout_good (after_client BS L e s) \<and> printed (after_client BS L e s) = printed s"
proof -
  let ?w = "\<lambda>cs ns. s\<lparr>brk := Suc (brk s), children := cs, client_names := ns\<rparr>"
  have "cout_target (?w cs ns) = cout_target s" for cs ns
    by (simp add: cout_target_def cout_fd_def split: option.split)
  then have "\<not> cout_good (said msg (?w cs ns)) \<and> printed (said msg (?w cs ns)) = printed s" for msg cs ns
    using printed_said(2) [of "?w cs ns" msg] assms by simp
  then show ?thesis unfolding after_client_def by blast
qed

text \<open>
  A client whose connection is accepted and whose fork succeeds has a child of its own, made
  of a state in which the server is ready, whatever the other clients do. There are no other
  children, and they are listed in the order in which the clients came, the last one first.
\<close>

definition forked :: "'c accept_event \<Rightarrow> bool" where
  "forked e \<longleftrightarrow> 0 \<le> ev_socket e \<and> ev_pid e \<noteq> -1"

definition child_of ::
  "nat \<Rightarrow> 'c openssl \<Rightarrow> Blockstorage \<Rightarrow> u8 list \<Rightarrow> (nat \<Rightarrow> bool) \<Rightarrow> nat \<Rightarrow> 'c accept_event \<Rightarrow>
     int \<times> (unit outcome \<times> 'c proc) option \<Rightarrow> bool" where
  "child_of BS L st content alloc limit e c \<longleftrightarrow> fst c = ev_pid e
     \<and> (\<exists>p. snd c = serve_client BS L p \<and> wired p st \<and> serves p BS st content \<and> can_alloc p = alloc \<and> string_limit p = limit
          \<and> ssl p = ev_ssl e \<and> webSocket p = ev_flag e)"

lemma listen_round_child:
  assumes "listen_round BS L e s = Some (Ret u, t)"
  shows "children t = (if forked e then [(ev_pid e, serve_client BS L (fork_child e s))] else []) @ children s"
  using assms by (cases rule: listen_round_cases) (auto simp: after_client_def after_error_def forked_def)

lemma fork_child_of:
  assumes "wired s st" and "serves s BS st content"
  shows "child_of BS L st content (can_alloc s) (string_limit s) e (ev_pid e, serve_client BS L (fork_child e s))"
  unfolding child_of_def using fork_child_ready [OF assms]
  by (intro conjI exI [of _ "fork_child e s"]) (simp_all add: fork_child_def proc.defs)

lemma ListenLoop_children:
  "ListenLoop BS L es s = Some (Ret u, t) \<Longrightarrow> listening s \<Longrightarrow> wired s st \<Longrightarrow> serves s BS st content \<Longrightarrow>
     log_apart s (bs_path st) \<Longrightarrow>
     \<exists>cs. children t = rev cs @ children s \<and> list_all2 (child_of BS L st content (can_alloc s) (string_limit s)) (filter forked es) cs"
proof (induction es arbitrary: s)
  case Nil
  then show ?case by simp
next
  case (Cons e es)
  from Cons.prems(1,2) obtain s' where r: "listen_round BS L e s = Some (Ret (), s')"
    and l: "ListenLoop BS L es s' = Some (Ret u, t)" "listening s'" by (rule ListenLoop_ConsE)
  from Cons.IH [OF l] listen_round_keeps(4) [OF r Cons.prems(3-5)] listen_round_keeps(2,3) [OF r]
  obtain cs where cs: "children t = rev cs @ children s'"
    "list_all2 (child_of BS L st content (can_alloc s) (string_limit s)) (filter forked es) cs" by auto
  show ?case
  proof (cases "forked e")
    case True
    with cs fork_child_of [OF Cons.prems(3,4)] listen_round_child [OF r] show ?thesis
      by (intro exI [of _ "(ev_pid e, serve_client BS L (fork_child e s)) # cs"]) simp
  next
    case False
    with cs listen_round_child [OF r] show ?thesis by simp
  qed
qed

lemma ListenLoop_child:
  assumes "ListenLoop BS L es s = Some (Ret u, t)" and "listening s" and "wired s st" and "serves s BS st content"
    and "log_apart s (bs_path st)" and "e \<in> set es" and "forked e"
  shows "\<exists>c\<in>set (children t). child_of BS L st content (can_alloc s) (string_limit s) e c"
proof -
  from ListenLoop_children [OF assms(1-5)] obtain cs where
    "children t = rev cs @ children s" "list_all2 (child_of BS L st content (can_alloc s) (string_limit s)) (filter forked es) cs" by blast
  with list_all2_member [OF this(2), of e] assms(6,7) show ?thesis by auto
qed

lemma fork_child_fields [simp]:
  "ssl (fork_child e s) = ev_ssl e" "webSocket (fork_child e s) = ev_flag e" "can_alloc (fork_child e s) = can_alloc s"
  "string_limit (fork_child e s) = string_limit s" "cout_fd (fork_child e s) = cout_fd s"
  "sockets (fork_child e s) = ev_socket e # sockets s" "serverSocket (fork_child e s) = serverSocket s"
  "cout_buffer (fork_child e s) = cout_buffer s" "cout_good (fork_child e s) = cout_good s"
  "printed (fork_child e s) = []" "fds (fork_child e s) = fds s"
  by (simp_all add: fork_child_def proc.defs cout_fd_def)

end
