(* ===== verification/Getopt.thy ===== *)
theory Getopt
  imports Main
begin

text \<open>
  \<open>getopt_long_only\<close> of the GNU C library, as its manual describes it, for options that take no
  argument or one required argument, and short options without arguments. One call looks at the
  arguments that are left, and at the rest of an argument of which it has taken a short option.
  Words that are not options are skipped (they are moved to the end, where nobody looks), two
  dashes end the options; the variable \<open>POSIXLY_CORRECT\<close> is not set. Messages on the error
  output are left out.
\<close>

record 'f long_option =
  lo_name :: string
  lo_has_arg :: bool
  lo_flag :: "'f option"
  lo_val :: char

text \<open>
  \<open>Long_option i arg\<close>: entry \<open>i\<close> of the table was found, with \<open>optarg = arg\<close>;
  \<open>Other_option c\<close>: a short option, or a question mark for what is not an option.
\<close>

datatype getopt_result = Long_option nat string | Other_option char

type_synonym getopt_state = "string \<times> string list"

section \<open>Names\<close>

datatype found = Not_found | Found nat | Ambiguous

text \<open>The entry with the name, or else the only one whose name starts with it.\<close>

definition find_long :: "'f long_option list \<Rightarrow> string \<Rightarrow> found" where
  "find_long opts name =
     (case filter (\<lambda>i. lo_name (opts ! i) = name) [0..<length opts] of
        i # is \<Rightarrow> Found i
      | [] \<Rightarrow>
          (case filter (\<lambda>i. take (length name) (lo_name (opts ! i)) = name) [0..<length opts] of
             [] \<Rightarrow> Not_found
           | [i] \<Rightarrow> Found i
           | _ \<Rightarrow> Ambiguous))"

definition option_name :: "string \<Rightarrow> string" where
  "option_name s = takeWhile (\<lambda>c. c \<noteq> CHR ''='') s"

definition option_value :: "string \<Rightarrow> string option" where
  "option_value s = (case dropWhile (\<lambda>c. c \<noteq> CHR ''='') s of [] \<Rightarrow> None | _ # v \<Rightarrow> Some v)"

section \<open>One call\<close>

text \<open>A long option \<open>s\<close>, without its dashes, before the arguments \<open>rest\<close>.\<close>

definition take_long ::
  "'f long_option list \<Rightarrow> nat \<Rightarrow> string option \<Rightarrow> string list \<Rightarrow> getopt_result \<times> getopt_state" where
  "take_long opts i arg rest =
     (case arg of
        Some v \<Rightarrow>
          (if lo_has_arg (opts ! i) then (Long_option i v, '''', rest) else (Other_option CHR ''?'', '''', rest))
      | None \<Rightarrow>
          (if \<not> lo_has_arg (opts ! i) then (Long_option i '''', '''', rest)
           else case rest of
             [] \<Rightarrow> (Other_option CHR ''?'', '''', [])
           | v # rest' \<Rightarrow> (Long_option i v, '''', rest')))"

text \<open>The next short option of a word.\<close>

definition take_short :: "string \<Rightarrow> string \<Rightarrow> string list \<Rightarrow> getopt_result \<times> getopt_state" where
  "take_short short word rest =
     (Other_option (if hd word \<in> set short then hd word else CHR ''?''), tl word, rest)"

definition is_option :: "string \<Rightarrow> bool" where
  "is_option w \<longleftrightarrow> 2 \<le> length w \<and> hd w = CHR ''-''"

text \<open>
  A word with one dash is a long option as well, except a single letter that is a short option;
  if no long option is meant, a word that starts with the letter of a short option is taken for
  short options.
\<close>

definition take_word ::
  "'f long_option list \<Rightarrow> string \<Rightarrow> string \<Rightarrow> string list \<Rightarrow> getopt_result \<times> getopt_state" where
  "take_word opts short w rest =
     (if w ! 1 = CHR ''-'' then
        (let s = drop 2 w in
         case find_long opts (option_name s) of
           Found i \<Rightarrow> take_long opts i (option_value s) rest
         | _ \<Rightarrow> (Other_option CHR ''?'', '''', rest))
      else if length w = 2 \<and> w ! 1 \<in> set short then take_short short (tl w) rest
      else
        (let s = tl w in
         case find_long opts (option_name s) of
           Found i \<Rightarrow> take_long opts i (option_value s) rest
         | Ambiguous \<Rightarrow> (Other_option CHR ''?'', '''', rest)
         | Not_found \<Rightarrow>
             (if hd s \<in> set short then take_short short s rest
              else (Other_option CHR ''?'', '''', rest))))"

fun getopt_long_only ::
  "'f long_option list \<Rightarrow> string \<Rightarrow> getopt_state \<Rightarrow> (getopt_result \<times> getopt_state) option" where
  "getopt_long_only opts short (c # cs, rest) = Some (take_short short (c # cs) rest)"
| "getopt_long_only opts short ([], []) = None"
| "getopt_long_only opts short ([], w # rest) =
     (if w = ''--'' then None
      else if is_option w then Some (take_word opts short w rest)
      else getopt_long_only opts short ([], rest))"

section \<open>Progress\<close>

text \<open>Every call takes at least a letter.\<close>

definition letters_left :: "getopt_state \<Rightarrow> nat" where
  "letters_left st = length (fst st) + sum_list (map (\<lambda>w. Suc (length w)) (snd st))"

lemma take_long_progress:
  "letters_left (snd (take_long opts i arg rest)) \<le> letters_left ('''', rest)"
  by (auto simp: take_long_def letters_left_def split: option.split list.split)

lemma take_word_progress:
  assumes "is_option w"
  shows "letters_left (snd (take_word opts short w rest)) < letters_left ('''', w # rest)"
proof -
  have "letters_left (snd (take_short short (tl w) rest)) < letters_left ('''', w # rest)"
    by (simp add: take_short_def letters_left_def)
  moreover have "letters_left (snd (take_long opts i arg rest)) < letters_left ('''', w # rest)" for i arg
    using take_long_progress [of opts i arg rest] by (simp add: letters_left_def)
  moreover have "letters_left ('''', rest) < letters_left ('''', w # rest)" by (simp add: letters_left_def)
  ultimately show ?thesis by (simp add: take_word_def Let_def split: found.split)
qed

lemma getopt_progress:
  "getopt_long_only opts short st = Some (g, st') \<Longrightarrow> letters_left st' < letters_left st"
proof (induction opts short st rule: getopt_long_only.induct)
  case (1 opts short c cs rest)
  then show ?case by (auto simp: take_short_def letters_left_def)
next
  case (2 opts short)
  then show ?case by simp
next
  case (3 opts short w rest)
  from "3.prems" have "w \<noteq> ''--''" by (intro notI) simp
  show ?case
  proof (cases "is_option w")
    case True
    with "3.prems" have "take_word opts short w rest = (g, st')"
      by (simp only: getopt_long_only.simps \<open>w \<noteq> ''--''\<close> if_False if_True option.inject)
    with take_word_progress [OF True, of opts short rest] show ?thesis by simp
  next
    case False
    with "3.prems" have "getopt_long_only opts short ([], rest) = Some (g, st')"
      by (simp only: getopt_long_only.simps \<open>w \<noteq> ''--''\<close> if_False)
    with "3.IH" [OF \<open>w \<noteq> ''--''\<close> False] show ?thesis by (simp add: letters_left_def)
  qed
qed

section \<open>Ways to write an option\<close>

text \<open>With two dashes or one, and the argument behind an equals sign or as the next word.\<close>

definition write_long :: "bool \<Rightarrow> bool \<Rightarrow> string \<Rightarrow> string \<Rightarrow> string list" where
  "write_long two_dashes equals name arg =
     (let w = (if two_dashes then ''--'' else ''-'') @ name
      in if equals then [w @ ''='' @ arg] else [w, arg])"

definition write_flag :: "bool \<Rightarrow> string \<Rightarrow> string list" where
  "write_flag two_dashes name = [(if two_dashes then ''--'' else ''-'') @ name]"

text \<open>
  Names without dash at the start and without equals sign. A single letter with one dash must not be
  a short option.
\<close>

definition good_name :: "string \<Rightarrow> bool \<Rightarrow> string \<Rightarrow> bool" where
  "good_name short two_dashes s \<longleftrightarrow> s \<noteq> '''' \<and> hd s \<noteq> CHR ''-'' \<and> CHR ''='' \<notin> set s
     \<and> (two_dashes \<or> length s \<noteq> 1 \<or> hd s \<notin> set short)"

lemma good_name_long: "2 \<le> length s \<Longrightarrow> hd s \<noteq> CHR ''-'' \<Longrightarrow> CHR ''='' \<notin> set s \<Longrightarrow> good_name short d s"
  by (auto simp: good_name_def)

lemma option_parts:
  assumes "CHR ''='' \<notin> set name"
  shows "option_name name = name" "option_value name = None"
    "option_name (name @ ''='' @ v) = name" "option_value (name @ ''='' @ v) = Some v"
proof -
  have "\<forall>c\<in>set name. c \<noteq> CHR ''=''" using assms by auto
  then show "option_name name = name" "option_value name = None"
    "option_name (name @ ''='' @ v) = name" "option_value (name @ ''='' @ v) = Some v"
    by (simp_all add: option_name_def option_value_def takeWhile_append2 dropWhile_append2 takeWhile_eq_all_conv [THEN iffD2]
        dropWhile_eq_Nil_conv [THEN iffD2])
qed

lemma written_word:
  assumes "good_name short d name"
  shows "is_option ((if d then ''--'' else ''-'') @ name @ v)" "(if d then ''--'' else ''-'') @ name @ v \<noteq> ''--''"
proof -
  from assms obtain a cs where "name = a # cs" "a \<noteq> CHR ''-''"
    by (cases name) (auto simp: good_name_def)
  then show "is_option ((if d then ''--'' else ''-'') @ name @ v)" "(if d then ''--'' else ''-'') @ name @ v \<noteq> ''--''"
    by (simp_all add: is_option_def)
qed

lemma take_written_word:
  assumes good: "good_name short d name" and "find_long opts name = Found i" and v: "v = '''' \<or> v = ''='' @ x"
  shows "take_word opts short ((if d then ''--'' else ''-'') @ name @ v) rest
     = take_long opts i (if v = '''' then None else Some x) rest"
proof -
  from good obtain a cs where name: "name = a # cs" "a \<noteq> CHR ''-''" "CHR ''='' \<notin> set name"
      "d \<or> cs \<noteq> '''' \<or> a \<notin> set short"
    by (cases name) (auto simp: good_name_def)
  have "option_name (name @ v) = name" "option_value (name @ v) = (if v = '''' then None else Some x)"
    using v option_parts [OF name(3)] by auto
  moreover have "((if d then ''--'' else ''-'') @ name @ v) ! 1 = CHR ''-'' \<longleftrightarrow> d" using name by simp
  moreover have "d \<or> \<not> (length (''-'' @ name @ v) = 2 \<and> (''-'' @ name @ v) ! 1 \<in> set short)" using name by auto
  ultimately show ?thesis using assms(2) by (cases d) (auto simp: take_word_def)
qed

lemma getopt_write_long:
  assumes "good_name short d name" and "find_long opts name = Found i" and "lo_has_arg (opts ! i)"
  shows "getopt_long_only opts short ('''', write_long d e name arg @ rest) = Some (Long_option i arg, '''', rest)"
proof (cases e)
  case True
  then show ?thesis
    using written_word [OF assms(1), of "''='' @ arg"] take_written_word [OF assms(1,2), of "''='' @ arg" arg rest]
      assms(3)
    by (simp add: write_long_def take_long_def)
next
  case False
  then show ?thesis
    using written_word [OF assms(1), of "''''"] take_written_word [OF assms(1,2), of "''''" arg "arg # rest"]
      assms(3)
    by (simp add: write_long_def take_long_def)
qed

lemma getopt_write_flag:
  assumes "good_name short d name" and "find_long opts name = Found i" and "\<not> lo_has_arg (opts ! i)"
  shows "getopt_long_only opts short ('''', write_flag d name @ rest) = Some (Long_option i '''', '''', rest)"
  using written_word [OF assms(1), of "''''"] take_written_word [OF assms(1,2), of "''''" "''''" rest] assms(3)
  by (simp add: write_flag_def take_long_def)

end
