(* ===== verification/Startup.thy ===== *)
theory Startup
  imports Listener Getopt
begin

text \<open>
  \<open>src/main.cpp\<close>: the command line, the daemon, and the objects that are set up before the
  server listens.
\<close>

section \<open>The command line\<close>

datatype flag_variable = flagDaemonize_var | yes_i_am_sure_var

definition longOptions :: "flag_variable long_option list" where
  "longOptions =
     [\<lparr>lo_name = ''daemonize'', lo_has_arg = False, lo_flag = Some flagDaemonize_var, lo_val = CHR 0x01\<rparr>,
      \<lparr>lo_name = ''yes-i-am-sure'', lo_has_arg = False, lo_flag = Some yes_i_am_sure_var, lo_val = CHR 0x01\<rparr>,
      \<lparr>lo_name = ''blockStorageFile'', lo_has_arg = True, lo_flag = None, lo_val = CHR ''a''\<rparr>,
      \<lparr>lo_name = ''shuffleDBFile'', lo_has_arg = True, lo_flag = None, lo_val = CHR ''b''\<rparr>,
      \<lparr>lo_name = ''logFile'', lo_has_arg = True, lo_flag = None, lo_val = CHR ''c''\<rparr>,
      \<lparr>lo_name = ''tlsCertificateFile'', lo_has_arg = True, lo_flag = None, lo_val = CHR ''d''\<rparr>,
      \<lparr>lo_name = ''tlsPrivateKeyFile'', lo_has_arg = True, lo_flag = None, lo_val = CHR ''e''\<rparr>,
      \<lparr>lo_name = ''tlsDHParamFile'', lo_has_arg = True, lo_flag = None, lo_val = CHR ''f''\<rparr>,
      \<lparr>lo_name = ''tlsCipherSuite'', lo_has_arg = True, lo_flag = None, lo_val = CHR ''g''\<rparr>,
      \<lparr>lo_name = ''listenAddress'', lo_has_arg = True, lo_flag = None, lo_val = CHR ''i''\<rparr>,
      \<lparr>lo_name = ''help'', lo_has_arg = False, lo_flag = None, lo_val = CHR ''h''\<rparr>,
      \<lparr>lo_name = ''version'', lo_has_arg = False, lo_flag = None, lo_val = CHR ''V''\<rparr>]"

record arguments =
  blockStorageFile :: string
  shuffleDBFile :: string
  logFile :: string
  tlsCertificateFile :: string
  tlsPrivateKeyFile :: string
  tlsDHParamFile :: string
  tlsCipherSuite :: string
  listenAddress :: string
  flagDaemonize :: int
  yes_i_am_sure :: int

definition no_arguments :: arguments where
  "no_arguments = \<lparr>blockStorageFile = '''', shuffleDBFile = '''', logFile = '''',
     tlsCertificateFile = '''', tlsPrivateKeyFile = '''', tlsDHParamFile = '''',
     tlsCipherSuite = '''', listenAddress = '''', flagDaemonize = 0, yes_i_am_sure = 0\<rparr>"

datatype early_return = Show_help | Show_version

definition switch_option :: "char \<Rightarrow> string \<Rightarrow> arguments \<Rightarrow> early_return + arguments" where
  "switch_option c optarg a =
     (if c = CHR ''a'' then Inr (a\<lparr>blockStorageFile := optarg\<rparr>)
      else if c = CHR ''b'' then Inr (a\<lparr>shuffleDBFile := optarg\<rparr>)
      else if c = CHR ''c'' then Inr (a\<lparr>logFile := optarg\<rparr>)
      else if c = CHR ''d'' then Inr (a\<lparr>tlsCertificateFile := optarg\<rparr>)
      else if c = CHR ''e'' then Inr (a\<lparr>tlsPrivateKeyFile := optarg\<rparr>)
      else if c = CHR ''f'' then Inr (a\<lparr>tlsDHParamFile := optarg\<rparr>)
      else if c = CHR ''g'' then Inr (a\<lparr>tlsCipherSuite := optarg\<rparr>)
      else if c = CHR ''i'' then Inr (a\<lparr>listenAddress := optarg\<rparr>)
      else if c = CHR ''h'' then Inl Show_help
      else if c = CHR ''V'' then Inl Show_version
      else Inr a)"

text \<open>For an entry with a flag \<open>getopt_long_only\<close> sets the variable and returns 0.\<close>

definition option_step :: "getopt_result \<Rightarrow> arguments \<Rightarrow> early_return + arguments" where
  "option_step g a =
     (case g of
        Long_option i optarg \<Rightarrow>
          (if i < length longOptions then
             (case lo_flag (longOptions ! i) of
                Some flagDaemonize_var \<Rightarrow> Inr (a\<lparr>flagDaemonize := 1\<rparr>)
              | Some yes_i_am_sure_var \<Rightarrow> Inr (a\<lparr>yes_i_am_sure := 1\<rparr>)
              | None \<Rightarrow> switch_option (lo_val (longOptions ! i)) optarg a)
           else Inr a)
      | Other_option c \<Rightarrow> switch_option c '''' a)"

text \<open>The loop ends because each call takes a part of the arguments.\<close>

function option_loop :: "getopt_state \<Rightarrow> arguments \<Rightarrow> early_return + arguments" where
  "option_loop st a =
     (case getopt_long_only longOptions ''Vh'' st of
        None \<Rightarrow> Inr a
      | Some (g, st') \<Rightarrow>
          (case option_step g a of Inl e \<Rightarrow> Inl e | Inr a' \<Rightarrow> option_loop st' a'))"
  by pat_completeness auto
termination
  by (relation "measure (\<lambda>(st, a). letters_left st)") (auto dest: getopt_progress)

declare option_loop.simps [simp del]

definition missing_arguments :: "arguments \<Rightarrow> bool" where
  "missing_arguments a \<longleftrightarrow>
     (blockStorageFile a = '''' \<and> shuffleDBFile a = '''')
     \<or> (blockStorageFile a \<noteq> '''' \<and> shuffleDBFile a \<noteq> '''' \<and> yes_i_am_sure a = 0)
     \<or> (tlsCertificateFile a = '''' \<or> tlsPrivateKeyFile a = '''' \<or> tlsDHParamFile a = '''')"

section \<open>Absolute paths\<close>

text \<open>\<open>std::string::at\<close> throws when the index is not in the string.\<close>

definition string_at :: "string \<Rightarrow> nat \<Rightarrow> (char, 's) prog" where
  "string_at s i = (if i < length s then returnp (s ! i) else throwp)"

definition make_absolute :: "string \<Rightarrow> string \<Rightarrow> (string, 's) prog" where
  "make_absolute cwd path =
     bindp (string_at path 0) (\<lambda>c.
     returnp (if c \<noteq> CHR ''/'' then cwd @ ''/'' @ path else path))"

definition make_absolute_given :: "string \<Rightarrow> string \<Rightarrow> (string, 's) prog" where
  "make_absolute_given cwd path = (if path \<noteq> '''' then make_absolute cwd path else returnp path)"

definition absolute_paths :: "string \<Rightarrow> arguments \<Rightarrow> (arguments, 's) prog" where
  "absolute_paths cwd a =
     bindp (make_absolute cwd (tlsCertificateFile a)) (\<lambda>d.
     bindp (make_absolute cwd (tlsPrivateKeyFile a)) (\<lambda>e.
     bindp (make_absolute cwd (tlsDHParamFile a)) (\<lambda>f.
     bindp (make_absolute_given cwd (blockStorageFile a)) (\<lambda>b.
     bindp (make_absolute_given cwd (shuffleDBFile a)) (\<lambda>h.
     bindp (make_absolute_given cwd (logFile a)) (\<lambda>l.
     returnp (a\<lparr>tlsCertificateFile := d, tlsPrivateKeyFile := e, tlsDHParamFile := f,
       blockStorageFile := b, shuffleDBFile := h, logFile := l\<rparr>)))))))"

section \<open>The daemon\<close>

text \<open>What a daemon changes of its process besides the descriptors.\<close>

record 'c main_process = "'c server" +
  umask_bits :: nat
  working_directory :: string

record daemon_setup =
  fork_result :: int
  log_opens :: "string \<Rightarrow> bool"
  setsid_result :: int
  chdir_result :: int

text \<open>
  Opening the log file empties it, and creates it when it is not there. Putting another buffer into
  the stream also clears its errors.
\<close>

definition open_log :: "daemon_setup \<Rightarrow> string \<Rightarrow> (unit, ('c, 'z) proc_scheme) prog" where
  "open_log D log_file =
     bindp (posix_open_trunc (log_opens D log_file) log_file) (\<lambda>fd.
     modifyp (\<lambda>s. s\<lparr>cout_buffer := Log_buffer fd, cout_good := True\<rparr>))"

definition daemonize :: "daemon_setup \<Rightarrow> string \<Rightarrow> (unit, 'c main_process) prog" where
  "daemonize D log_file =
     (if fork_result D < 0 then exitp (-1)
      else if fork_result D > 0 then seqp (print (''PID of daemon: '' @ decimal (nat (fork_result D)))) (exitp 0)
      else
        seqp (modifyp (\<lambda>s. s\<lparr>umask_bits := 0\<rparr>))
        (seqp (if log_file \<noteq> '''' then open_log D log_file else returnp ())
        (if setsid_result D < 0 then fail ''Error getting SID!''
         else if chdir_result D < 0 then fail ''Error changing working directory''
         else
           seqp (modifyp (\<lambda>s. s\<lparr>working_directory := ''/''\<rparr>))
           (seqp (posix_close 0)
           (seqp (posix_close 1)
           (posix_close 2))))))"

section \<open>main\<close>

definition usage :: "(unit, 'c, 'z) serverprog" where
  "usage =
     seqp (print ''Usage:'')
     (seqp (print ''shepoo [arguments]'')
     (seqp (print '''')
     (seqp (print '''')
     (seqp (print ''--blockStorageFile <filePath>    Path to the file where the blocks are stored'')
     (seqp (print ''--shuffleDBFile <filePath>       Path to the database-file of the shuffle-server'')
     (seqp (print ''--yes-i-am-sure                  If you want one server to be blockstorage- and'')
     (seqp (print ''                                   shuffle-server, you have to give this argument'')
     (seqp (print ''--tlsCertificateFile <filePath>  Path to the TLS certificate'')
     (seqp (print ''--tlsPrivateKeyFile <filePath>   Path to the private key for the given certificate'')
     (seqp (print ''--tlsDHParamFile <filePath>      Path to the dhparam file'')
     (seqp (print ''--tlsCipherSuite <ciphersuite>   OpenSSL ciphersuite string'')
     (seqp (print ''--listenAddress <listenaddress>  The address and port we should listen on'')
     (seqp (print ''--logFile <filepath>             Where to put log-messages in daemon mode'')
     (seqp (print ''--daemonize                      The program will daemonize itself on startup'')
     (seqp (print '''')
     (seqp (print ''There is a better documentation online.'')
     (print '''')))))))))))))))))"

definition PATH_MAX :: nat where
  "PATH_MAX = 4096"

text \<open>A \<open>Protocol\<close> is an object with slots and the storage it was given.\<close>

definition Protocol_new :: "Blockstorage \<Rightarrow> (nat, ('c, 'z) proc_scheme) prog" where
  "Protocol_new storage =
     bindp has_slots_new (\<lambda>ob.
     seqp (modifyp (\<lambda>p. p\<lparr>protocols := (protocols p)(ob \<mapsto> storage)\<rparr>))
     (returnp ob))"

definition run_server ::
  "nat \<Rightarrow> 'c openssl \<Rightarrow> 'c accept_event list \<Rightarrow> tls_setup \<Rightarrow> daemon_setup \<Rightarrow> arguments \<Rightarrow> (int, 'c main_process) prog" where
  "run_server BS L es T D a =
     seqp (if flagDaemonize a \<noteq> 0 then daemonize D (logFile a) else returnp ())
     (bindp (Blockstorage_new (blockStorageFile a)) (\<lambda>storage.
     bindp (Protocol_new storage) (\<lambda>protocolHandler.
     bindp (getp receivedPacket) (\<lambda>sig.
     seqp (signal_connect sig protocolHandler Protocol_packetReceived)
     (seqp (Initialize BS L es T (listenAddress a) (tlsCertificateFile a) (tlsPrivateKeyFile a)
              (tlsDHParamFile a) (tlsCipherSuite a))
     (returnp 0))))))"

text \<open>\<open>VERSION\<close> is a string the build script chooses, \<open>argv\<close> starts with the name of the program.\<close>

definition main ::
  "nat \<Rightarrow> string \<Rightarrow> 'c openssl \<Rightarrow> 'c accept_event list \<Rightarrow> tls_setup \<Rightarrow> daemon_setup \<Rightarrow> string list \<Rightarrow>
   (int, 'c main_process) prog" where
  "main BS VERSION L es T D argv =
     (case option_loop ('''', tl argv) no_arguments of
        Inl Show_help \<Rightarrow> seqp usage (returnp 0)
      | Inl Show_version \<Rightarrow>
          seqp (print (''Shepoo Version '' @ VERSION))
          (seqp (print ''This program is distributed under the terms of the MIT license'')
          (returnp 0))
      | Inr a \<Rightarrow>
          bindp (new_bytes PATH_MAX) (\<lambda>_.
          bindp (getp working_directory) (\<lambda>cwd.
          if missing_arguments a then seqp usage (returnp 0)
          else bindp (absolute_paths cwd a) (run_server BS L es T D))))"

section \<open>What the command line means\<close>

text \<open>
  A command line that spells out a set of arguments. \<open>d i\<close> says whether option \<open>i\<close> is written
  with two dashes, \<open>e i\<close> whether its argument follows an equals sign.
\<close>

definition spell_out :: "(nat \<Rightarrow> bool) \<Rightarrow> (nat \<Rightarrow> bool) \<Rightarrow> arguments \<Rightarrow> string list" where
  "spell_out d e a =
     (if flagDaemonize a \<noteq> 0 then write_flag (d 0) ''daemonize'' else [])
     @ (if yes_i_am_sure a \<noteq> 0 then write_flag (d 1) ''yes-i-am-sure'' else [])
     @ write_long (d 2) (e 2) ''blockStorageFile'' (blockStorageFile a)
     @ write_long (d 3) (e 3) ''shuffleDBFile'' (shuffleDBFile a)
     @ write_long (d 4) (e 4) ''logFile'' (logFile a)
     @ write_long (d 5) (e 5) ''tlsCertificateFile'' (tlsCertificateFile a)
     @ write_long (d 6) (e 6) ''tlsPrivateKeyFile'' (tlsPrivateKeyFile a)
     @ write_long (d 7) (e 7) ''tlsDHParamFile'' (tlsDHParamFile a)
     @ write_long (d 8) (e 8) ''tlsCipherSuite'' (tlsCipherSuite a)
     @ write_long (d 9) (e 9) ''listenAddress'' (listenAddress a)"

lemma long_options_found:
  "find_long longOptions ''daemonize'' = Found 0" "find_long longOptions ''yes-i-am-sure'' = Found 1"
  "find_long longOptions ''blockStorageFile'' = Found 2" "find_long longOptions ''shuffleDBFile'' = Found 3"
  "find_long longOptions ''logFile'' = Found 4" "find_long longOptions ''tlsCertificateFile'' = Found 5"
  "find_long longOptions ''tlsPrivateKeyFile'' = Found 6" "find_long longOptions ''tlsDHParamFile'' = Found 7"
  "find_long longOptions ''tlsCipherSuite'' = Found 8" "find_long longOptions ''listenAddress'' = Found 9"
  by code_simp+

lemma option_step_simps:
  "option_step (Long_option 0 x) a = Inr (a\<lparr>flagDaemonize := 1\<rparr>)"
  "option_step (Long_option 1 x) a = Inr (a\<lparr>yes_i_am_sure := 1\<rparr>)"
  "option_step (Long_option 2 x) a = Inr (a\<lparr>blockStorageFile := x\<rparr>)"
  "option_step (Long_option 3 x) a = Inr (a\<lparr>shuffleDBFile := x\<rparr>)"
  "option_step (Long_option 4 x) a = Inr (a\<lparr>logFile := x\<rparr>)"
  "option_step (Long_option 5 x) a = Inr (a\<lparr>tlsCertificateFile := x\<rparr>)"
  "option_step (Long_option 6 x) a = Inr (a\<lparr>tlsPrivateKeyFile := x\<rparr>)"
  "option_step (Long_option 7 x) a = Inr (a\<lparr>tlsDHParamFile := x\<rparr>)"
  "option_step (Long_option 8 x) a = Inr (a\<lparr>tlsCipherSuite := x\<rparr>)"
  "option_step (Long_option 9 x) a = Inr (a\<lparr>listenAddress := x\<rparr>)"
  "option_step (Long_option 10 x) a = Inl Show_help"
  "option_step (Long_option 11 x) a = Inl Show_version"
  by (simp_all add: option_step_def longOptions_def switch_option_def)

text \<open>One option of the command line, with an argument or without.\<close>

lemma option_loop_long:
  assumes "find_long longOptions name = Found i" and "good_name ''Vh'' d name" and "lo_has_arg (longOptions ! i)"
    and "option_step (Long_option i x) a = Inr b"
  shows "option_loop ('''', write_long d e name x @ rest) a = option_loop ('''', rest) b"
  using getopt_write_long [OF assms(2,1,3), of e x rest] assms(4)
  by (simp add: option_loop.simps [of "('''', write_long d e name x @ rest)"])

lemma option_loop_flag:
  assumes "find_long longOptions name = Found i" and "good_name ''Vh'' d name" and "\<not> lo_has_arg (longOptions ! i)"
    and "option_step (Long_option i '''') a = Inr b"
  shows "option_loop ('''', write_flag d name @ rest) a = option_loop ('''', rest) b"
  using getopt_write_flag [OF assms(2,1,3), of rest] assms(4)
  by (simp add: option_loop.simps [of "('''', write_flag d name @ rest)"])

lemma option_loop_end: "option_loop ('''', []) a = Inr a"
  by (simp add: option_loop.simps)

text \<open>Words that are not options are skipped.\<close>

lemma option_loop_word:
  assumes "\<not> is_option w"
  shows "option_loop ('''', w # rest) a = option_loop ('''', rest) a"
proof -
  have "w \<noteq> ''--''" using assms by (auto simp: is_option_def)
  then have "getopt_long_only longOptions ''Vh'' ('''', w # rest) = getopt_long_only longOptions ''Vh'' ('''', rest)"
    using assms by simp
  then show ?thesis by (simp only: option_loop.simps [of "('''', w # rest)"] option_loop.simps [of "('''', rest)"])
qed

lemma option_loop_options:
  "option_loop ('''', write_flag d ''daemonize'' @ rest) a = option_loop ('''', rest) (a\<lparr>flagDaemonize := 1\<rparr>)"
  "option_loop ('''', write_flag d ''yes-i-am-sure'' @ rest) a = option_loop ('''', rest) (a\<lparr>yes_i_am_sure := 1\<rparr>)"
  "option_loop ('''', write_long d e ''blockStorageFile'' x @ rest) a = option_loop ('''', rest) (a\<lparr>blockStorageFile := x\<rparr>)"
  "option_loop ('''', write_long d e ''shuffleDBFile'' x @ rest) a = option_loop ('''', rest) (a\<lparr>shuffleDBFile := x\<rparr>)"
  "option_loop ('''', write_long d e ''logFile'' x @ rest) a = option_loop ('''', rest) (a\<lparr>logFile := x\<rparr>)"
  "option_loop ('''', write_long d e ''tlsCertificateFile'' x @ rest) a = option_loop ('''', rest) (a\<lparr>tlsCertificateFile := x\<rparr>)"
  "option_loop ('''', write_long d e ''tlsPrivateKeyFile'' x @ rest) a = option_loop ('''', rest) (a\<lparr>tlsPrivateKeyFile := x\<rparr>)"
  "option_loop ('''', write_long d e ''tlsDHParamFile'' x @ rest) a = option_loop ('''', rest) (a\<lparr>tlsDHParamFile := x\<rparr>)"
  "option_loop ('''', write_long d e ''tlsCipherSuite'' x @ rest) a = option_loop ('''', rest) (a\<lparr>tlsCipherSuite := x\<rparr>)"
  "option_loop ('''', write_long d e ''listenAddress'' x @ rest) a = option_loop ('''', rest) (a\<lparr>listenAddress := x\<rparr>)"
  by (rule long_options_found [THEN option_loop_flag] long_options_found [THEN option_loop_long],
      rule good_name_long, simp, simp, simp, simp add: longOptions_def, simp only: option_step_simps)+

lemma option_loop_spell_out:
  assumes "flagDaemonize a \<in> {0, 1}" and "yes_i_am_sure a \<in> {0, 1}"
  shows "option_loop ('''', spell_out d e a) no_arguments = Inr a"
proof -
  have flag: "option_loop ('''', (if flagDaemonize a \<noteq> 0 then write_flag (d 0) ''daemonize'' else []) @ rest) b
      = option_loop ('''', rest) (b\<lparr>flagDaemonize := flagDaemonize a\<rparr>)" if "flagDaemonize b = 0" for b rest
    using that assms(1) by (cases b) (auto simp: option_loop_options)
  have sure: "option_loop ('''', (if yes_i_am_sure a \<noteq> 0 then write_flag (d 1) ''yes-i-am-sure'' else []) @ rest) b
      = option_loop ('''', rest) (b\<lparr>yes_i_am_sure := yes_i_am_sure a\<rparr>)" if "yes_i_am_sure b = 0" for b rest
    using that assms(2) by (cases b) (auto simp: option_loop_options)
  note last = option_loop_options(10) [where rest = "[]", unfolded append_Nil2]
  show ?thesis
    unfolding spell_out_def
    by (simp only: flag sure option_loop_options last option_loop_end no_arguments_def arguments.simps)
      (cases a, simp)
qed

section \<open>Absolute paths before the daemon leaves the directory\<close>

definition absolute :: "string \<Rightarrow> bool" where
  "absolute path \<longleftrightarrow> path \<noteq> '''' \<and> hd path = CHR ''/''"

definition resolve :: "string \<Rightarrow> string \<Rightarrow> string" where
  "resolve cwd path = (if path = '''' \<or> absolute path then path else cwd @ ''/'' @ path)"

lemma make_absolute_run: "path \<noteq> '''' \<Longrightarrow> make_absolute cwd path s = Some (Ret (resolve cwd path), s)"
  by (cases path) (simp_all add: make_absolute_def string_at_def resolve_def absolute_def)

lemma make_absolute_given_run: "make_absolute_given cwd path s = Some (Ret (resolve cwd path), s)"
  by (cases "path = ''''") (simp_all add: make_absolute_given_def make_absolute_run, simp add: resolve_def)

definition resolved :: "string \<Rightarrow> arguments \<Rightarrow> arguments" where
  "resolved cwd a = a\<lparr>tlsCertificateFile := resolve cwd (tlsCertificateFile a),
     tlsPrivateKeyFile := resolve cwd (tlsPrivateKeyFile a),
     tlsDHParamFile := resolve cwd (tlsDHParamFile a),
     blockStorageFile := resolve cwd (blockStorageFile a),
     shuffleDBFile := resolve cwd (shuffleDBFile a), logFile := resolve cwd (logFile a)\<rparr>"

lemma absolute_paths_run:
  "\<not> missing_arguments a \<Longrightarrow> absolute_paths cwd a s = Some (Ret (resolved cwd a), s)"
  by (simp add: absolute_paths_def missing_arguments_def make_absolute_run make_absolute_given_run
      prog_simps resolved_def)

lemma absolute_resolve: "absolute cwd \<Longrightarrow> path \<noteq> '''' \<Longrightarrow> absolute (resolve cwd path)"
  by (auto simp: resolve_def absolute_def)

end
