(* ===== verification/Startup_Service.thy ===== *)
theory Startup_Service
  imports Startup
begin

text \<open>
  From the command line to the running service: the objects \<open>main\<close> sets up are what the
  delivery of packets needs, and the paths it uses do not depend on the directory the
  daemon has left.
\<close>

section \<open>Before main\<close>

text \<open>
  The static signal \<open>SecNet::receivedPacket\<close> exists and nothing is connected to it, no
  socket is open and no file is locked.
\<close>

definition before_main :: "'c main_process \<Rightarrow> bool" where
  "before_main s \<longleftrightarrow> consistent s \<and> m_connected_slots s (receivedPacket s) = Some []
     \<and> sockets s = [] \<and> children s = [] \<and> client_names s = [] \<and> file_locks s = []"

definition setup_ok :: "tls_setup \<Rightarrow> arguments \<Rightarrow> bool" where
  "setup_ok T a \<longleftrightarrow> SSL_CTX_new_ok T \<and> 0 < use_certificate_file T (tlsCertificateFile a)
     \<and> 0 < use_PrivateKey_file T (tlsPrivateKeyFile a) \<and> check_private_key T \<and> 0 < set_options T
     \<and> fopen_ok T (tlsDHParamFile a) \<and> 0 < set_tmp_dh T (tlsDHParamFile a)
     \<and> (tlsCipherSuite a = '''' \<or> 0 < set_cipher_list T (tlsCipherSuite a))
     \<and> socket_result T \<noteq> -1 \<and> bind_result T listen_on = 0 \<and> listen_result T = 0"

definition daemon_ok :: "daemon_setup \<Rightarrow> arguments \<Rightarrow> bool" where
  "daemon_ok D a \<longleftrightarrow> flagDaemonize a = 0
     \<or> (fork_result D = 0 \<and> \<not> setsid_result D < 0 \<and> \<not> chdir_result D < 0)"

section \<open>Initialize\<close>

definition initialized :: "tls_setup \<Rightarrow> ('c, 'z) server_scheme \<Rightarrow> ('c, 'z) server_scheme" where
  "initialized T s = s\<lparr>serverSocket := socket_result T, sockets := socket_result T # sockets s,
     bound := Some listen_on, listening := True\<rparr>"

lemma Initialize_run:
  assumes "setup_ok T a"
  shows "Initialize BS L es T la (tlsCertificateFile a) (tlsPrivateKeyFile a) (tlsDHParamFile a)
      (tlsCipherSuite a) s = ListenLoop BS L es (initialized T s)"
proof -
  have cipher: "\<not> (tlsCipherSuite a \<noteq> '''' \<and> set_cipher_list T (tlsCipherSuite a) \<le> 0)"
    using assms by (auto simp: setup_ok_def)
  have state: "s\<lparr>serverSocket := socket_result T, sockets := socket_result T # sockets s,
      bound := Some listen_on, listening := True\<rparr> = initialized T s"
    by (simp add: initialized_def)
  show ?thesis
    using assms
    by (simp only: Initialize_def cipher if_False)
      (simp add: setup_ok_def prog_simps initialized_def not_le)
qed

section \<open>The service\<close>

text \<open>The state after the log file has been opened, and that of the daemon.\<close>

definition log_opened :: "daemon_setup \<Rightarrow> string \<Rightarrow> ('c, 'z) proc_scheme \<Rightarrow> ('c, 'z) proc_scheme" where
  "log_opened D path s =
     (let fd = free_fd (fds s) 0 (fd_limit s) in
      if \<not> log_opens D path \<or> fd = -1 then s\<lparr>cout_buffer := Log_buffer (-1), cout_good := True\<rparr>
      else s\<lparr>files := (files s)(path \<mapsto> []),
        fds := (fds s)(fd \<mapsto> \<lparr>d_path = path, d_pos = 0, d_writable = True\<rparr>),
        cout_buffer := Log_buffer fd, cout_good := True\<rparr>)"

lemma open_log_run: "open_log D path s = Some (Ret (), log_opened D path s)"
  by (simp add: open_log_def log_opened_def posix_open_trunc_def bindp_run Let_def)

definition daemonized :: "daemon_setup \<Rightarrow> arguments \<Rightarrow> 'c main_process \<Rightarrow> 'c main_process" where
  "daemonized D a s =
     (if flagDaemonize a = 0 then s
      else
        let t = (if logFile a \<noteq> '''' then log_opened D (logFile a) (s\<lparr>umask_bits := 0\<rparr>) else s\<lparr>umask_bits := 0\<rparr>)
        in t\<lparr>working_directory := ''/'', fds := (fds t)(0 := None, 1 := None, 2 := None)\<rparr>)"

lemma daemonize_run:
  assumes "daemon_ok D a"
  shows "(if flagDaemonize a \<noteq> 0 then daemonize D (logFile a) else returnp ()) s = Some (Ret (), daemonized D a s)"
proof (cases "flagDaemonize a = 0")
  case True
  then show ?thesis by (simp add: daemonized_def)
next
  case False
  with assms have D: "fork_result D = 0" "\<not> setsid_result D < 0" "\<not> chdir_result D < 0"
    by (simp_all add: daemon_ok_def)
  have log: "(if logFile a \<noteq> [] then open_log D (logFile a) else returnp ()) t
      = Some (Ret (), if logFile a \<noteq> [] then log_opened D (logFile a) t else t)"
    for t :: "'c main_process"
    by (simp add: open_log_run)
  have "daemonize D (logFile a) s = Some (Ret (), daemonized D a s)"
    unfolding daemonize_def D(1)
    by (simp only: D(2,3) if_False if_True less_irrefl, rule seqp_step, rule modifyp_run, rule seqp_step,
        rule log, rule seqp_step, rule modifyp_run)
      (simp add: posix_close_def seqp_def bindp_def daemonized_def False Let_def)
  with False show ?thesis by simp
qed

lemma log_opened_fields [simp]:
  "can_alloc (log_opened D path s) = can_alloc s" "string_limit (log_opened D path s) = string_limit s"
  "file_locks (log_opened D path s) = file_locks s" "fd_limit (log_opened D path s) = fd_limit s"
  "brk (log_opened D path s) = brk s" "links (log_opened D path s) = links s"
  "receivedPacket (log_opened D path s) = receivedPacket s" "protocols (log_opened D path s) = protocols s"
  "sockets (log_opened D path s) = sockets s" "proc.more (log_opened D path s) = proc.more s"
  by (simp_all add: log_opened_def links_def Let_def)

lemma daemonized_fields [simp]:
  "can_alloc (daemonized D a s) = can_alloc s" "string_limit (daemonized D a s) = string_limit s"
  "file_locks (daemonized D a s) = file_locks s" "fd_limit (daemonized D a s) = fd_limit s"
  "brk (daemonized D a s) = brk s" "links (daemonized D a s) = links s"
  "receivedPacket (daemonized D a s) = receivedPacket s" "protocols (daemonized D a s) = protocols s"
  "sockets (daemonized D a s) = sockets s" "children (daemonized D a s) = children s"
  "client_names (daemonized D a s) = client_names s"
  by (simp_all add: daemonized_def log_opened_def links_def Let_def)

text \<open>The log is not written over the blocks: neither the stream the program starts with nor its log file.\<close>

definition log_elsewhere :: "arguments \<Rightarrow> ('c, 'z) proc_scheme \<Rightarrow> bool" where
  "log_elsewhere a s \<longleftrightarrow> log_apart s (blockStorageFile a)
     \<and> (flagDaemonize a = 0 \<or> logFile a = '''' \<or> logFile a \<noteq> blockStorageFile a)"

lemma daemonized_file:
  assumes "log_elsewhere a s"
  shows "files (daemonized D a s) (blockStorageFile a) = files s (blockStorageFile a)"
    and "log_apart (daemonized D a s) (blockStorageFile a)"
  using assms
  by (auto simp: log_elsewhere_def daemonized_def log_opened_def log_apart_def cout_fd_def Let_def)

text \<open>The protocol object and its one connection.\<close>

lemma connect_handler:
  fixes s :: "'c main_process"
  assumes con: "consistent s" and sig: "m_connected_slots s (receivedPacket s) = Some []"
  shows "\<exists>t. bindp (Protocol_new st) (\<lambda>ob.
        bindp (getp receivedPacket) (\<lambda>sig.
        seqp (signal_connect sig ob Protocol_packetReceived) k)) s = k t
     \<and> wired t st \<and> files t = files s \<and> can_alloc t = can_alloc s \<and> string_limit t = string_limit s \<and> file_locks t = file_locks s
     \<and> fds t = fds s \<and> fd_limit t = fd_limit s \<and> sockets t = sockets s
     \<and> children t = children s \<and> client_names t = client_names s \<and> console t = console s"
proof -
  let ?o = "s\<lparr>brk := Suc (brk s), m_senders := (m_senders s)(brk s \<mapsto> [])\<rparr>"
  let ?p = "?o\<lparr>protocols := (protocols s)(brk s \<mapsto> st)\<rparr>"
  let ?k = "\<lparr>m_pobject = brk s, m_pmemfun = Protocol_packetReceived\<rparr>"
  let ?t = "with_connection (receivedPacket s) ?k [] [] ?p"
  have new: "Protocol_new st s = Some (Ret (brk s), ?p)"
    by (simp add: Protocol_new_def has_slots_new_def fresh_address_def set_senders_def seqp_def bindp_def)
  have conp: "consistent ?p"
    by (rule consistent_mono [OF consistent_new_object(1) [OF con]]) (simp_all add: links_def)
  have slots: "m_connected_slots ?p (receivedPacket s) = Some []" "m_senders ?p (brk s) = Some []"
    using sig by simp_all
  have recv: "receivedPacket ?p = receivedPacket s" by simp
  have connect: "signal_connect (receivedPacket ?p) (brk s) Protocol_packetReceived ?p = Some (Ret (), ?t)"
    unfolding recv by (rule signal_connect_with [OF slots])
  have run: "bindp (Protocol_new st) (\<lambda>ob.
        bindp (getp receivedPacket) (\<lambda>sig.
        seqp (signal_connect sig ob Protocol_packetReceived) k)) s = k ?t"
    by (rule bindp_step, rule new, rule bindp_step, rule getp_run, rule seqp_step, rule connect, rule refl)
  have "consistent ?t" by (rule with_connection_links(1) [OF conp]) (use slots in simp_all)
  then have "wired ?t st" by (simp add: wired_def with_connection_def)
  with run show ?thesis
    by (intro exI [of _ ?t] conjI) (simp_all add: with_connection_def console_def)
qed

text \<open>Without early returns \<open>main\<close> ends in the loop, in a state from which the service runs.\<close>

lemma run_server_run:
  assumes before: "before_main s" and T: "setup_ok T a" and D: "daemon_ok D a"
    and data: "files s (blockStorageFile a) = Some content" "BS \<le> length content" "length content < 2 ^ 63"
    and log: "log_elsewhere a s" and memory: "can_alloc s BS" and fd: "free_fd (fds (daemonized D a s)) 0 (fd_limit s) \<noteq> -1"
  shows "\<exists>t. run_server BS L es T D a s = seqp (ListenLoop BS L es) (returnp 0) t
     \<and> server_start BS \<lparr>bs_path = blockStorageFile a, bs_fileLength = of_nat (length content)\<rparr> content t
     \<and> can_alloc t = can_alloc s \<and> string_limit t = string_limit s \<and> console t = console (daemonized D a s) \<and> fds t = fds (daemonized D a s)
     \<and> serverSocket t = socket_result T"
proof -
  let ?d = "daemonized D a s" and ?st = "\<lparr>bs_path = blockStorageFile a, bs_fileLength = of_nat (length content)\<rparr> :: Blockstorage"
  have con: "consistent ?d"
    by (rule consistent_mono [of s]) (use before in \<open>simp_all add: before_main_def\<close>)
  have sig: "m_connected_slots ?d (receivedPacket ?d) = Some []"
    using before daemonized_fields(6) [of D a s] by (simp add: before_main_def links_def)
  have storage: "Blockstorage_new (blockStorageFile a) ?d = Some (Ret ?st, ?d)"
    using data(1) daemonized_file(1) [OF log] by (simp add: Blockstorage_new_def posix_stat_size_def bindp_run)
  from connect_handler [OF con sig, of ?st "seqp (Initialize BS L es T (listenAddress a) (tlsCertificateFile a)
      (tlsPrivateKeyFile a) (tlsDHParamFile a) (tlsCipherSuite a)) (returnp (0::int))"]
  obtain w where w: "bindp (Protocol_new ?st) (\<lambda>ob.
        bindp (getp receivedPacket) (\<lambda>sig.
        seqp (signal_connect sig ob Protocol_packetReceived)
          (seqp (Initialize BS L es T (listenAddress a) (tlsCertificateFile a)
      (tlsPrivateKeyFile a) (tlsDHParamFile a) (tlsCipherSuite a)) (returnp (0::int))))) ?d
      = seqp (Initialize BS L es T (listenAddress a) (tlsCertificateFile a)
      (tlsPrivateKeyFile a) (tlsDHParamFile a) (tlsCipherSuite a)) (returnp (0::int)) w"
    and wired: "wired w ?st" and same: "files w = files ?d" "can_alloc w = can_alloc s" "string_limit w = string_limit s" "file_locks w = file_locks s"
      "fds w = fds ?d" "fd_limit w = fd_limit s" "sockets w = sockets s" "children w = children s"
      "client_names w = client_names s" "console w = console ?d"
    by auto
  let ?t = "initialized T w"
  have "run_server BS L es T D a s = seqp (Initialize BS L es T (listenAddress a) (tlsCertificateFile a)
      (tlsPrivateKeyFile a) (tlsDHParamFile a) (tlsCipherSuite a)) (returnp 0) w"
    unfolding run_server_def
    by (rule seqp_step, rule daemonize_run [OF D], rule bindp_step, rule storage, rule w)
  also have "\<dots> = seqp (ListenLoop BS L es) (returnp 0) ?t"
    by (simp add: seqp_def bindp_def Initialize_run [OF T])
  finally have run: "run_server BS L es T D a s = seqp (ListenLoop BS L es) (returnp 0) ?t" .
  have "wired ?t ?st"
    by (rule wired_cong [OF wired]) (simp_all add: initialized_def)
  moreover have "serves ?t BS ?st content"
    using data memory fd same before daemonized_file(1) [OF log]
    by (simp add: serves_def initialized_def before_main_def unat_of_nat)
  moreover have "log_apart ?t (blockStorageFile a)"
    using daemonized_file(2) [OF log, of D] same by (simp add: log_apart_def cout_fd_def initialized_def console_def)
  ultimately have "server_start BS ?st content ?t"
    using same before by (simp add: server_start_def initialized_def before_main_def)
  with run same show ?thesis
    by (intro exI [of _ ?t]) (simp add: initialized_def console_def)
qed

lemma main_run:
  assumes args: "option_loop ('''', tl argv) no_arguments = Inr a" "\<not> missing_arguments a" and alloc: "can_alloc s PATH_MAX"
  shows "main BS V L es T D argv s = run_server BS L es T D (resolved (working_directory s) a) (s\<lparr>brk := Suc (brk s)\<rparr>)"
  using alloc
  by (simp add: main_def args new_bytes_run bindp_run absolute_paths_run)

text \<open>\<open>main\<close> as a whole: the loop starts in a state ready for clients, and \<open>main\<close> ends where the loop ends.\<close>

lemma main_reaches_loop:
  assumes before: "before_main s" and args: "option_loop ('''', tl argv) no_arguments = Inr a" "\<not> missing_arguments a"
    and a': "a' = resolved (working_directory s) a" and T: "setup_ok T a'" and D: "daemon_ok D a'"
    and data: "files s (blockStorageFile a') = Some content" "BS \<le> length content" "length content < 2 ^ 63"
    and log: "log_elsewhere a' s"
    and memory: "can_alloc s BS" "can_alloc s PATH_MAX" "can_alloc s INET6_ADDRSTRLEN"
    and fd: "free_fd (fds (daemonized D a' s)) 0 (fd_limit s) \<noteq> -1"
  obtains u t where "main BS V L es T D argv s = Some (Ret 0, t)" "ListenLoop BS L es u = Some (Ret (), t)"
    "server_start BS \<lparr>bs_path = blockStorageFile a', bs_fileLength = of_nat (length content)\<rparr> content u"
    "can_alloc u = can_alloc s" "string_limit u = string_limit s" "console u = console (daemonized D a' s)"
    "fds u = fds (daemonized D a' s)" "serverSocket u = socket_result T"
proof -
  let ?s = "s\<lparr>brk := Suc (brk s)\<rparr>"
  have con: "consistent s" using before by (simp add: before_main_def)
  have "consistent ?s" by (rule consistent_mono [OF con]) (simp_all add: links_def)
  then have before': "before_main ?s" using before by (simp add: before_main_def)
  have run: "main BS V L es T D argv s = run_server BS L es T D a' ?s"
    using main_run [OF args memory(2)] a' by simp
  have same: "console (daemonized D a' ?s) = console (daemonized D a' s)" "fds (daemonized D a' ?s) = fds (daemonized D a' s)"
    by (simp_all add: daemonized_def log_opened_def console_def Let_def)
  have "log_elsewhere a' ?s" using log by (simp add: log_elsewhere_def log_apart_def cout_fd_def)
  from run_server_run [OF before' T D _ data(2,3) this, of L es] data(1) memory(1) fd same
  obtain u where u: "run_server BS L es T D a' ?s = seqp (ListenLoop BS L es) (returnp 0) u"
    "server_start BS \<lparr>bs_path = blockStorageFile a', bs_fileLength = of_nat (length content)\<rparr> content u"
    "can_alloc u = can_alloc s" "string_limit u = string_limit s" "console u = console (daemonized D a' s)"
    "fds u = fds (daemonized D a' s)" "serverSocket u = socket_result T"
    by auto
  from ListenLoop_goes_on [of u BS L es] memory(3) u(3) obtain t where t: "ListenLoop BS L es u = Some (Ret (), t)"
    by auto
  with run u(1) have "main BS V L es T D argv s = Some (Ret 0, t)" by (simp add: seqp_run)
  from that [OF this t u(2-)] show ?thesis .
qed

end
