(* ===== verification/Command_Line.thy ===== *)
theory Command_Line
  imports Startup
begin

text \<open>
  What the words of a command line mean, said without the table of the program and without
  \<open>getopt_long_only\<close>: the options by their names, the ways to write each of them, and what each
  of them sets.
\<close>

section \<open>The options\<close>

datatype program_option =
    Daemonize | Yes_i_am_sure | Block_storage_file | Shuffle_DB_file | Log_file_option | Tls_certificate_file
  | Tls_private_key_file | Tls_DH_param_file | Tls_cipher_suite | Listen_address | Help | Version

definition all_options :: "program_option list" where
  "all_options = [Daemonize, Yes_i_am_sure, Block_storage_file, Shuffle_DB_file, Log_file_option, Tls_certificate_file,
     Tls_private_key_file, Tls_DH_param_file, Tls_cipher_suite, Listen_address, Help, Version]"

lemma all_options_complete [simp]: "opt \<in> set all_options"
  by (cases opt) (simp_all add: all_options_def)

primrec full_name :: "program_option \<Rightarrow> string" where
  "full_name Daemonize = ''daemonize''"
| "full_name Yes_i_am_sure = ''yes-i-am-sure''"
| "full_name Block_storage_file = ''blockStorageFile''"
| "full_name Shuffle_DB_file = ''shuffleDBFile''"
| "full_name Log_file_option = ''logFile''"
| "full_name Tls_certificate_file = ''tlsCertificateFile''"
| "full_name Tls_private_key_file = ''tlsPrivateKeyFile''"
| "full_name Tls_DH_param_file = ''tlsDHParamFile''"
| "full_name Tls_cipher_suite = ''tlsCipherSuite''"
| "full_name Listen_address = ''listenAddress''"
| "full_name Help = ''help''"
| "full_name Version = ''version''"

text \<open>\<open>x\<close> is the argument, for the options that take one.\<close>

primrec sets :: "program_option \<Rightarrow> string \<Rightarrow> arguments \<Rightarrow> early_return + arguments" where
  "sets Daemonize x a = Inr (a\<lparr>flagDaemonize := 1\<rparr>)"
| "sets Yes_i_am_sure x a = Inr (a\<lparr>yes_i_am_sure := 1\<rparr>)"
| "sets Block_storage_file x a = Inr (a\<lparr>blockStorageFile := x\<rparr>)"
| "sets Shuffle_DB_file x a = Inr (a\<lparr>shuffleDBFile := x\<rparr>)"
| "sets Log_file_option x a = Inr (a\<lparr>logFile := x\<rparr>)"
| "sets Tls_certificate_file x a = Inr (a\<lparr>tlsCertificateFile := x\<rparr>)"
| "sets Tls_private_key_file x a = Inr (a\<lparr>tlsPrivateKeyFile := x\<rparr>)"
| "sets Tls_DH_param_file x a = Inr (a\<lparr>tlsDHParamFile := x\<rparr>)"
| "sets Tls_cipher_suite x a = Inr (a\<lparr>tlsCipherSuite := x\<rparr>)"
| "sets Listen_address x a = Inr (a\<lparr>listenAddress := x\<rparr>)"
| "sets Help x a = Inl Show_help"
| "sets Version x a = Inl Show_version"

definition takes_argument :: "program_option \<Rightarrow> bool" where
  "takes_argument opt \<longleftrightarrow> opt \<notin> {Daemonize, Yes_i_am_sure, Help, Version}"

text \<open>An option may be called by the start of its name, as long as no other name starts like this.\<close>

definition abbreviates :: "string \<Rightarrow> program_option \<Rightarrow> bool" where
  "abbreviates s opt \<longleftrightarrow> take (length s) (full_name opt) = s
     \<and> (\<forall>opt'\<in>set all_options. opt' \<noteq> opt \<longrightarrow> take (length s) (full_name opt') \<noteq> s)"

section \<open>The words\<close>

text \<open>
  The parts of a command line: an option without an argument, with two dashes or one; an option
  with its argument, behind an equals sign or as the next word; the short options; and words that
  are no options.
\<close>

datatype part =
    Flag program_option bool string
  | Valued program_option bool bool string string
  | Short_help
  | Short_version
  | Word string

primrec write_part :: "part \<Rightarrow> string list" where
  "write_part (Flag opt two_dashes s) = write_flag two_dashes s"
| "write_part (Valued opt two_dashes equals s x) = write_long two_dashes equals s x"
| "write_part Short_help = [''-h'']"
| "write_part Short_version = [''-V'']"
| "write_part (Word w) = [w]"

text \<open>The name \<open>h\<close> with one dash is the short option.\<close>

primrec part_ok :: "part \<Rightarrow> bool" where
  "part_ok (Flag opt two_dashes s) \<longleftrightarrow> \<not> takes_argument opt \<and> abbreviates s opt \<and> (two_dashes \<or> s \<noteq> ''h'')"
| "part_ok (Valued opt two_dashes equals s x) \<longleftrightarrow> takes_argument opt \<and> abbreviates s opt"
| "part_ok Short_help \<longleftrightarrow> True"
| "part_ok Short_version \<longleftrightarrow> True"
| "part_ok (Word w) \<longleftrightarrow> \<not> is_option w"

primrec part_sets :: "part \<Rightarrow> arguments \<Rightarrow> early_return + arguments" where
  "part_sets (Flag opt two_dashes s) a = sets opt '''' a"
| "part_sets (Valued opt two_dashes equals s x) a = sets opt x a"
| "part_sets Short_help a = Inl Show_help"
| "part_sets Short_version a = Inl Show_version"
| "part_sets (Word w) a = Inr a"

primrec meaning :: "part list \<Rightarrow> arguments \<Rightarrow> early_return + arguments" where
  "meaning [] a = Inr a"
| "meaning (g # gs) a = (case part_sets g a of Inl e \<Rightarrow> Inl e | Inr b \<Rightarrow> meaning gs b)"

section \<open>The table of the program\<close>

primrec table_index :: "program_option \<Rightarrow> nat" where
  "table_index Daemonize = 0"
| "table_index Yes_i_am_sure = 1"
| "table_index Block_storage_file = 2"
| "table_index Shuffle_DB_file = 3"
| "table_index Log_file_option = 4"
| "table_index Tls_certificate_file = 5"
| "table_index Tls_private_key_file = 6"
| "table_index Tls_DH_param_file = 7"
| "table_index Tls_cipher_suite = 8"
| "table_index Listen_address = 9"
| "table_index Help = 10"
| "table_index Version = 11"

lemma table_entry:
  "lo_name (longOptions ! table_index opt) = full_name opt"
  "lo_has_arg (longOptions ! table_index opt) = takes_argument opt"
  "option_step (Long_option (table_index opt) x) a = sets opt x a"
  by (cases opt; simp add: longOptions_def takes_argument_def option_step_def switch_option_def)+

lemma table_indices: "[0..<length longOptions] = map table_index all_options" "distinct (map table_index all_options)"
  by (simp_all add: longOptions_def all_options_def upt_rec)

lemma filter_the_one:
  "distinct xs \<Longrightarrow> x \<in> set xs \<Longrightarrow> P x \<Longrightarrow> \<forall>y\<in>set xs. y \<noteq> x \<longrightarrow> \<not> P y \<Longrightarrow> filter P xs = [x]"
proof (induction xs)
  case (Cons y ys)
  show ?case
  proof (cases "y = x")
    case True
    with Cons.prems have "filter P ys = []" by (auto simp: filter_empty_conv)
    with True Cons.prems(3) show ?thesis by simp
  next
    case False
    with Cons show ?thesis by simp
  qed
qed simp

lemma find_long_abbreviated:
  assumes "abbreviates s opt"
  shows "find_long longOptions s = Found (table_index opt)"
proof -
  let ?i = "table_index opt"
  have distinct: "distinct all_options" using table_indices(2) by (simp only: distinct_map)
  have only: "filter (\<lambda>opt. take (length s) (full_name opt) = s) all_options = [opt]"
    using assms by (intro filter_the_one [OF distinct]) (auto simp: abbreviates_def)
  have start: "filter (\<lambda>i. take (length s) (lo_name (longOptions ! i)) = s) [0..<length longOptions] = [?i]"
    using only by (simp add: table_indices(1) filter_map comp_def table_entry(1))
  have "set (filter (\<lambda>i. lo_name (longOptions ! i) = s) [0..<length longOptions]) \<subseteq> {?i}"
    using arg_cong [OF start, of set] by fastforce
  moreover have "distinct (filter (\<lambda>i. lo_name (longOptions ! i) = s) [0..<length longOptions])" by simp
  ultimately have "filter (\<lambda>i. lo_name (longOptions ! i) = s) [0..<length longOptions] \<in> {[], [?i]}"
    by (cases "filter (\<lambda>i. lo_name (longOptions ! i) = s) [0..<length longOptions]";
        cases "tl (filter (\<lambda>i. lo_name (longOptions ! i) = s) [0..<length longOptions])") auto
  with start show ?thesis by (auto simp: find_long_def)
qed

lemma abbreviation_good:
  assumes "abbreviates s opt" and "two_dashes \<or> s \<noteq> ''h''"
  shows "good_name ''Vh'' two_dashes s"
proof -
  have s: "s = take (length s) (full_name opt)" using assms(1) by (simp add: abbreviates_def)
  have "s \<noteq> ''''"
  proof
    assume "s = ''''"
    with assms(1) have "\<forall>opt'\<in>set all_options. opt' = opt" by (simp add: abbreviates_def)
    then show False by (cases opt) (simp_all add: all_options_def)
  qed
  moreover from this have "hd s = hd (full_name opt)" by (metis s hd_take length_greater_0_conv)
  moreover have "set s \<subseteq> set (full_name opt)" by (metis s set_take_subset)
  moreover have "CHR ''='' \<notin> set (full_name opt)" "hd (full_name opt) \<noteq> CHR ''-''" "hd (full_name opt) \<noteq> CHR ''V''"
    by (cases opt; simp)+
  moreover have "length s = 1 \<Longrightarrow> hd s = CHR ''h'' \<Longrightarrow> s = ''h''" by (cases s) auto
  ultimately show ?thesis using assms(2) by (auto simp: good_name_def)
qed

section \<open>Reading a command line\<close>

lemma option_loop_step:
  assumes "getopt_long_only longOptions ''Vh'' ('''', ws) = Some (g, '''', rest)"
  shows "option_loop ('''', ws) a = (case option_step g a of Inl e \<Rightarrow> Inl e | Inr b \<Rightarrow> option_loop ('''', rest) b)"
  using assms by (simp add: option_loop.simps [of "('''', ws)"])

lemma option_loop_part:
  assumes "part_ok g"
  shows "option_loop ('''', write_part g @ rest) a
     = (case part_sets g a of Inl e \<Rightarrow> Inl e | Inr b \<Rightarrow> option_loop ('''', rest) b)"
proof (cases g)
  case (Flag opt two_dashes s)
  with assms have ok: "\<not> takes_argument opt" "abbreviates s opt" "two_dashes \<or> s \<noteq> ''h''" by simp_all
  from getopt_write_flag [OF abbreviation_good [OF ok(2,3)] find_long_abbreviated [OF ok(2)]] ok(1)
  show ?thesis by (simp add: Flag table_entry option_loop_step)
next
  case (Valued opt two_dashes equals s x)
  with assms have ok: "takes_argument opt" "abbreviates s opt" by simp_all
  have "s \<noteq> ''h''"
  proof
    assume "s = ''h''"
    with ok(2) have "take 1 (full_name Help) \<noteq> s \<or> opt = Help" by (auto simp: abbreviates_def all_options_def)
    with \<open>s = ''h''\<close> ok(1) show False by (simp add: takes_argument_def)
  qed
  then have "two_dashes \<or> s \<noteq> ''h''" by simp
  from getopt_write_long [OF abbreviation_good [OF ok(2) this] find_long_abbreviated [OF ok(2)]] ok(1)
  show ?thesis by (simp add: Valued table_entry option_loop_step)
next
  case Short_help
  have "getopt_long_only longOptions ''Vh'' ('''', ''-h'' # rest) = Some (Other_option CHR ''h'', '''', rest)"
    by (simp add: is_option_def take_word_def take_short_def)
  from option_loop_step [OF this] show ?thesis by (simp add: Short_help option_step_def switch_option_def)
next
  case Short_version
  have "getopt_long_only longOptions ''Vh'' ('''', ''-V'' # rest) = Some (Other_option CHR ''V'', '''', rest)"
    by (simp add: is_option_def take_word_def take_short_def)
  from option_loop_step [OF this] show ?thesis by (simp add: Short_version option_step_def switch_option_def)
next
  case (Word w)
  with assms show ?thesis by (simp add: option_loop_word)
qed

text \<open>Two dashes alone end the options.\<close>

definition options_end :: "string list \<Rightarrow> bool" where
  "options_end ws \<longleftrightarrow> ws = [] \<or> hd ws = ''--''"

lemma option_loop_ends: "options_end ws \<Longrightarrow> option_loop ('''', ws) a = Inr a"
  by (cases ws) (simp_all add: options_end_def option_loop.simps)

lemma option_loop_parts:
  "\<forall>g\<in>set gs. part_ok g \<Longrightarrow> options_end ws \<Longrightarrow> option_loop ('''', concat (map write_part gs) @ ws) a = meaning gs a"
proof (induction gs arbitrary: a)
  case Nil
  then show ?case by (simp add: option_loop_ends)
next
  case (Cons g gs)
  then have "option_loop ('''', concat (map write_part gs) @ ws) b = meaning gs b" for b by simp
  with option_loop_part [of g "concat (map write_part gs) @ ws" a] Cons.prems(1) show ?case by (simp split: sum.split)
qed

end
