(* ===== verification/Startup_Properties.thy ===== *)
theory Startup_Properties
  imports Startup_Service Command_Line Network_Properties
begin

text \<open>
  What a caller of the program can rely on: when the service comes up, what it then
  guarantees for every client, and what the command line and its paths mean.
\<close>

section \<open>An example process\<close>

definition sample_main :: "(u8 list list \<times> u8 list) main_process" where
  "sample_main = \<lparr>brk = 10, indet = (\<lambda>k i. 170), can_alloc = (\<lambda>n. True), string_limit = 4096,
     files = [''/srv/blocks'' \<mapsto> sample_file], fds = Map.empty, fd_limit = 16, file_locks = [],
     conn_heap = Map.empty, m_connected_slots = [1 \<mapsto> []], m_senders = Map.empty,
     ssl = ([], []), webSocket = False, sockets = [], serverSocket = 0,
     receivedPacket = 1, protocols = Map.empty, cout_buffer = Stdout_buffer, cout_good = True, printed = [],
     listening = False, bound = None, children = [], client_names = [], umask_bits = 18, working_directory = ''/srv''\<rparr>"

definition sample_setup :: tls_setup where
  "sample_setup = \<lparr>SSL_CTX_new_ok = True, use_certificate_file = (\<lambda>f. 1), use_PrivateKey_file = (\<lambda>f. 1),
     check_private_key = True, set_options = 1, fopen_ok = (\<lambda>f. True), set_tmp_dh = (\<lambda>f. 1),
     set_cipher_list = (\<lambda>c. 1), socket_result = 3, bind_result = (\<lambda>a. 0), listen_result = 0\<rparr>"

definition sample_daemon :: daemon_setup where
  "sample_daemon = \<lparr>fork_result = 0, log_opens = (\<lambda>f. True), setsid_result = 7, chdir_result = 0\<rparr>"

definition sample_arguments :: arguments where
  "sample_arguments = no_arguments\<lparr>blockStorageFile := ''blocks'', tlsCertificateFile := ''cert'',
     tlsPrivateKeyFile := ''key'', tlsDHParamFile := ''/etc/dh''\<rparr>"

lemma sample_before_main: "before_main sample_main"
proof -
  have "slot_of sample_main s c = False" "dest_of sample_main c = None" "connected sample_main s ob = False" for s c ob
    by (simp_all add: slot_of_def dest_of_def connected_def sample_main_def)
  then have "consistent sample_main"
    unfolding consistent_def slots_allocated_def slots_disjoint_def no_leaks_def links_agree_def addresses_used_def
    by (simp add: sample_main_def)
  then show ?thesis by (simp add: before_main_def sample_main_def)
qed

definition sample_command :: "string list" where
  "sample_command = ''shepoo'' # spell_out (\<lambda>i. True) (\<lambda>i. i = 2) sample_arguments"

lemma sample_command_read: "option_loop ('''', tl sample_command) no_arguments = Inr sample_arguments"
  unfolding sample_command_def list.sel
  by (rule option_loop_spell_out) (simp_all add: sample_arguments_def no_arguments_def)

section \<open>The service\<close>

text \<open>
  C1: with valid arguments, a block file at least one block long that is not the log, and a working
  environment,
  \<open>main\<close> comes to listen on the default port of any address, and whatever clients come,
  the listening process keeps no socket but its own and every child it has forked runs
  \<open>serve_client\<close> from a state with the handler connected and the file ready.
\<close>

theorem main_starts_service:
  assumes before: "before_main s" and args: "option_loop ('''', tl argv) no_arguments = Inr a" "\<not> missing_arguments a"
    and a': "a' = resolved (working_directory s) a" and T: "setup_ok T a'" and D: "daemon_ok D a'"
    and data: "files s (blockStorageFile a') = Some content" "BS \<le> length content" "length content < 2 ^ 63"
    and log: "log_elsewhere a' s"
    and memory: "can_alloc s BS" "can_alloc s PATH_MAX" "can_alloc s INET6_ADDRSTRLEN"
    and fd: "free_fd (fds (daemonized D a' s)) 0 (fd_limit s) \<noteq> -1"
  shows "\<exists>t st. main BS V L es T D argv s = Some (Ret 0, t) \<and> server_ok BS L st content t
     \<and> bs_path st = blockStorageFile a'"
proof -
  obtain u t where t: "main BS V L es T D argv s = Some (Ret 0, t)" "ListenLoop BS L es u = Some (Ret (), t)"
    and u: "server_start BS \<lparr>bs_path = blockStorageFile a', bs_fileLength = of_nat (length content)\<rparr> content u"
    by (rule main_reaches_loop [OF assms, of V L es])
  from t(1) listener.inv_reachable [OF u ListenLoop_steps [OF t(2)]] show ?thesis
    by (intro exI [of _ t] exI [of _ "\<lparr>bs_path = blockStorageFile a', bs_fileLength = of_nat (length content)\<rparr>"]) simp
qed

theorem main_starts_service_witness:
  "\<exists>t st. main 4 ''0.1'' sample_tls
       [\<lparr>ev_socket = 4, ev_errno = 0, ev_pid = 77, ev_ip = ''::1'', ev_flag = False, ev_ssl = ([], [])\<rparr>]
       sample_setup sample_daemon sample_command sample_main = Some (Ret 0, t)
     \<and> server_ok 4 sample_tls st sample_file t \<and> bs_path st = ''/srv/blocks''"
proof -
  have path: "blockStorageFile (resolved (working_directory sample_main) sample_arguments) = ''/srv/blocks''"
    by (simp add: resolved_def resolve_def absolute_def sample_arguments_def sample_main_def)
  have "free_fd Map.empty 0 16 \<noteq> -1" by (simp add: free_fd_first)
  then show ?thesis
    unfolding path [symmetric]
    by (intro main_starts_service [OF sample_before_main sample_command_read])
      (use path in \<open>simp_all add: sample_arguments_def no_arguments_def missing_arguments_def
         setup_ok_def sample_setup_def daemon_ok_def resolved_def daemonized_def log_elsewhere_def log_apart_def sample_main_def sample_file_def\<close>)
qed

text \<open>
  C29: \<open>Initialize\<close> never starts to listen unless every check has passed: otherwise it ends
  the process, or crashes on the parameter file it could not open.
\<close>

theorem Initialize_fails_closed:
  assumes "\<not> setup_ok T a"
  shows "\<exists>r t. Initialize BS L es T la (tlsCertificateFile a) (tlsPrivateKeyFile a) (tlsDHParamFile a)
        (tlsCipherSuite a) s = Some (r, t)
     \<and> (r = Exit (-1) \<or> r = Undefined Null_pointer \<and> \<not> fopen_ok T (tlsDHParamFile a))
     \<and> listening t = listening s \<and> children t = children s"
proof -
  have cipher: "(tlsCipherSuite a \<noteq> '''' \<and> set_cipher_list T (tlsCipherSuite a) \<le> 0)
      \<longleftrightarrow> \<not> (tlsCipherSuite a = '''' \<or> 0 < set_cipher_list T (tlsCipherSuite a))" by auto
  show ?thesis
    using assms unfolding Initialize_def cipher
    by (auto simp: setup_ok_def prog_simps not_less)
qed

theorem Initialize_fails_closed_witness:
  "\<exists>r t. Initialize 4 sample_tls [] (sample_setup\<lparr>fopen_ok := \<lambda>f. False\<rparr>) '''' ''cert'' ''key'' ''/etc/dh'' '''' sample_main
       = Some (r, t) \<and> \<not> listening t"
proof -
  have "\<not> setup_ok (sample_setup\<lparr>fopen_ok := \<lambda>f. False\<rparr>) sample_arguments" by (simp add: setup_ok_def)
  from Initialize_fails_closed [OF this, of 4 sample_tls "[]" "''''" sample_main] show ?thesis
    by (auto simp: sample_arguments_def no_arguments_def sample_main_def)
qed

section \<open>The command line\<close>

text \<open>
  C30: a command line means what its parts mean, one after the other: any of the twelve options in
  any order and number, with two dashes or one, by the full name or by any start of it that no
  other name has, the argument behind an equals sign or as the next word, whatever it is; \<open>-h\<close> and
  \<open>-V\<close>; and words between them that are no options. Help and version end it at once, two dashes end
  the options. Short options in one word and words that are refused are left out.
\<close>

theorem command_line_understood:
  assumes "\<forall>g\<in>set gs. part_ok g" and "options_end ws"
  shows "option_loop ('''', concat (map write_part gs) @ ws) a = meaning gs a"
  using assms by (rule option_loop_parts)

theorem command_line_understood_witness:
  "option_loop ('''', [''-daemon'', ''shepoo.conf'', ''--tlsCe=cert'', ''-b'', ''--help'', ''--log='', ''--'', ''--version'']) no_arguments
   = Inr (no_arguments\<lparr>flagDaemonize := 1, tlsCertificateFile := ''cert'', blockStorageFile := ''--help''\<rparr>)"
proof -
  let ?gs = "[Flag Daemonize False ''daemon'', Word ''shepoo.conf'', Valued Tls_certificate_file True True ''tlsCe'' ''cert'',
     Valued Block_storage_file False False ''b'' ''--help'', Valued Log_file_option True True ''log'' '''']"
  have "\<forall>g\<in>set ?gs. part_ok g"
    by (simp add: takes_argument_def abbreviates_def all_options_def is_option_def)
  moreover have "options_end [''--'', ''--version'']" by (simp add: options_end_def)
  ultimately have "option_loop ('''', concat (map write_part ?gs) @ [''--'', ''--version'']) no_arguments = meaning ?gs no_arguments"
    by (rule command_line_understood)
  then show ?thesis by (simp add: write_flag_def write_long_def no_arguments_def)
qed

text \<open>
  Once the arguments are complete, making the paths absolute does not throw, and every
  path that was given names the same file after the daemon has left its directory.
\<close>

lemma paths_survive_daemon:
  assumes "\<not> missing_arguments a" and "absolute cwd"
  shows "\<exists>b. absolute_paths cwd a s = Some (Ret b, s)
     \<and> absolute (tlsCertificateFile b) \<and> absolute (tlsPrivateKeyFile b) \<and> absolute (tlsDHParamFile b)
     \<and> (\<forall>f\<in>{blockStorageFile, shuffleDBFile, logFile}. f a = '''' \<and> f b = '''' \<or> absolute (f b))"
proof -
  have "tlsCertificateFile a \<noteq> ''''" "tlsPrivateKeyFile a \<noteq> ''''" "tlsDHParamFile a \<noteq> ''''"
    using assms(1) by (auto simp: missing_arguments_def)
  moreover have "f = '''' \<and> resolve cwd f = '''' \<or> absolute (resolve cwd f)" for f
    using absolute_resolve [OF assms(2), of f] by (cases "f = ''''") (simp_all add: resolve_def)
  ultimately show ?thesis
    unfolding absolute_paths_run [OF assms(1)]
    by (intro exI [of _ "resolved cwd a"]) (simp add: resolved_def absolute_resolve [OF assms(2)])
qed

lemma paths_survive_daemon_witness:
  "\<exists>b. absolute_paths ''/srv'' sample_arguments () = Some (Ret b, ()) \<and> absolute (tlsCertificateFile b)"
proof -
  have "\<not> missing_arguments sample_arguments" "absolute ''/srv''"
    by (simp_all add: missing_arguments_def sample_arguments_def no_arguments_def absolute_def)
  from paths_survive_daemon [OF this, of "()"] show ?thesis by blast
qed

text \<open>
  A server that is started as shuffle server only still sets up a block storage, for the
  empty path; it has no file, and claims to have every block.
\<close>

lemma shuffle_server_offers_blocks:
  assumes "blockStorageFile a = ''''" and "\<not> missing_arguments a" and "files s '''' = None"
    and "0 < BS" and "(unat num + 1) * BS \<le> 2 ^ 64" and "BS < 2 ^ 64"
  shows "bindp (absolute_paths cwd a) (\<lambda>b. bindp (Blockstorage_new (blockStorageFile b)) (\<lambda>st.
      returnp (isBlockAvailable BS st num))) s = Some (Ret True, s)"
proof -
  have "isBlockAvailable BS \<lparr>bs_path = '''', bs_fileLength = 0\<rparr> num"
    by (rule short_available) (use assms in simp_all)
  then show ?thesis
    using assms(1,3)
    by (simp add: bindp_run absolute_paths_run [OF assms(2)] resolved_def resolve_def Blockstorage_new_def posix_stat_size_def)
qed

lemma shuffle_server_offers_blocks_witness:
  "bindp (absolute_paths ''/srv'' (sample_arguments\<lparr>blockStorageFile := '''', shuffleDBFile := ''db''\<rparr>))
     (\<lambda>b. bindp (Blockstorage_new (blockStorageFile b)) (\<lambda>st. returnp (isBlockAvailable 4 st 99))) sample_machine
     = Some (Ret True, sample_machine)"
  by (rule shuffle_server_offers_blocks)
    (simp_all add: missing_arguments_def sample_arguments_def no_arguments_def sample_machine_def)

end
