(* ===== verification/Client_Frame.thy ===== *)
theory Client_Frame
  imports SecNet_Requests
begin

text \<open>
  What a client cannot do, whatever it sends: as long as its behaviour is defined, the process that
  serves it keeps the files (but the one its messages go to), the signals and the protocol objects
  as they were, and does not return to the accept loop. In the state in which it ends the static
  signal can be destroyed, as \<open>exit\<close> does.
\<close>

section \<open>What a client process keeps\<close>

definition server_kept :: "'c proc \<Rightarrow> 'c proc \<Rightarrow> bool" where
  "server_kept p q \<longleftrightarrow> (\<forall>path. log_apart p path \<longrightarrow> log_apart q path \<and> files q path = files p path) \<and> links q = links p \<and> receivedPacket q = receivedPacket p
     \<and> protocols q = protocols p \<and> serverSocket q = serverSocket p \<and> set (sockets q) \<subseteq> set (sockets p)
     \<and> fd_limit q = fd_limit p \<and> can_alloc q = can_alloc p \<and> string_limit q = string_limit p \<and> brk p \<le> brk q"

interpretation kept: frame server_kept
  by unfold_locales (auto simp: server_kept_def)

lemma server_kept_wired: "server_kept p q \<Longrightarrow> wired p st \<Longrightarrow> wired q st"
  by (rule wired_mono) (auto simp: server_kept_def)

named_theorems kept_intros "rules for within server_kept"

lemmas [kept_intros] = kept.within_intros

lemma kept_modifyp [kept_intros]:
  "(\<And>p. server_kept p (g p)) \<Longrightarrow> within server_kept (modifyp g)"
  by (rule within_modifyp)

lemma kept_machine [kept_intros]:
  "within server_kept (local_bytes n)" "within server_kept (new_bytes n)"
  "within server_kept (posix_open_rdonly path)" "within server_kept (posix_lseek fd off)"
  "within server_kept (posix_lockf fd cmd len)" "within server_kept (posix_read fd n)"
  "within server_kept (posix_close fd)"
  by (auto simp: within_def server_kept_def links_def log_apart_def cout_fd_def local_bytes_def new_bytes_def posix_open_rdonly_def
      posix_lseek_def posix_lockf_def posix_read_def posix_close_def Let_def
      split: if_splits option.splits lock_command.splits)

lemma kept_ssl [kept_intros]:
  "within server_kept (ssl_read L buf n)" "within server_kept (ssl_write L n bs)"
  "within server_kept (ssl_write_all L bs)" "within server_kept (ssl_accept L)"
  by (auto simp: within_def server_kept_def links_def log_apart_def cout_fd_def ssl_read_def ssl_write_def ssl_write_all_def ssl_accept_def
      split: if_splits prod.splits)

lemma kept_print [kept_intros]: "within server_kept (print msg)" "within server_kept (fail msg :: ('a, 'c) netprog)"
  by (auto simp: within_def print_def fail_run server_kept_def links_def files_said)

section \<open>The operations of a client process\<close>

lemma kept_getBlock [kept_intros]: "within server_kept (getBlock BS st num)"
  unfolding getBlock_def by (intro kept_intros)

lemma kept_storeBlock [kept_intros]: "within server_kept (storeBlock BS st num bytes)"
  unfolding storeBlock_def by (intro kept_intros)

lemma kept_extract [kept_intros]: "within server_kept (extractUint64FromPayload payload)"
  unfolding extractUint64FromPayload_def by (intro kept_intros)

lemma kept_sendPacket [kept_intros]: "within server_kept (sendPacket L packet payload)"
  unfolding sendPacket_def write_payload_def by (intro kept_intros)

lemma kept_call_slot [kept_intros]: "within server_kept (call_slot BS L packet payload k)"
  unfolding call_slot_def packetReceived_def
  by (cases "m_pmemfun k") (simp, intro kept_intros)

lemma kept_lookups [kept_intros]:
  "within server_kept (deref_connection c)" "within server_kept (get_senders ob)" "within server_kept (get_slots s)"
  by (auto simp: within_def deref_connection_def get_senders_def get_slots_def kept.frame_refl split: option.splits)

lemma kept_connection_emit:
  "(\<And>k. within server_kept (call k)) \<Longrightarrow> within server_kept (connection_emit call c)"
  unfolding connection_emit_def by (intro kept_intros)

lemma kept_emit_loop:
  assumes call: "\<And>k. within server_kept (call k)"
  shows "within server_kept (emit_loop call s it)"
proof (rule withinI)
  fix p r q assume "emit_loop call s it p = Some (r, q)"
  then show "server_kept p q"
    using call
  proof (induction call s it p "(r, q)" arbitrary: r q rule: emit_loop.raw_induct [rotated, consumes 1])
    case (1 f call s it p)
    have body: "server_kept p p'" if "connection_emit call c p = Some (o', p')" for c o' p'
      using withinD [OF kept_connection_emit [OF 1(3)] that] .
    from 1(2) show ?case
      by (auto simp: Let_def kept.frame_refl intro: body kept.frame_trans 1(1) [OF _ 1(3)]
          split: option.splits if_splits prod.splits outcome.splits)
  qed
qed

lemma kept_emit [kept_intros]: "within server_kept (emit_receivedPacket BS L packet payload)"
  unfolding emit_receivedPacket_def signal_emit_def
  by (intro kept_intros kept_emit_loop)

lemma kept_frame [kept_intros]: "within server_kept (handleWebSocketFrame BS L)"
  unfolding handleWebSocketFrame_def read_payloadLength_def by (intro kept_intros)

lemma kept_append_char [kept_intros]: "within server_kept (append_char headerLines headers c)"
  by (auto simp: within_def append_char_def kept.frame_refl split: if_splits)

lemma kept_initial_lines [kept_intros]: "within server_kept (initial_lines cs headerLines headers)"
  by (induction cs headerLines headers rule: initial_lines.induct)
    (simp_all only: initial_lines.simps, intro kept_intros; simp)+

lemma kept_read_lines [kept_intros]: "within server_kept (read_lines L headerLines headers)"
proof (rule withinI)
  fix p r q assume "read_lines L headerLines headers p = Some (r, q)"
  then show "server_kept p q"
  proof (induction L headerLines headers p "(r, q)" arbitrary: r q rule: read_lines.raw_induct [rotated, consumes 1])
    case (1 f L headerLines headers p)
    have read: "server_kept p p'" if "ssl_read L buf n p = Some (o', p')" for buf n o' p'
      using withinD [OF kept_ssl(1) that] .
    from 1(2) show ?case
      by (auto simp: Let_def kept.frame_refl intro: read kept.frame_trans 1(1)
          split: option.splits if_splits prod.splits outcome.splits)
  qed
qed

lemma kept_handleWebSocket [kept_intros]: "within server_kept (handleWebSocket BS L packet)"
  unfolding handleWebSocket_def
  by (intro kept_intros) (simp add: server_kept_def links_def log_apart_def cout_fd_def)

lemma kept_report_errors [kept_intros]: "within server_kept (report_errors ms :: (unit, 'c) netprog)"
  by (induction ms) (unfold report_errors.simps sslErrorCallback_def, (intro kept_intros; assumption)+)

lemma kept_SecNet_new [kept_intros]: "within server_kept (SecNet_new BS L)"
  unfolding SecNet_new_def
  by (intro kept_intros) (auto simp: server_kept_def links_def log_apart_def cout_fd_def)

lemma kept_serve_client: "within server_kept (serve_client BS L)"
  unfolding serve_client_def by (intro kept_intros)

lemma serve_client_never_returns: "serve_client BS L p \<noteq> Some (Ret u, q)"
  by (auto simp: serve_client_def exitp_def elim: seqp_RetE)

section \<open>The end of a client process\<close>

text \<open>
  The destructor finds the one connection, whose object is still alive: \<open>exit\<close> does not
  destroy the variables of \<open>main\<close>.
\<close>

lemma destroy_receivedPacket_run:
  assumes "wired p st"
  shows "\<exists>q. destroy_receivedPacket p = Some (Ret (), q) \<and> consistent q \<and> files q = files p
     \<and> m_connected_slots q = (m_connected_slots p)(receivedPacket p := None) \<and> \<not> connected q (receivedPacket p) ob"
proof -
  from assms obtain c where con: "consistent p" and slots: "m_connected_slots p (receivedPacket p) = Some [c]"
    by (auto simp: wired_def)
  obtain q where run: "signal_destroy (receivedPacket p) p = Some (Ret (), q)" "files q = files p"
    using signal_disconnect_all_run [OF con slots] by (simp add: signal_destroy_def prog_simps)
  from signal_destroy_consistent [OF con slots run(1)] run show ?thesis
    by (intro exI [of _ q]) (simp add: destroy_receivedPacket_def prog_simps)
qed

lemma serve_client_ends:
  assumes "serve_client BS L p = Some (r, q)" and "wired p st"
  shows "r \<noteq> Ret ()" and "server_kept p q" and "\<exists>q'. destroy_receivedPacket q = Some (Ret (), q') \<and> files q' = files q"
proof -
  show "r \<noteq> Ret ()" using assms(1) serve_client_never_returns by metis
  show kept: "server_kept p q" by (rule withinD [OF kept_serve_client assms(1)])
  from destroy_receivedPacket_run [OF server_kept_wired [OF kept assms(2)]]
  show "\<exists>q'. destroy_receivedPacket q = Some (Ret (), q') \<and> files q' = files q" by blast
qed

end
