(* ===== verification/Service.thy ===== *)
theory Service
  imports Startup_Service Network_Properties Client_Frame
begin

text \<open>
  The service as its clients see it: from the conditions under which \<open>main\<close> runs to the bytes
  each client gets. The abstract server maps the conversation a client starts to the bytes of
  the answer, over the blocks of the file.
\<close>

section \<open>When the service runs\<close>

text \<open>The conditions under which \<open>main\<close> comes to serve the blocks of a file.\<close>

definition ready_to_serve ::
  "nat \<Rightarrow> tls_setup \<Rightarrow> daemon_setup \<Rightarrow> string list \<Rightarrow> arguments \<Rightarrow> u8 list \<Rightarrow> 'c main_process \<Rightarrow> bool" where
  "ready_to_serve BS T D argv a content s \<longleftrightarrow> before_main s
     \<and> (\<exists>b. option_loop ('''', tl argv) no_arguments = Inr b \<and> \<not> missing_arguments b
          \<and> a = resolved (working_directory s) b)
     \<and> setup_ok T a \<and> daemon_ok D a
     \<and> files s (blockStorageFile a) = Some content \<and> BS \<le> length content \<and> length content < 2 ^ 63
     \<and> log_elsewhere a s \<and> can_alloc s BS \<and> can_alloc s PATH_MAX \<and> can_alloc s INET6_ADDRSTRLEN
     \<and> free_fd (fds (daemonized D a s)) 0 (fd_limit s) \<noteq> -1"

definition storage_of :: "arguments \<Rightarrow> u8 list \<Rightarrow> Blockstorage" where
  "storage_of a content = \<lparr>bs_path = blockStorageFile a, bs_fileLength = of_nat (length content)\<rparr>"

abbreviation file_blocks :: "nat \<Rightarrow> arguments \<Rightarrow> u8 list \<Rightarrow> u64 \<rightharpoonup> u8 list" where
  "file_blocks BS a content \<equiv> blocks_of BS (storage_of a content) content"

lemma ready_to_serve_loop:
  assumes "ready_to_serve BS T D argv a content s"
  obtains u t where "main BS V L es T D argv s = Some (Ret 0, t)" "ListenLoop BS L es u = Some (Ret (), t)"
    "server_start BS (storage_of a content) content u" "can_alloc u = can_alloc s"
    "string_limit u = string_limit s" "console u = console (daemonized D a s)" "fds u = fds (daemonized D a s)" "serverSocket u = socket_result T"
proof -
  from assms obtain b where b: "option_loop ('''', tl argv) no_arguments = Inr b" "\<not> missing_arguments b"
      "a = resolved (working_directory s) b"
    by (auto simp: ready_to_serve_def)
  have "before_main s" using assms by (simp add: ready_to_serve_def)
  then show ?thesis
    by (rule main_reaches_loop [OF _ b, of T D content BS V L es])
      (use assms in \<open>simp_all add: ready_to_serve_def that storage_of_def\<close>)
qed

section \<open>Conversations\<close>

text \<open>
  What a client may say: one request directly, or an HTTP request for a WebSocket, with its first
  line and its headers, and one request in a frame.
\<close>

datatype conversation =
    Direct request
  | Over_websocket string "string list" request

primrec request_of :: "conversation \<Rightarrow> request" where
  "request_of (Direct r) = r"
| "request_of (Over_websocket l0 ls r) = r"

text \<open>The bytes the abstract server sends; \<open>ws\<close> is what the memory of the object held for the flag.\<close>

primrec prescribed ::
  "nat \<Rightarrow> 'c openssl \<Rightarrow> (u64 \<rightharpoonup> u8 list) \<Rightarrow> bool \<Rightarrow> conversation \<Rightarrow> u8 list" where
  "prescribed BS L blocks ws (Direct r) = answer_bytes BS blocks ws r"
| "prescribed BS L blocks ws (Over_websocket l0 ls r) =
     bytes_of_string (handshake_answer (acceptKey L (hs_key (seen_headers ls)))) @ answer_bytes BS blocks True r"

text \<open>The records that are to come on a connection hold the conversation.\<close>

primrec says :: "(nat \<Rightarrow> bool) \<Rightarrow> nat \<Rightarrow> u8 list list \<Rightarrow> conversation \<Rightarrow> bool" where
  "says alloc limit records (Direct r) \<longleftrightarrow>
     (\<exists>rs. arrives records [bytes_of_Packet (request_packet r), request_payload r] rs)
     \<and> length (request_payload r) \<le> 134217728 \<and> alloc (length (request_payload r))"
| "says alloc limit records (Over_websocket l0 ls r) \<longleftrightarrow>
     good_request l0 ls \<and> request_fits limit l0 ls \<and> hs_version (seen_headers ls) = ''13'' \<and> hs_protocol (seen_headers ls) = ''shepoo''
     \<and> (\<exists>frames h len key rs. request_arrives l0 ls frames records
          \<and> announces h len \<and> length key = 4 \<and> opcode h = 2
          \<and> arrives frames (frame_chunks h len key (masked h key (bytes_of_Packet (request_packet r) @ request_payload r))) rs
          \<and> 10 + length (request_payload r) = unat len \<and> unat len < 2 ^ 31 \<and> alloc (unat len + 1))"

text \<open>A client for whom the fork succeeds, and whose connection is made.\<close>

definition connects :: "'c openssl \<Rightarrow> 'c accept_event \<Rightarrow> bool" where
  "connects L e \<longleftrightarrow> forked e \<and> \<not> SSL_new_fails L \<and> fst (SSL_accept L (ev_ssl e)) = 1"

text \<open>A conversation the server can answer.\<close>

definition converses ::
  "nat \<Rightarrow> 'c openssl \<Rightarrow> ('c \<Rightarrow> u8 list list) \<Rightarrow> (nat \<Rightarrow> bool) \<Rightarrow> nat \<Rightarrow> (u64 \<rightharpoonup> u8 list) \<Rightarrow>
     'c accept_event \<Rightarrow> conversation \<Rightarrow> bool" where
  "converses BS L pending alloc limit blocks e v \<longleftrightarrow> connects L e
     \<and> request_ok BS (request_of v) \<and> answerable blocks (request_of v) \<and> says alloc limit (pending (ev_ssl e)) v"

section \<open>What a client gets\<close>

lemma conversation_served:
  assumes L: "openssl_behaves L pending sent" and acc: "accepts L p"
    and server: "wired p st" "serves p BS st content" and BS: "BS < 2 ^ 31"
    and v: "request_ok BS (request_of v)" "answerable (blocks_of BS st content) (request_of v)"
      "says (can_alloc p) (string_limit p) (pending (ssl p)) v"
  shows "\<exists>p'. serve_client BS L p = Some (Exit (-1), p')
     \<and> sent (ssl p') = sent (ssl p) @ prescribed BS L (blocks_of BS st content) (webSocket p) v"
proof (cases v)
  case (Direct r)
  with v obtain rs where "arrives (pending (ssl p)) [bytes_of_Packet (request_packet r), request_payload r] rs"
    by auto
  from raw_request_served [OF L acc server _ BS _ this] v Direct show ?thesis by fastforce
next
  case (Over_websocket l0 ls r)
  with v obtain frames h len key rs where
    pend: "good_request l0 ls" "request_arrives l0 ls frames (pending (ssl p))" "request_fits (string_limit p) l0 ls"
      "hs_version (seen_headers ls) = ''13''" "hs_protocol (seen_headers ls) = ''shepoo''"
    and frame: "announces h len" "length key = 4" "opcode h = 2"
      "arrives frames (frame_chunks h len key (masked h key (bytes_of_Packet (request_packet r) @ request_payload r))) rs"
      "10 + length (request_payload r) = unat len" "unat len < 2 ^ 31" "can_alloc p (unat len + 1)"
    by auto
  from websocket_request_served [OF L acc pend server _ BS _ frame] v Over_websocket show ?thesis by simp
qed

lemma child_converses:
  assumes L: "openssl_behaves L pending sent" and BS: "BS < 2 ^ 31"
    and child: "child_of BS L st content alloc limit e c"
    and v: "converses BS L pending alloc limit (blocks_of BS st content) e v"
  shows "\<exists>p'. c = (ev_pid e, Some (Exit (-1), p'))
     \<and> sent (ssl p') = sent (ev_ssl e) @ prescribed BS L (blocks_of BS st content) (ev_flag e) v"
proof -
  from child obtain p where p: "fst c = ev_pid e" "snd c = serve_client BS L p" "wired p st" "serves p BS st content"
      "can_alloc p = alloc" "string_limit p = limit" "ssl p = ev_ssl e" "webSocket p = ev_flag e"
    by (auto simp: child_of_def)
  from v p(5-8) have "accepts L p" "request_ok BS (request_of v)" "answerable (blocks_of BS st content) (request_of v)"
      "says (can_alloc p) (string_limit p) (pending (ssl p)) v"
    by (auto simp: converses_def connects_def accepts_def)
  from conversation_served [OF L this(1) p(3,4) BS this(2-4)] p(1,2,7,8) show ?thesis
    by (cases c) auto
qed

lemma loop_converses:
  assumes L: "openssl_behaves L pending sent" and loop: "ListenLoop BS L es u = Some (Ret (), t)"
    and start: "server_start BS st content u" and BS: "BS < 2 ^ 31"
    and e: "e \<in> set es" and v: "converses BS L pending (can_alloc u) (string_limit u) (blocks_of BS st content) e v"
  shows "\<exists>p'. (ev_pid e, Some (Exit (-1), p')) \<in> set (children t)
     \<and> sent (ssl p') = sent (ev_ssl e) @ prescribed BS L (blocks_of BS st content) (ev_flag e) v"
proof -
  from start have ready: "listening u" "wired u st" "serves u BS st content" "log_apart u (bs_path st)" by (simp_all add: server_start_def)
  from v have "forked e" by (simp add: converses_def connects_def)
  from ListenLoop_child [OF loop ready e this] obtain c where
    "c \<in> set (children t)" "child_of BS L st content (can_alloc u) (string_limit u) e c" by blast
  with child_converses [OF L BS this(2) v] show ?thesis by auto
qed

section \<open>The abstract service\<close>

text \<open>What can be seen of a process from outside: its number, how it ended, and what it sent.\<close>

definition observed ::
  "('c \<Rightarrow> u8 list) \<Rightarrow> int \<times> (unit outcome \<times> 'c proc) option \<Rightarrow> int \<times> (unit outcome \<times> u8 list) option" where
  "observed sent c = (fst c, map_option (\<lambda>(r, p). (r, sent (ssl p))) (snd c))"

definition abstract_service ::
  "nat \<Rightarrow> 'c openssl \<Rightarrow> ('c \<Rightarrow> u8 list) \<Rightarrow> (u64 \<rightharpoonup> u8 list) \<Rightarrow> 'c accept_event list \<Rightarrow> conversation list \<Rightarrow>
     (int \<times> (unit outcome \<times> u8 list) option) list" where
  "abstract_service BS L sent blocks es vs =
     map2 (\<lambda>e v. (ev_pid e, Some (Exit (-1), sent (ev_ssl e) @ prescribed BS L blocks (ev_flag e) v))) es vs"

lemma children_observed:
  assumes L: "openssl_behaves L pending sent" and BS: "BS < 2 ^ 31"
  shows "list_all2 (child_of BS L st content alloc limit) es cs \<Longrightarrow>
     list_all2 (converses BS L pending alloc limit (blocks_of BS st content)) es vs \<Longrightarrow>
     map (observed sent) cs = abstract_service BS L sent (blocks_of BS st content) es vs"
proof (induction arbitrary: vs rule: list_all2_induct)
  case Nil
  then show ?case by (simp add: abstract_service_def)
next
  case (Cons e es c cs)
  from Cons.prems obtain v vs' where vs: "vs = v # vs'"
    "converses BS L pending alloc limit (blocks_of BS st content) e v"
    "list_all2 (converses BS L pending alloc limit (blocks_of BS st content)) es vs'"
    by (auto simp: list_all2_Cons1)
  from child_converses [OF L BS Cons.hyps(1) vs(2)] Cons.IH [OF vs(3)] show ?case
    by (auto simp: abstract_service_def observed_def vs(1))
qed

end
