(* ===== verification/Service_Properties.thy ===== *)
theory Service_Properties
  imports Startup_Properties Service
begin

text \<open>
  What the service promises its clients from the command line to the bytes on the wire, and
  what it does not.
\<close>

section \<open>An example service\<close>

text \<open>The example process and clients that connect to it.\<close>

definition sample_client :: "int \<Rightarrow> u8 list list \<times> u8 list \<Rightarrow> (u8 list list \<times> u8 list) accept_event" where
  "sample_client k c = \<lparr>ev_socket = 1, ev_errno = 0, ev_pid = k, ev_ip = ''::1'', ev_flag = False, ev_ssl = c\<rparr>"

definition sample_request :: "request \<Rightarrow> u8 list list \<times> u8 list" where
  "sample_request r = ([bytes_of_Packet (request_packet r), request_payload r], [])"

lemma sample_main_fields:
  "files sample_main ''/srv/blocks'' = Some sample_file" "can_alloc sample_main n" "working_directory sample_main = ''/srv''"
  by (simp_all add: sample_main_def)

lemma sample_ready:
  assumes "d \<in> {0, 1}" and "k \<noteq> -1"
  shows "ready_to_serve 4 (sample_setup\<lparr>socket_result := k\<rparr>) sample_daemon
      (''shepoo'' # spell_out (\<lambda>i. True) (\<lambda>i. i = 2) (sample_arguments\<lparr>flagDaemonize := d\<rparr>))
      (resolved ''/srv'' (sample_arguments\<lparr>flagDaemonize := d\<rparr>)) sample_file sample_main"
proof -
  let ?a = "sample_arguments\<lparr>flagDaemonize := d\<rparr>"
  have "option_loop ('''', spell_out (\<lambda>i. True) (\<lambda>i. i = 2) ?a) no_arguments = Inr ?a"
    by (rule option_loop_spell_out) (use assms in \<open>simp_all add: sample_arguments_def no_arguments_def\<close>)
  moreover have "blockStorageFile (resolved ''/srv'' ?a) = ''/srv/blocks''"
    by (simp add: resolved_def resolve_def absolute_def sample_arguments_def)
  moreover have "\<not> missing_arguments ?a"
    by (simp add: sample_arguments_def no_arguments_def missing_arguments_def)
  moreover have "free_fd (fds (daemonized sample_daemon (resolved ''/srv'' ?a) sample_main)) 0 (fd_limit sample_main) \<noteq> -1"
    by (simp add: free_fd_first daemonized_def resolved_def resolve_def sample_arguments_def no_arguments_def sample_main_def)
  moreover have "log_elsewhere (resolved ''/srv'' ?a) sample_main"
    by (simp add: log_elsewhere_def log_apart_def resolved_def resolve_def sample_arguments_def no_arguments_def sample_main_def)
  ultimately show ?thesis
    using assms(2)
    by (simp add: ready_to_serve_def sample_before_main sample_main_fields setup_ok_def sample_setup_def daemon_ok_def
        sample_file_def) (simp add: sample_daemon_def)
qed

lemma sample_ready_plain:
  "ready_to_serve 4 sample_setup sample_daemon sample_command (resolved ''/srv'' sample_arguments) sample_file sample_main"
proof -
  have "sample_setup\<lparr>socket_result := 3\<rparr> = sample_setup" "sample_arguments\<lparr>flagDaemonize := 0\<rparr> = sample_arguments"
    by (simp_all add: sample_setup_def sample_arguments_def no_arguments_def)
  with sample_ready [of 0 3] show ?thesis by (simp add: sample_command_def)
qed

lemma sample_stored:
  "file_blocks 4 (resolved ''/srv'' sample_arguments) sample_file 1 = Some [5, 6, 7, 8]"
  using sample_blocks(1)
  by (simp add: blocks_of_def isBlockAvailable_def storage_of_def sample_storage_def sample_file_def)

lemma sample_converses:
  assumes "k \<noteq> -1" and "request_ok 4 r" and "answerable (file_blocks 4 (resolved ''/srv'' sample_arguments) sample_file) r"
    and "0 < length (request_payload r)" and "length (request_payload r) \<le> 134217728"
  shows "converses 4 sample_tls fst (can_alloc sample_main) (string_limit sample_main)
     (file_blocks 4 (resolved ''/srv'' sample_arguments) sample_file)
     (sample_client k (sample_request r)) (Direct r)"
proof -
  have "bytes_of_Packet (request_packet r) \<noteq> []"
    using packet.length_enc [of "request_packet r"] by auto
  with assms arrives_records [of "[bytes_of_Packet (request_packet r), request_payload r]" "[]"] show ?thesis
    by (auto simp: converses_def connects_def forked_def sample_client_def sample_request_def sample_main_def sample_tls_def)
qed

text \<open>A WebSocket client that asks for block 1.\<close>

definition sample_frames :: "u8 list list" where
  "sample_frames = [bytes_of_header sample_frame_header, [1, 2, 3, 4],
     masked sample_frame_header [1, 2, 3, 4] (bytes_of_Packet (request_packet (Read_block 1)) @ be_of_word 1)]"

definition sample_browser :: "(u8 list list \<times> u8 list) accept_event" where
  "sample_browser = sample_client 78 (bytes_of_string (http_request sample_request_line sample_headers) # sample_frames, [])"

lemma sample_browser_converses:
  "converses 4 sample_tls fst (can_alloc sample_main) (string_limit sample_main)
     (file_blocks 4 (resolved ''/srv'' sample_arguments) sample_file)
     sample_browser (Over_websocket sample_request_line sample_headers (Read_block 1))"
proof -
  let ?body = "masked sample_frame_header [1, 2, 3, 4] (bytes_of_Packet (request_packet (Read_block 1)) @ be_of_word 1)"
  have "[] \<notin> set sample_frames"
    using frame_header.length_enc [of sample_frame_header]
      length_masked [of sample_frame_header "[1, 2, 3, 4]" "bytes_of_Packet (request_packet (Read_block 1)) @ be_of_word 1"]
    by (auto simp: sample_frames_def packet.length_enc simp del: length_masked)
  then have "arrives sample_frames sample_frames []" using arrives_records [of sample_frames "[]"] by simp
  then have "arrives sample_frames (frame_chunks sample_frame_header 18 [1, 2, 3, 4] ?body) []"
    unfolding sample_frames_def
    by (simp add: frame_chunks_def length_bytes_def sample_frame_header_def del: arrives.simps(2))
      (simp add: arrives.simps(2))
  moreover have "request_arrives sample_request_line sample_headers sample_frames
      (bytes_of_string (http_request sample_request_line sample_headers) # sample_frames)"
    by (rule request_arrives_one) (simp add: sample_request_line_def)
  moreover have "announces sample_frame_header 18" "opcode sample_frame_header = 2"
    by (simp_all add: announces_def sample_frame_header_def)
  ultimately have "says (\<lambda>n. True) 4096 (bytes_of_string (http_request sample_request_line sample_headers) # sample_frames)
      (Over_websocket sample_request_line sample_headers (Read_block 1))"
    unfolding says.simps
    by (intro conjI exI [of _ sample_frames] exI [of _ sample_frame_header] exI [of _ 18] exI [of _ "[1, 2, 3, 4]"] exI [of _ "[]"])
      (simp_all add: sample_request_good sample_request_fits sample_headers_seen)
  then show ?thesis
    by (simp add: converses_def connects_def forked_def sample_browser_def sample_client_def sample_tls_def sample_main_def
        answerable_def sample_stored)
qed

section \<open>Answers\<close>

text \<open>
  C2: from the command line to the bytes on the wire. Once \<open>main\<close> runs under these conditions,
  every client that starts a conversation the server can answer, directly or over a WebSocket, has
  a process of its own that sends it exactly what the abstract server prescribes for the blocks of
  the file, and ends; whatever other clients come before or after, what they send, and whether
  their connections, forks or processes fail. The server can answer a well-formed request when a read
  is of a block inside the file (C32), the parts of packet and frame arrive whole (C33), the payload
  is at most 128 MiB or its frame shorter than \<open>2 ^ 31\<close> bytes, the HTTP request is one it can read
  (C27), and the memory for it can be allocated.
\<close>

theorem service_answers_clients:
  assumes ready: "ready_to_serve BS T D argv a content s" and L: "openssl_behaves L pending sent" and BS: "BS < 2 ^ 31"
    and e: "e \<in> set es" and v: "converses BS L pending (can_alloc s) (string_limit s) (file_blocks BS a content) e v"
  shows "\<exists>t p'. main BS V L es T D argv s = Some (Ret 0, t)
     \<and> (ev_pid e, Some (Exit (-1), p')) \<in> set (children t)
     \<and> sent (ssl p') = sent (ev_ssl e) @ prescribed BS L (file_blocks BS a content) (ev_flag e) v"
proof -
  obtain u t where t: "main BS V L es T D argv s = Some (Ret 0, t)" "ListenLoop BS L es u = Some (Ret (), t)"
    and u: "server_start BS (storage_of a content) content u" "can_alloc u = can_alloc s" "string_limit u = string_limit s"
    by (rule ready_to_serve_loop [OF ready])
  from loop_converses [OF L t(2) u(1) BS e] v u(2,3) t(1) show ?thesis by auto
qed

theorem service_answers_clients_witness:
  "\<exists>t p'. main 4 ''0.1'' sample_tls [sample_client 76 ([], []), sample_browser, sample_client 79 ([[71]], [])]
       sample_setup sample_daemon sample_command sample_main = Some (Ret 0, t)
     \<and> (78, Some (Exit (-1), p')) \<in> set (children t)
     \<and> snd (ssl p') = bytes_of_string (handshake_answer (acceptKey sample_tls ''x''))
         @ [130, 14] @ bytes_of_Packet \<lparr>version = 1, command = 5, payloadLength = 4\<rparr> @ [5, 6, 7, 8]"
proof -
  let ?es = "[sample_client 76 ([], []), sample_browser, sample_client 79 ([[71]], [])]"
  have e: "sample_browser \<in> set ?es" by simp
  have "hs_key (seen_headers sample_headers) = ''x''"
    by (simp add: seen_headers_def sample_headers_def no_headers_def note_header_def headerName_def headerContent_def)
  moreover have "ev_pid sample_browser = 78" "snd (ev_ssl sample_browser) = []"
    by (simp_all add: sample_browser_def sample_client_def)
  moreover have "wire_bytes True \<lparr>version = 1, command = 5, payloadLength = 4\<rparr> [5, 6, 7, 8]
      = [130, 14] @ bytes_of_Packet \<lparr>version = 1, command = 5, payloadLength = 4\<rparr> @ [5, 6, 7, 8]"
    by (simp add: wire_bytes_def frame_prefix_def answer_header_def bytes_of_header_layout sizeof_Packet_def)
  ultimately show ?thesis
    using service_answers_clients [OF sample_ready_plain sample_tls_behaves _ e sample_browser_converses, of "''0.1''"]
    by (simp add: answer_bytes_def sample_stored data_of_def)
qed

text \<open>
  C3: the service refines an abstract server. When every client that comes starts a conversation,
  there is exactly one process for each of them, in the order in which they came, and what can
  be observed of the processes is what the abstract server does.
\<close>

theorem service_refines_server:
  assumes ready: "ready_to_serve BS T D argv a content s" and L: "openssl_behaves L pending sent" and BS: "BS < 2 ^ 31"
    and vs: "list_all2 (converses BS L pending (can_alloc s) (string_limit s) (file_blocks BS a content)) es vs"
  shows "\<exists>t. main BS V L es T D argv s = Some (Ret 0, t)
     \<and> map (observed sent) (rev (children t)) = abstract_service BS L sent (file_blocks BS a content) es vs"
proof -
  obtain u t where t: "main BS V L es T D argv s = Some (Ret 0, t)" "ListenLoop BS L es u = Some (Ret (), t)"
    and u: "server_start BS (storage_of a content) content u" "can_alloc u = can_alloc s" "string_limit u = string_limit s"
    by (rule ready_to_serve_loop [OF ready])
  from u(1) have start: "listening u" "wired u (storage_of a content)" "serves u BS (storage_of a content) content"
      "log_apart u (bs_path (storage_of a content))" "children u = []"
    by (simp_all add: server_start_def)
  have "filter forked es = es"
    using vs by (induction rule: list_all2_induct) (auto simp: converses_def connects_def)
  with ListenLoop_children [OF t(2) start(1-4)] start(5) u(2,3) obtain cs where
    "rev (children t) = cs" "list_all2 (child_of BS L (storage_of a content) content (can_alloc s) (string_limit s)) es cs" by auto
  with children_observed [OF L BS _ vs] t(1) show ?thesis by auto
qed

theorem service_refines_server_witness:
  "\<exists>t. main 4 ''0.1'' sample_tls [sample_client 77 (sample_request (Read_block 1)), sample_browser]
       sample_setup sample_daemon sample_command sample_main = Some (Ret 0, t)
     \<and> map (observed snd) (rev (children t)) =
         [(77, Some (Exit (-1), bytes_of_Packet \<lparr>version = 1, command = 5, payloadLength = 4\<rparr> @ [5, 6, 7, 8])),
          (78, Some (Exit (-1), prescribed 4 sample_tls [1 \<mapsto> [5, 6, 7, 8]] False
             (Over_websocket sample_request_line sample_headers (Read_block 1))))]"
proof -
  let ?e = "sample_client 77 (sample_request (Read_block 1))"
  have "list_all2 (converses 4 sample_tls fst (can_alloc sample_main) (string_limit sample_main) (file_blocks 4 (resolved ''/srv'' sample_arguments) sample_file))
      [?e, sample_browser] [Direct (Read_block 1), Over_websocket sample_request_line sample_headers (Read_block 1)]"
    using sample_converses [of 77 "Read_block 1"] sample_browser_converses by (simp add: answerable_def sample_stored)
  from service_refines_server [OF sample_ready_plain sample_tls_behaves _ this, of "''0.1''"] show ?thesis
    by (simp add: abstract_service_def answer_bytes_def sample_stored data_of_def wire_bytes_def)
      (simp add: sample_browser_def sample_client_def sample_request_def)
qed

text \<open>What is claimed of the run of a client process, as long as it is defined.\<close>

definition defined_run :: "('a outcome \<times> 's) option \<Rightarrow> bool" where
  "defined_run run \<longleftrightarrow> (case run of Some (Undefined u, q) \<Rightarrow> False | _ \<Rightarrow> True)"

definition harmless_run :: "string \<Rightarrow> u8 list \<Rightarrow> (unit outcome \<times> 'c proc) option \<Rightarrow> bool" where
  "harmless_run path content run \<longleftrightarrow> (case run of
       None \<Rightarrow> True
     | Some (Exit n, q) \<Rightarrow> files q path = Some content
         \<and> (\<exists>q'. destroy_receivedPacket q = Some (Ret (), q') \<and> files q' path = Some content)
     | Some (Uncaught, q) \<Rightarrow> files q path = Some content
     | _ \<Rightarrow> False)"

text \<open>
  C28: whatever clients send and OpenSSL answers, a process forked for a client whose run does not
  become undefined either never comes back, or it ends by \<open>exit\<close> or by an exception and does not
  return to the accept loop, the block file is as it was, and if it ends by \<open>exit\<close> the destructor of
  the static signal succeeds. As long as no run of a client becomes undefined the file is also
  unchanged for the listening process. Of a run that becomes undefined, and clients can bring that
  about (C32, C34, C35 and C36), nothing is claimed.
\<close>

theorem defined_clients_harmless:
  assumes ready: "ready_to_serve BS T D argv a content s"
  shows "\<exists>t. main BS V L es T D argv s = Some (Ret 0, t)
     \<and> (\<forall>c\<in>set (children t). defined_run (snd c) \<longrightarrow> harmless_run (blockStorageFile a) content (snd c))
     \<and> ((\<forall>c\<in>set (children t). defined_run (snd c)) \<longrightarrow> files t (blockStorageFile a) = Some content)"
proof -
  let ?path = "blockStorageFile a"
  obtain u t where t: "main BS V L es T D argv s = Some (Ret 0, t)" "ListenLoop BS L es u = Some (Ret (), t)"
    and u: "server_start BS (storage_of a content) content u"
    by (rule ready_to_serve_loop [OF ready])
  have ok: "server_ok BS L (storage_of a content) content t"
    by (rule listener.inv_reachable [OF u ListenLoop_steps [OF t(2)]])
  have "harmless_run ?path content (snd c)" if child: "c \<in> set (children t)" and "defined_run (snd c)" for c
  proof (cases "snd c")
    case None
    then show ?thesis by (simp add: harmless_run_def)
  next
    case (Some rq)
    obtain r q where rq: "rq = (r, q)" by (cases rq)
    from ok child have "child_ok BS L (storage_of a content) content c" by (simp add: server_ok_def)
    then obtain p where p: "serve_client BS L p = Some (r, q)" "wired p (storage_of a content)"
        "files p ?path = Some content" "log_apart p ?path"
      using Some rq by (auto simp: child_ok_def serves_def storage_of_def)
    from serve_client_ends [OF p(1,2)] p(3,4) obtain q' where
      q: "r \<noteq> Ret ()" "files q ?path = Some content"
        "destroy_receivedPacket q = Some (Ret (), q')" "files q' = files q" by (auto simp: server_kept_def)
    with that(2) Some rq show ?thesis by (cases r) (auto simp: harmless_run_def defined_run_def)
  qed
  moreover have "files t ?path = Some content" using ok by (simp add: server_ok_def serves_def storage_of_def)
  ultimately show ?thesis using t(1) by blast
qed

theorem defined_clients_harmless_witness:
  "\<exists>t p'. main 4 ''0.1'' sample_tls [sample_client 77 (sample_request (Write_block 1 [9, 9, 9, 9]))]
       sample_setup sample_daemon sample_command sample_main = Some (Ret 0, t)
     \<and> (77, Some (Exit (-1), p')) \<in> set (children t) \<and> files p' ''/srv/blocks'' = Some sample_file"
proof -
  let ?e = "sample_client 77 (sample_request (Write_block 1 [9, 9, 9, 9]))" and ?a = "resolved ''/srv'' sample_arguments"
  have path: "blockStorageFile ?a = ''/srv/blocks''"
    by (simp add: resolved_def resolve_def absolute_def sample_arguments_def)
  from defined_clients_harmless [OF sample_ready_plain, of "''0.1''" sample_tls "[?e]"] obtain t where
    t: "main 4 ''0.1'' sample_tls [?e] sample_setup sample_daemon sample_command sample_main = Some (Ret 0, t)"
      "\<forall>c\<in>set (children t). defined_run (snd c) \<longrightarrow> harmless_run ''/srv/blocks'' sample_file (snd c)"
    unfolding path by blast
  obtain u where u: "ListenLoop 4 sample_tls [?e] u = Some (Ret (), t)"
    "server_start 4 (storage_of ?a sample_file) sample_file u"
    "can_alloc u = can_alloc sample_main" "string_limit u = string_limit sample_main"
    by (rule ready_to_serve_loop [OF sample_ready_plain, of "''0.1''" sample_tls "[?e]"]) (use t(1) in auto)
  have v: "converses 4 sample_tls fst (can_alloc u) (string_limit u) (file_blocks 4 ?a sample_file) ?e
      (Direct (Write_block 1 [9, 9, 9, 9]))"
    unfolding u(3,4) by (rule sample_converses) (simp_all add: answerable_def)
  have "?e \<in> set [?e]" "(4 :: nat) < 2 ^ 31" by simp_all
  from loop_converses [OF sample_tls_behaves u(1,2) this(2,1) v] obtain p' where
    p': "(77, Some (Exit (-1), p')) \<in> set (children t)" by (auto simp: sample_client_def)
  with t(2) have "harmless_run ''/srv/blocks'' sample_file (Some (Exit (-1), p'))" by (force simp: defined_run_def)
  with t(1) p' show ?thesis by (auto simp: harmless_run_def)
qed

text \<open>
  C38: a client writes a block and is told that this worked; a client that connects later and reads
  the block gets what was in the file before the server was started.
\<close>

theorem written_block_reads_old:
  assumes ready: "ready_to_serve BS T D argv a content s" and L: "openssl_behaves L pending sent" and BS: "BS < 2 ^ 31"
    and writer: "converses BS L pending (can_alloc s) (string_limit s) (file_blocks BS a content) e (Direct (Write_block n bs))" "\<not> ev_flag e"
    and reader: "converses BS L pending (can_alloc s) (string_limit s) (file_blocks BS a content) e' (Direct (Read_block n))" "\<not> ev_flag e'"
    and inside: "(unat n + 1) * BS \<le> length content"
  shows "\<exists>t p p'. main BS V L (es1 @ e # es2 @ e' # es3) T D argv s = Some (Ret 0, t)
     \<and> (ev_pid e, Some (Exit (-1), p)) \<in> set (children t)
     \<and> sent (ssl p) = sent (ev_ssl e) @ bytes_of_Packet \<lparr>version = 1, command = command_code COMMAND_OK, payloadLength = 0\<rparr>
     \<and> (ev_pid e', Some (Exit (-1), p')) \<in> set (children t)
     \<and> sent (ssl p') = sent (ev_ssl e')
         @ bytes_of_Packet \<lparr>version = 1, command = command_code COMMAND_BLOCK_ANSWER, payloadLength = of_nat BS\<rparr>
         @ take BS (drop (unat n * BS) content)"
proof -
  let ?es = "es1 @ e # es2 @ e' # es3" and ?blocks = "blocks_of BS (storage_of a content) content"
  obtain u t where t: "main BS V L ?es T D argv s = Some (Ret 0, t)" "ListenLoop BS L ?es u = Some (Ret (), t)"
    and u: "server_start BS (storage_of a content) content u" "can_alloc u = can_alloc s" "string_limit u = string_limit s"
    by (rule ready_to_serve_loop [OF ready])
  have size: "BS \<le> length content" "length content < 2 ^ 63" using ready by (simp_all add: ready_to_serve_def)
  then have len: "unat (bs_fileLength (storage_of a content)) = length content"
    by (simp add: storage_of_def unat_of_nat)
  have offset: "block_offset BS n = unat n * BS" using inside size by (intro block_offset_exact) simp
  have block: "?blocks n = Some (take BS (drop (unat n * BS) content))"
    using inside size by (simp add: blocks_of_def isBlockAvailable_offset len offset block_at_def)
  have members: "e \<in> set ?es" "e' \<in> set ?es" by simp_all
  from loop_converses [OF L t(2) u(1) BS members(1)] writer(1) u(2,3) obtain p where
    p: "(ev_pid e, Some (Exit (-1), p)) \<in> set (children t)"
      "sent (ssl p) = sent (ev_ssl e) @ prescribed BS L ?blocks (ev_flag e) (Direct (Write_block n bs))" by metis
  from loop_converses [OF L t(2) u(1) BS members(2)] reader(1) u(2,3) obtain p' where
    p': "(ev_pid e', Some (Exit (-1), p')) \<in> set (children t)"
      "sent (ssl p') = sent (ev_ssl e') @ prescribed BS L ?blocks (ev_flag e') (Direct (Read_block n))" by metis
  from t(1) p p' writer(2) reader(2) block show ?thesis
    by (intro exI [of _ t] exI [of _ p] exI [of _ p'])
      (simp add: answer_bytes_def wire_bytes_def data_of_def)
qed

theorem written_block_reads_old_witness:
  "\<exists>t p p'. main 4 ''0.1'' sample_tls
       [sample_client 77 (sample_request (Write_block 1 [9, 9, 9, 9])), sample_client 78 (sample_request (Read_block 1))]
       sample_setup sample_daemon sample_command sample_main = Some (Ret 0, t)
     \<and> (77, Some (Exit (-1), p)) \<in> set (children t)
     \<and> snd (ssl p) = bytes_of_Packet \<lparr>version = 1, command = 7, payloadLength = 0\<rparr>
     \<and> (78, Some (Exit (-1), p')) \<in> set (children t)
     \<and> snd (ssl p') = bytes_of_Packet \<lparr>version = 1, command = 5, payloadLength = 4\<rparr> @ [5, 6, 7, 8]"
proof -
  let ?w = "Write_block 1 [9, 9, 9, 9]" and ?r = "Read_block 1"
  let ?e = "sample_client 77 (sample_request ?w)" and ?f = "sample_client 78 (sample_request ?r)"
  have "converses 4 sample_tls fst (can_alloc sample_main) (string_limit sample_main) (file_blocks 4 (resolved ''/srv'' sample_arguments) sample_file) ?e (Direct ?w)"
    "converses 4 sample_tls fst (can_alloc sample_main) (string_limit sample_main) (file_blocks 4 (resolved ''/srv'' sample_arguments) sample_file) ?f (Direct ?r)"
    by (rule sample_converses; simp add: answerable_def sample_stored)+
  from written_block_reads_old [OF sample_ready_plain sample_tls_behaves _ this(1) _ this(2), of "''0.1''" "[]" "[]" "[]"]
  show ?thesis by (simp add: sample_client_def sample_request_def sample_file_def)
qed

text \<open>
  C39: a daemon without a log file closes descriptor 1 and keeps writing to it. The listening socket
  gets descriptor 0 and the first client descriptor 1: what its process prints, here the
  complaint about a packet that is too large, goes to the client, in the clear, around its TLS
  connection. The listening process prints to a closed descriptor and is silent from then on.
\<close>

theorem daemon_prints_to_client:
  assumes ready: "ready_to_serve BS T D argv a content s" and L: "openssl_behaves L pending sent"
    and daemon: "flagDaemonize a \<noteq> 0" "logFile a = ''''" and cout: "cout_buffer s = Stdout_buffer" "cout_good s"
    and lowest: "socket_result T = 0" "ev_socket e = 1" and e: "connects L e"
    and sends: "arrives (pending (ev_ssl e)) [bytes_of_Packet q] rs"
      "MAX_PACKET_PAYLOAD_SIZE < payloadLength q" "\<not> starts_with_GET (bytes_of_Packet q)"
  shows "\<exists>t p'. main BS V L (e # es) T D argv s = Some (Ret 0, t)
     \<and> (ev_pid e, Some (Exit (-1), p')) \<in> set (children t)
     \<and> printed p' = [(Socket 1, too_large (payloadLength q))] \<and> sent (ssl p') = sent (ev_ssl e)
     \<and> \<not> cout_good t \<and> printed t = printed s"
proof -
  obtain u t where t: "main BS V L (e # es) T D argv s = Some (Ret 0, t)" "ListenLoop BS L (e # es) u = Some (Ret (), t)"
    and u: "server_start BS (storage_of a content) content u"
      "console u = console (daemonized D a s)" "fds u = fds (daemonized D a s)" "serverSocket u = socket_result T"
    by (rule ready_to_serve_loop [OF ready])
  have on: "listening u" and sockets: "sockets u = [0]" using u(1,4) lowest(1) by (simp_all add: server_start_def)
  have cout_u: "cout_buffer u = Stdout_buffer" "cout_good u" "printed u = printed s" "fds u 1 = None"
    using u(2,3) daemon cout by (simp_all add: daemonized_def console_def)
  from t(2) on obtain v where v: "listen_round BS L e u = Some (Ret (), v)" "ListenLoop BS L es v = Some (Ret (), t)"
    "listening v" by (rule ListenLoop_ConsE)
  have forked: "forked e" using e by (simp add: connects_def)
  have child: "(ev_pid e, serve_client BS L (fork_child e u)) \<in> set (children t)"
    using listen_round_child [OF v(1)] ListenLoop_keeps_children [OF v(2,3)] forked by auto
  have "accepts L (fork_child e u)" using e by (simp add: connects_def accepts_def)
  from serve_oversize_packet [OF L this, of q rs BS] sends obtain p' where
    p': "serve_client BS L (fork_child e u) = Some (Exit (-1), said (too_large (payloadLength q)) p')"
      "same_server (fork_child e u) p'" "sent (ssl p') = sent (ev_ssl e)" by auto
  have fd: "cout_fd u = 1" using cout_u(1) by (simp add: cout_fd_def)
  then have "cout_target (fork_child e u) = Some (Socket 1)" using lowest(2) by (simp add: cout_target_def)
  then have "printed (said (too_large (payloadLength q)) p') = [(Socket 1, too_large (payloadLength q))]"
    using printed_after [OF p'(2), of "Socket 1"] u(4) lowest(1) cout_u(2) fd by simp
  moreover have "\<not> cout_good v \<and> printed v = printed s"
    using v(1)
  proof (cases rule: listen_round_cases)
    case error
    with lowest(2) show ?thesis by simp
  next
    case client
    have "cout_target u = None" using cout_u(4) sockets fd by (simp add: cout_target_def)
    with cout_u(2,3) show ?thesis by (simp add: client(2) after_client_unwritten)
  qed
  ultimately show ?thesis
    using t(1) child p' ListenLoop_silent [OF v(2,3)]
    by (intro exI [of _ t] exI [of _ "said (too_large (payloadLength q)) p'"]) simp
qed

theorem daemon_prints_to_client_witness:
  "\<exists>t p'. main 4 ''0.1'' sample_tls
       [sample_client 77 ([bytes_of_Packet \<lparr>version = 1, command = 2, payloadLength = 134217729\<rparr>], [])]
       (sample_setup\<lparr>socket_result := 0\<rparr>) sample_daemon
       (''shepoo'' # spell_out (\<lambda>i. True) (\<lambda>i. i = 2) (sample_arguments\<lparr>flagDaemonize := 1\<rparr>)) sample_main = Some (Ret 0, t)
     \<and> (77, Some (Exit (-1), p')) \<in> set (children t)
     \<and> printed p' = [(Socket 1, ''Client wanted to send data with payload size 134217729''
          @ '' but we only handle a maximum of 134217728.'')] \<and> \<not> cout_good t \<and> printed t = []"
proof -
  let ?a = "sample_arguments\<lparr>flagDaemonize := 1\<rparr>" and ?q = "\<lparr>version = 1, command = 2, payloadLength = 134217729\<rparr>"
  let ?b = "resolved ''/srv'' ?a"
  have ready: "ready_to_serve 4 (sample_setup\<lparr>socket_result := 0\<rparr>) sample_daemon
      (''shepoo'' # spell_out (\<lambda>i. True) (\<lambda>i. i = 2) ?a) ?b sample_file sample_main"
    by (rule sample_ready) simp_all
  have daemon: "flagDaemonize ?b \<noteq> 0" "logFile ?b = ''''"
    by (simp_all add: resolved_def resolve_def sample_arguments_def no_arguments_def)
  have cout: "cout_buffer sample_main = Stdout_buffer" "cout_good sample_main" "printed sample_main = []"
    by (simp_all add: sample_main_def)
  have connects: "connects sample_tls (sample_client 77 ([bytes_of_Packet ?q], []))"
    by (simp add: connects_def forked_def sample_client_def sample_tls_def)
  have "bytes_of_Packet ?q \<noteq> []" "\<not> starts_with_GET (bytes_of_Packet ?q)"
    by (simp_all add: first_byte_not_GET bytes_of_Packet_def le64.length_enc)
  with daemon_prints_to_client [OF ready sample_tls_behaves daemon cout(1,2) _ _ connects,
      where q = ?q and V = "''0.1''" and es = "[]" and rs = "[]"]
  obtain t p' where "main 4 ''0.1'' sample_tls [sample_client 77 ([bytes_of_Packet ?q], [])]
       (sample_setup\<lparr>socket_result := 0\<rparr>) sample_daemon
       (''shepoo'' # spell_out (\<lambda>i. True) (\<lambda>i. i = 2) ?a) sample_main = Some (Ret 0, t)"
     "(77, Some (Exit (-1), p')) \<in> set (children t)" "printed p' = [(Socket 1, too_large (payloadLength ?q))]"
     "\<not> cout_good t \<and> printed t = printed sample_main"
    by (auto simp: sample_client_def MAX_PACKET_PAYLOAD_SIZE_def)
  with cout(3) show ?thesis by (intro exI [of _ t] exI [of _ p']) (simp add: too_large_example)
qed


end
