(* ===== verification/Driver.thy ===== *)
theory Driver
  imports Shepoo_Prelude
begin

text \<open>
  The Linux block device driver, \<open>drivers/linux/shepoo.c\<close>. So far the module registers no device:
  it writes a line to the log of the kernel when it is loaded and when it is unloaded. The kernel
  calls the functions that \<open>module_init\<close> and \<open>module_exit\<close> name; a module whose \<open>init\<close> function
  returns anything but 0 is not loaded.
\<close>

record kernel =
  kernel_log :: string
  loaded :: bool

definition printk :: "string \<Rightarrow> (unit, 'z kernel_scheme) prog" where
  "printk s = modifyp (\<lambda>k. k\<lparr>kernel_log := kernel_log k @ s\<rparr>)"

definition shepoo_init :: "(int, 'z kernel_scheme) prog" where
  "shepoo_init =
     seqp (printk (''Loading shepoo block device driver.'' @ [CHR 0x0A]))
     (returnp 0)"

definition shepoo_exit :: "(unit, 'z kernel_scheme) prog" where
  "shepoo_exit = printk (''Unloading shepoo block device driver..'' @ [CHR 0x0A])"

section \<open>Loading and unloading\<close>

definition insmod :: "(int, 'z kernel_scheme) prog \<Rightarrow> (unit, 'z kernel_scheme) prog" where
  "insmod init = bindp init (\<lambda>err. modifyp (\<lambda>k. k\<lparr>loaded := (err = 0)\<rparr>))"

definition rmmod :: "(unit, 'z kernel_scheme) prog \<Rightarrow> (unit, 'z kernel_scheme) prog" where
  "rmmod cleanup = seqp cleanup (modifyp (\<lambda>k. k\<lparr>loaded := False\<rparr>))"

lemma shepoo_loads:
  "insmod shepoo_init k = Some (Ret (), k\<lparr>loaded := True,
     kernel_log := kernel_log k @ ''Loading shepoo block device driver.'' @ [CHR 0x0A]\<rparr>)"
  by (simp add: insmod_def shepoo_init_def printk_def prog_simps)

lemma shepoo_load_unload:
  "seqp (insmod shepoo_init) (rmmod shepoo_exit) k = Some (Ret (), k\<lparr>loaded := False,
     kernel_log := kernel_log k @ ''Loading shepoo block device driver.'' @ [CHR 0x0A]
       @ ''Unloading shepoo block device driver..'' @ [CHR 0x0A]\<rparr>)"
  by (simp add: seqp_run shepoo_loads rmmod_def shepoo_exit_def printk_def prog_simps)

end
