(* ===== verification/Spec2Isabelle.thy ===== *)
theory Spec2Isabelle
  imports Sigslot_Properties Sigslot_Policy_Properties Protocol_Properties Network_Properties Network_Limits Startup_Properties Service_Properties Driver
begin

text \<open>
  Verification of the Shepoo block server (\<open>server/\<close> of the repository), written in C++.

  The program. \<open>main\<close> (\<open>server/src/main.cpp\<close>) reads the command line, may turn itself into
  a daemon, makes a \<open>Blockstorage\<close> for a file of blocks and a \<open>Protocol\<close> object that works on
  it, connects the object to the static signal \<open>SecNet::receivedPacket\<close>, and calls
  \<open>SecNet::Initialize\<close>, which sets up TLS and a listening socket and stays in \<open>ListenLoop\<close>.
  For every client the loop forks a process that constructs one \<open>SecNet\<close> object
  (\<open>server/src/secnet.cpp\<close>): it reads one packet, either directly or, when the first bytes
  are those of an HTTP request, in a frame after a WebSocket handshake, and emits the signal.
  The slot \<open>Protocol::packetReceived\<close> (\<open>server/src/protocol.cpp\<close>) answers through
  \<open>SecNet::sendPacket\<close>, and the process exits. Signals and slots are the library
  \<open>server/include/sigslot.h\<close>: objects that have slots know the signals connected to them, so
  that either side can be destroyed first, and a threading policy chosen when the program is
  compiled decides what every operation locks. \<open>drivers/linux/shepoo.c\<close> is a kernel module.

  How it is modelled. A piece of code is a program of type \<open>('a, 's) prog\<close> (Shepoo_Prelude):
  it takes a state to an outcome and a state. Outcomes are a returned value, \<open>exit\<close>, an
  exception nobody catches, and undefined behaviour, which is a value here so that theorems
  say when it is reached, with nothing known of what follows; a run that never comes back is \<open>None\<close>. States are records that
  extend each other in the order of the layers:
  \<^item> Machine: \<open>machine\<close>, allocation with uninitialised contents, the length to which strings can
    grow, files, descriptors, locks;
  \<^item> Sigslot: \<open>world\<close> adds connections, the lists of signals and the senders of objects;
  \<^item> Process: \<open>proc\<close> adds the TLS connection, the \<open>_webSocket\<close> flag, the sockets, the
    address of the static signal, the protocol objects, and the stream \<open>std::cout\<close> with what was
    written and whether it went to the log file, to standard output or to a socket; a line that
    goes to a file changes the file;
  \<^item> Server: \<open>server\<close> adds the bound address and the forked children with their runs;
  \<^item> Startup: \<open>main_process\<close> adds what else a daemon changes.
  Sigslot_Policies has a second extension of \<open>world\<close>: \<open>locked_world\<close> adds the mutexes.
  Integers keep their width (\<open>u8\<close> to \<open>u64\<close>), so lengths and offsets wrap around as in the
  code. \<open>BLOCK_SIZE\<close> and the version text are chosen by \<open>configure.sh\<close>: the parameters \<open>BS\<close>
  and \<open>VERSION\<close>.

  The theories.
  \<^item> Shepoo_Prelude, Machine: programs, preservation rules, invariants of step relations,
    bytes of little-endian numbers, the interface of a fixed-width codec; POSIX calls.
    Formatting: numbers as the stream prints them. Getopt: \<open>getopt_long_only\<close> on the words of a
    command line, one call at a time. Command_Line: what a command line means, by the names of the
    options and without the table and the loop of \<open>main\<close>.
  \<^item> Sigslot: every operation of \<open>sigslot.h\<close> for a signal of one class, without locks, which
    is how the server uses it. Sigslot_Links states the invariant \<open>consistent\<close> and what
    connecting and disconnecting do to it; Sigslot_Copies treats destruction and the copy
    loops; Sigslot_System makes the library a step relation with the invariant in all
    reachable worlds, and shows what an emission calls, under the contract \<open>slot_calls\<close> that
    slots leave later connections alone. Sigslot_Properties: the properties.
  \<^item> Signal0 to Signal8: the classes \<open>_connectionN\<close>, \<open>_signal_baseN\<close> and \<open>signalN\<close> the header
    repeats for zero to eight arguments, for any threading policy, over the loops of
    Sigslot_Loops. Sigslot_Policies: the policies and the choice between them.
    Sigslot_Classes: objects with slots, which reach signals through virtual functions, and
    the whole interface as calls, \<open>exec\<close>; without threads it is the theory Sigslot.
  \<^item> Sigslot_Simulation: programs that ignore the mutexes, lifetimes, and a simulation
    between a program without locks and one with locks. Sigslot_Locking: the contract
    \<open>thread_policy\<close> of a policy, and the simulation for every operation under it.
    Sigslot_Calls: sequences of calls; POSIX local and both Win32 policies meet the contract.
    Sigslot_Threads: a policy that records what is locked, and threads that run such records
    against shared mutexes. Sigslot_Policy_Properties: one thread sees no difference between
    these policies, the global POSIX policy cannot work, and when threads can deadlock.
  \<^item> Wire: the two structs as bytes and the masking loop. Blockstorage: the file of blocks,
    with the contract \<open>block_source\<close> the handler relies on. Protocol: the handler, and the
    abstract server \<open>reply\<close> it refines under that contract. Protocol_Properties.
  \<^item> Openssl: the library is a record of functions, a parameter of the definitions;
    \<open>openssl_behaves\<close> is its documented behaviour (a read returns bytes of at most one
    record). Process: the calls of the library, and the console. SecNet: the code of a client process. SecNet_Delivery: emitting
    \<open>receivedPacket\<close> in a process set up by \<open>main\<close> runs the handler. SecNet_Requests:
    \<open>sendPacket\<close> and a packet sent directly; SecNet_Frames: WebSocket frames;
    SecNet_Handshake: the HTTP request, line by line, in any division into records, with lines the
    memory can hold and without. Client_Frame: what a client process keeps while it is defined,
    by rules that follow the structure of the code (the locale \<open>frame\<close> of the prelude).
    Network_Properties: what a client observes. Network_Limits: what the server cannot cope with.
  \<^item> Server, Listener: \<open>Initialize\<close>, the accept loop, its invariant and its children. Startup,
    Startup_Service: the command line, the daemon, \<open>main\<close> up to the loop. Startup_Properties.
    Service: the conversations clients may start, the abstract server that prescribes the bytes
    of the answers, and what of a process can be observed. Service_Properties: the program
    from its command line to the bytes its clients get refines the abstract server.
  \<^item> Driver: loading and unloading the kernel module.

  Loops. Loops over lists and counters are recursive functions. Five loops need not end and
  are partial functions into \<open>option\<close>, without fuel: \<open>emit_loop\<close> and \<open>slot_duplicate_loop\<close> with
  their counterparts \<open>next_then_body\<close> and \<open>body_then_next\<close> for all classes (the second pair
  appends to the list it walks; C10 shows that it ends), and \<open>read_lines\<close> (which reads on as long
  as line feeds come; C31 shows that on a closed connection it goes on until a string cannot grow
  any more). The accept loop takes the list of clients that come; at its end the process waits in \<open>accept\<close>. A thread that locks a mutex it holds itself, and
  that is not recursive, is a run that never comes back.

  Assumptions that are visible in the theorems: the block file is the one whose length was
  read and nobody else writes it (the log goes to another file, and the process of another client
  leaves it alone even after undefined behaviour), allocations of the sizes used succeed and strings
  hold the lines of a request, a descriptor is free, OpenSSL behaves as documented. Every property
  with hypotheses has an example that satisfies them.

  Not modelled: the body of OpenSSL, of the resolver library and of the thread libraries
  (mutexes and critical sections are state machines with their documented behaviour), what
  \<open>getopt_long_only\<close> writes to standard error, \<open>server/src/shuffle.cpp\<close> (empty) and, of the build
  script, everything but the version numbers and the block size. The lines of the sources with no
  definition of their own hold no code to run: the declarations and typedefs of the classes, the
  pure virtual functions of the \<open>_connection_base\<close> classes, the default constructors of the
  \<open>_connection\<close> classes, which nothing instantiates, the empty destructor of \<open>Blockstorage\<close>, and the
  includes.
  Of threads, only the locks they take are interleaved: threads that work on the memory
  of the library at once without a lock are not described.
\<close>

section \<open>The server and the classes of the library\<close>

text \<open>
  The signal of the server is a \<open>signal3<SecNet::Packet, uint8_t*, SecNet*>\<close> and \<open>Protocol\<close> inherits
  from \<open>has_slots<>\<close>, with the policy without threads: what the theories of the server use of the
  library are the operations of these classes.
\<close>

lemma receivedPacket_is_signal3:
  "emit_receivedPacket BS L packet payload =
     bindp (getp receivedPacket) (\<lambda>s. signal3_emit single_threaded
       (\<lambda>f ob packet payload secnet. call_slot BS L packet payload \<lparr>m_pobject = ob, m_pmemfun = f\<rparr>)
       s packet payload secnet)"
  by (simp add: emit_receivedPacket_def class_same signal0_emit_plain)

lemma main_connects_signal3:
  "signal_connect s ob f = signal3_connect single_threaded s ob f"
  "has_slots_new = locked_has_slots_new single_threaded"
  by (simp_all add: class_same signal0_plain has_slots_plain)

end
